theory Spec2Isabelle
  imports Main "HOL-Library.Word" "HOL-Library.Char_ord" "HOL-Library.List_Lexorder"
begin

section \<open>Strings of the JavaScript runtime\<close>

text \<open>
  A string is the list of the bytes of its UTF-8 text (\<open>char list\<close>); an ASCII character is
  one byte. The order on strings, from \<open>Char_ord\<close> and \<open>List_Lexorder\<close>, compares byte by
  byte and puts a proper prefix first: it is the order SQLite's default BINARY collation
  gives two TEXT values, which is how every comparison of the \<open>admin_sessions\<close> columns
  in the handlers is decided.
\<close>

definition digit :: "nat \<Rightarrow> char" where
  "digit n = ''0123456789'' ! n"

text \<open>\<open>String(n)\<close> of a non-negative integer: its decimal digits.\<close>

function toString :: "nat \<Rightarrow> string" where
  "toString n = (if n < 10 then [digit n] else toString (n div 10) @ [digit (n mod 10)])"
  by pat_completeness auto
termination
  by (relation "measure id") auto

declare toString.simps [simp del]

text \<open>\<open>s.padStart(n, c)\<close> with a one-character filler.\<close>

definition padStart :: "nat \<Rightarrow> char \<Rightarrow> string \<Rightarrow> string" where
  "padStart n c s = replicate (n - length s) c @ s"

definition endsWith :: "string \<Rightarrow> string \<Rightarrow> bool" where
  "endsWith s suf = (length suf \<le> length s \<and> drop (length s - length suf) s = suf)"

text \<open>
  Three functions that the handlers call are not code of this repository:
  \<^item> \<open>validator.trim\<close> of the validator.js package, which with no character set removes
    the JavaScript whitespace (\<open>\s\<close>, Unicode blanks included) at both ends;
  \<^item> \<open>String.prototype.toLowerCase\<close> of the runtime, the Unicode lower-case mapping;
  \<^item> \<open>validator.isEmail\<close>, with the options \<open>validateEmail\<close> passes.
  The handlers take them as the record \<open>lib\<close>. Nothing is assumed about them: whatever
  is proved of a handler holds for every such record.
\<close>

record library =
  trim :: "string \<Rightarrow> string"
  toLowerCase :: "string \<Rightarrow> string"
  isEmail :: "string \<Rightarrow> bool"

section \<open>Clock values and their two text forms\<close>

text \<open>
  \<open>Date.now()\<close> is an integer number of milliseconds since 1970-01-01T00:00:00Z. The
  handlers never store that number: they store and compare text. Two text forms are in
  play, and the source mixes them.
  \<^item> \<open>new Date(ms).toISOString()\<close> prints \<open>YYYY-MM-DDTHH:MM:SS.mmmZ\<close>. The handlers bind
    this form to the statements' parameters and write it to \<open>otp_expires_at\<close> and
    \<open>session_expires_at\<close>.
  \<^item> SQLite's \<open>CURRENT_TIMESTAMP\<close> and \<open>datetime('now')\<close> print \<open>YYYY-MM-DD HH:MM:SS\<close>
    (UTC). The schema fills \<open>created_at\<close> with the former
    (\<open>created_at DATETIME DEFAULT CURRENT_TIMESTAMP\<close>) and \<open>checkVerifyRateLimit\<close> compares
    against the latter.
  Both are printed here from the proleptic Gregorian calendar, for the years 0000 to 9999
  in which both platforms print a four-digit year.
\<close>

definition leap :: "int \<Rightarrow> bool" where
  "leap y = ((y mod 4 = 0 \<and> y mod 100 \<noteq> 0) \<or> y mod 400 = 0)"

definition year_length :: "int \<Rightarrow> int" where
  "year_length y = (if leap y then 366 else 365)"

text \<open>From a year and a day count into it, to the year the day falls in and the day of that year.\<close>

function year_walk :: "int \<Rightarrow> int \<Rightarrow> int \<times> int" where
  "year_walk y d =
     (if year_length y \<le> d then year_walk (y + 1) (d - year_length y) else (y, d))"
  by pat_completeness auto
termination
  by (relation "measure (\<lambda>(y, d). nat d)") (auto simp: year_length_def split: if_splits)

declare year_walk.simps [simp del]

definition month_lengths :: "int \<Rightarrow> int list" where
  "month_lengths y = [31, if leap y then 29 else 28, 31, 30, 31, 30, 31, 31, 30, 31, 30, 31]"

fun month_walk :: "int list \<Rightarrow> int \<Rightarrow> int \<Rightarrow> int \<times> int" where
  "month_walk [] m d = (m, d)"
| "month_walk (l # ls) m d = (if l \<le> d then month_walk ls (m + 1) (d - l) else (m, d))"

text \<open>
  Year and day of the year, then month and day of the month (from 0), of a day number
  counted from 1970-01-01. Day 0 of year 0000 is 719528 days before it, and every 400
  years have 146097 days.
\<close>

definition year_day :: "int \<Rightarrow> int \<times> int" where
  "year_day days =
     year_walk (400 * ((days + 719528) div 146097)) ((days + 719528) mod 146097)"

definition month_day :: "int \<Rightarrow> int \<times> int" where
  "month_day days =
     month_walk (month_lengths (fst (year_day days))) 1 (snd (year_day days))"

definition pad :: "nat \<Rightarrow> int \<Rightarrow> string" where
  "pad w n = padStart w (CHR ''0'') (toString (nat n))"

definition date_text :: "int \<Rightarrow> string" where
  "date_text ms =
     pad 4 (fst (year_day (ms div 86400000))) @ ''-'' @
     pad 2 (fst (month_day (ms div 86400000))) @ ''-'' @
     pad 2 (snd (month_day (ms div 86400000)) + 1)"

definition clock_text :: "int \<Rightarrow> string" where
  "clock_text ms =
     pad 2 (ms div 3600000 mod 24) @ '':'' @ pad 2 (ms div 60000 mod 60) @ '':'' @
     pad 2 (ms div 1000 mod 60)"

definition toISOString :: "int \<Rightarrow> string" where
  "toISOString ms = date_text ms @ ''T'' @ clock_text ms @ ''.'' @ pad 3 (ms mod 1000) @ ''Z''"

definition sqlite_datetime :: "int \<Rightarrow> string" where
  "sqlite_datetime ms = date_text ms @ '' '' @ clock_text ms"

section \<open>utils/crypto: \<open>generateOTP\<close> and \<open>generateSessionToken\<close>\<close>

text \<open>
  \<open>generateOTP\<close> draws one \<open>Uint32\<close> from \<open>crypto.getRandomValues\<close> and returns
  \<open>String(100000 + (array[0] % 900000)).padStart(6, '0')\<close>. The drawn value is the argument.
\<close>

definition generateOTP :: "32 word \<Rightarrow> string" where
  "generateOTP r = padStart 6 (CHR ''0'') (toString (100000 + unat r mod 900000))"

definition hexDigit :: "nat \<Rightarrow> char" where
  "hexDigit n = ''0123456789abcdef'' ! n"

text \<open>\<open>byte.toString(16).padStart(2, '0')\<close> of a byte.\<close>

definition hexByte :: "8 word \<Rightarrow> string" where
  "hexByte b = [hexDigit (unat b div 16), hexDigit (unat b mod 16)]"

text \<open>
  \<open>generateSessionToken\<close> fills a \<open>Uint8Array(32)\<close> and joins the bytes' two hexadecimal
  digits. The argument gives the drawn byte at each index.
\<close>

definition generateSessionToken :: "(nat \<Rightarrow> 8 word) \<Rightarrow> string" where
  "generateSessionToken bytes = concat (map (\<lambda>i. hexByte (bytes i)) [0..<32])"

section \<open>utils/validation\<close>

text \<open>
  \<open>validateOTP\<close> is \<open>validator.isNumeric(otp, {no_symbols: true})\<close>, one or more decimal
  digits and nothing else, together with \<open>validator.isLength(otp, {min: 6, max: 6})\<close>.
\<close>

definition isNumeric :: "string \<Rightarrow> bool" where
  "isNumeric s = (s \<noteq> [] \<and> list_all (\<lambda>c. c \<in> set ''0123456789'') s)"

definition validateOTP :: "string \<Rightarrow> bool" where
  "validateOTP code = (isNumeric code \<and> length code = 6)"

text \<open>
  \<open>validateEmail\<close> hands the address to \<open>validator.isEmail\<close>, the field \<open>isEmail\<close> of the
  library record.
\<close>

section \<open>The \<open>admin_sessions\<close> table\<close>

text \<open>
  One row per issued code, as in \<open>schema.sql\<close>: \<open>session_token\<close> and
  \<open>session_expires_at\<close> are the nullable columns; \<open>row_id\<close> is the column \<open>id\<close>
  (\<open>INTEGER PRIMARY KEY AUTOINCREMENT\<close>).
\<close>

record AdminSession =
  row_id :: nat
  email :: string
  otp :: string
  session_token :: "string option"
  otp_expires_at :: string
  session_expires_at :: "string option"
  created_at :: string

text \<open>
  The database: the rows in rowid order, and the largest id AUTOINCREMENT has handed out
  (SQLite keeps it in \<open>sqlite_sequence\<close>, so that the id of a deleted row is not used again).
\<close>

record D1 =
  admin_sessions :: "AdminSession list"
  last_id :: nat

definition next_id :: "D1 \<Rightarrow> nat" where
  "next_id db = Suc (fold max (map row_id (admin_sessions db)) (last_id db))"

text \<open>
  \<open>INSERT INTO admin_sessions (email, otp, otp_expires_at) VALUES (?, ?, ?)\<close>: the other
  columns take their defaults, NULL for the session columns and \<open>CURRENT_TIMESTAMP\<close> of
  the database's clock for \<open>created_at\<close>.
\<close>

definition insert_otp :: "D1 \<Rightarrow> int \<Rightarrow> string \<Rightarrow> string \<Rightarrow> string \<Rightarrow> D1" where
  "insert_otp db clock addr code expires =
     \<lparr>admin_sessions = admin_sessions db @
        [\<lparr>row_id = next_id db, email = addr, otp = code, session_token = None,
          otp_expires_at = expires, session_expires_at = None,
          created_at = sqlite_datetime clock\<rparr>],
      last_id = next_id db\<rparr>"

text \<open>
  \<open>SELECT COUNT(*) FROM admin_sessions WHERE email = ? AND created_at > ?\<close>
\<close>

definition count_recent :: "D1 \<Rightarrow> string \<Rightarrow> string \<Rightarrow> nat" where
  "count_recent db addr windowStart =
     length (filter (\<lambda>r. email r = addr \<and> windowStart < created_at r) (admin_sessions db))"

text \<open>
  \<open>SELECT COUNT(*) FROM admin_sessions WHERE email = ? AND created_at > ?
  AND session_token IS NULL AND otp_expires_at < datetime('now')\<close>, at the database clock
  \<open>clock\<close>.
\<close>

definition count_failed :: "D1 \<Rightarrow> int \<Rightarrow> string \<Rightarrow> string \<Rightarrow> nat" where
  "count_failed db clock addr windowStart =
     length (filter (\<lambda>r. email r = addr \<and> windowStart < created_at r \<and>
                          session_token r = None \<and> otp_expires_at r < sqlite_datetime clock)
               (admin_sessions db))"

text \<open>
  \<open>SELECT * FROM admin_sessions WHERE email = ? AND otp = ? AND otp_expires_at > ?
  AND session_token IS NULL ORDER BY created_at DESC LIMIT 1\<close>. Among rows with the same
  greatest \<open>created_at\<close> SQLite may return any; \<open>newest\<close> returns the one of lowest rowid.
\<close>

definition otp_matches :: "string \<Rightarrow> string \<Rightarrow> string \<Rightarrow> AdminSession \<Rightarrow> bool" where
  "otp_matches addr code nowText r =
     (email r = addr \<and> otp r = code \<and> nowText < otp_expires_at r \<and> session_token r = None)"

fun newest :: "AdminSession list \<Rightarrow> AdminSession option" where
  "newest [] = None"
| "newest (r # rs) =
     (case newest rs of
        None \<Rightarrow> Some r
      | Some s \<Rightarrow> if created_at r < created_at s then Some s else Some r)"

definition select_otp :: "D1 \<Rightarrow> string \<Rightarrow> string \<Rightarrow> string \<Rightarrow> AdminSession option" where
  "select_otp db addr code nowText =
     newest (filter (otp_matches addr code nowText) (admin_sessions db))"

text \<open>
  \<open>UPDATE admin_sessions SET session_token = ?, session_expires_at = ?, otp = ''
  WHERE id = ?\<close>
\<close>

definition consume :: "string \<Rightarrow> string \<Rightarrow> AdminSession \<Rightarrow> AdminSession" where
  "consume token expires r =
     r\<lparr>session_token := Some token, session_expires_at := Some expires, otp := []\<rparr>"

definition update_session :: "D1 \<Rightarrow> string \<Rightarrow> string \<Rightarrow> nat \<Rightarrow> D1" where
  "update_session db token expires i =
     db\<lparr>admin_sessions :=
          map (\<lambda>r. if row_id r = i then consume token expires r else r) (admin_sessions db)\<rparr>"

text \<open>
  \<open>DELETE FROM admin_sessions WHERE email = ? AND session_token IS NULL AND id != ?\<close>
\<close>

definition delete_unused :: "D1 \<Rightarrow> string \<Rightarrow> nat \<Rightarrow> D1" where
  "delete_unused db addr i =
     db\<lparr>admin_sessions :=
          filter (\<lambda>r. \<not> (email r = addr \<and> session_token r = None \<and> row_id r \<noteq> i))
            (admin_sessions db)\<rparr>"

text \<open>
  \<open>SELECT * FROM admin_sessions WHERE session_token = ? AND session_expires_at > ?\<close>:
  whether it returns a row. A NULL column satisfies neither comparison.
\<close>

definition session_row :: "string \<Rightarrow> string \<Rightarrow> AdminSession \<Rightarrow> bool" where
  "session_row token nowText r =
     (session_token r = Some token \<and>
      (case session_expires_at r of None \<Rightarrow> False | Some e \<Rightarrow> nowText < e))"

definition select_session :: "D1 \<Rightarrow> string \<Rightarrow> string \<Rightarrow> AdminSession option" where
  "select_session db token nowText = find (session_row token nowText) (admin_sessions db)"

text \<open>\<open>DELETE FROM admin_sessions WHERE session_token = ?\<close>\<close>

definition delete_token :: "D1 \<Rightarrow> string \<Rightarrow> D1" where
  "delete_token db token =
     db\<lparr>admin_sessions := filter (\<lambda>r. session_token r \<noteq> Some token) (admin_sessions db)\<rparr>"

text \<open>
  \<open>DELETE FROM admin_sessions WHERE (otp_expires_at < ? AND session_token IS NULL)
  OR (session_expires_at IS NOT NULL AND session_expires_at < ?)\<close>
\<close>

definition expired_row :: "string \<Rightarrow> AdminSession \<Rightarrow> bool" where
  "expired_row nowText r =
     ((otp_expires_at r < nowText \<and> session_token r = None) \<or>
      (case session_expires_at r of None \<Rightarrow> False | Some e \<Rightarrow> e < nowText))"

definition delete_expired :: "D1 \<Rightarrow> string \<Rightarrow> D1" where
  "delete_expired db nowText =
     db\<lparr>admin_sessions := filter (\<lambda>r. \<not> expired_row nowText r) (admin_sessions db)\<rparr>"

section \<open>What a request meets: clock, randomness, database and mail\<close>

text \<open>
  Everything outside the handler that one request depends on.
  \<^item> \<open>now\<close>: the clock, read by \<open>Date.now()\<close>, \<open>new Date()\<close> and by the database for
    \<open>CURRENT_TIMESTAMP\<close> and \<open>datetime('now')\<close>; one request is handled at one instant.
  \<^item> \<open>random_u32\<close>, \<open>random_bytes\<close>: what \<open>crypto.getRandomValues\<close> fills the arrays with.
  \<^item> \<open>d1_rejects k\<close>: whether the \<open>k\<close>-th D1 statement the request runs (from 0) rejects;
    the awaiting handler then throws at that statement.
  \<^item> \<open>email_sent\<close>: what \<open>sendEmail\<close> resolves to; it catches its own errors and
    never throws.
\<close>

record world =
  now :: int
  random_u32 :: "32 word"
  random_bytes :: "nat \<Rightarrow> 8 word"
  d1_rejects :: "nat \<Rightarrow> bool"
  email_sent :: bool

text \<open>The JSON bodies the handlers send, and \<open>jsonResponse(data, status, headers)\<close>.\<close>

datatype json =
    Error string
  | ErrorRetryAfter string nat
  | Success string
  | SuccessOnly
  | Authenticated

record response =
  status :: nat
  body :: json
  set_cookie :: "string option"

definition jsonResponse :: "json \<Rightarrow> nat \<Rightarrow> string option \<Rightarrow> response" where
  "jsonResponse data code cookie = \<lparr>status = code, body = data, set_cookie = cookie\<rparr>"

text \<open>
  What a handler leaves behind: the response, the database, and the lines it wrote with
  \<open>console.error\<close>.
\<close>

record outcome =
  reply :: response
  store :: D1
  console :: "string list"

datatype thrown = D1Error

section \<open>handlers/admin: the rate limits\<close>

definition MAX_OTP_REQUESTS_PER_HOUR :: nat where
  "MAX_OTP_REQUESTS_PER_HOUR = 5"

definition MAX_OTP_VERIFY_ATTEMPTS :: nat where
  "MAX_OTP_VERIFY_ATTEMPTS = 5"

definition RATE_LIMIT_WINDOW_MS :: int where
  "RATE_LIMIT_WINDOW_MS = 60 * 60 * 1000"

record rate_limit =
  allowed :: bool
  remaining :: int

text \<open>\<open>checkOTPRateLimit\<close>, run as the \<open>k\<close>-th statement of the request.\<close>

definition checkOTPRateLimit :: "world \<Rightarrow> nat \<Rightarrow> D1 \<Rightarrow> string \<Rightarrow> thrown + rate_limit" where
  "checkOTPRateLimit w k db addr =
     (let windowStart = toISOString (now w - RATE_LIMIT_WINDOW_MS) in
      if d1_rejects w k then Inl D1Error
      else
        let count = count_recent db addr windowStart in
        Inr \<lparr>allowed = count < MAX_OTP_REQUESTS_PER_HOUR,
             remaining = max 0 (int MAX_OTP_REQUESTS_PER_HOUR - int count)\<rparr>)"

text \<open>\<open>checkVerifyRateLimit\<close>; only \<open>allowed\<close> is returned.\<close>

definition checkVerifyRateLimit :: "world \<Rightarrow> nat \<Rightarrow> D1 \<Rightarrow> string \<Rightarrow> thrown + bool" where
  "checkVerifyRateLimit w k db addr =
     (let windowStart = toISOString (now w - 15 * 60 * 1000) in
      if d1_rejects w k then Inl D1Error
      else
        let count = count_failed db (now w) addr windowStart in
        Inr (count < MAX_OTP_VERIFY_ATTEMPTS))"

definition getSecureCookieString :: "bool \<Rightarrow> string \<Rightarrow> nat \<Rightarrow> string" where
  "getSecureCookieString isSecure sessionToken maxAge =
     (let secureFlag = (if isSecure then ''; Secure'' else []) in
      ''admin_session='' @ sessionToken @ ''; Path=/; HttpOnly; SameSite=Strict'' @ secureFlag @
      ''; Max-Age='' @ toString maxAge)"

section \<open>handlers/admin: \<open>handleSendOTP\<close>\<close>

text \<open>
  The request body is \<open>None\<close> when reading it throws: \<open>request.json()\<close> fails, the body is
  \<open>null\<close>, or \<open>data.email || ''\<close> is not a string (\<open>validator.trim\<close> takes strings only).
  Else it is the \<open>email\<close> field, the empty string when the field is absent or falsy.
  Whatever is thrown inside the \<open>try\<close> ends in the \<open>catch\<close>: a line on the console and the
  500 response; what the statements before it wrote stays.
\<close>

definition sendFailed :: "D1 \<Rightarrow> outcome" where
  "sendFailed db =
     \<lparr>reply = jsonResponse (Error ''Failed to send OTP. Please try again.'') 500 None,
      store = db, console = [''Error sending OTP:'']\<rparr>"

definition handleSendOTP :: "library \<Rightarrow> world \<Rightarrow> string option \<Rightarrow> D1 \<Rightarrow> outcome" where
  "handleSendOTP lib w data db =
     (case data of
        None \<Rightarrow> sendFailed db
      | Some data_email \<Rightarrow>
          let addr = toLowerCase lib (trim lib data_email) in
          if addr = [] \<or> \<not> isEmail lib addr then
            \<lparr>reply = jsonResponse (Error ''Please provide a valid email address'') 400 None,
             store = db, console = []\<rparr>
          else if \<not> endsWith addr ''@cloudflare.com'' then
            \<lparr>reply = jsonResponse
               (Error ''Only @cloudflare.com email addresses are allowed'') 403 None,
             store = db, console = []\<rparr>
          else
            (case checkOTPRateLimit w 0 db addr of
               Inl _ \<Rightarrow> sendFailed db
             | Inr rateLimit \<Rightarrow>
                 if \<not> allowed rateLimit then
                   \<lparr>reply = jsonResponse
                      (ErrorRetryAfter ''Too many OTP requests. Please try again later.'' 3600)
                      429 None,
                    store = db, console = []\<rparr>
                 else
                   let code = generateOTP (random_u32 w);
                       otpExpiresAt = toISOString (now w + 10 * 60 * 1000)
                   in
                   if d1_rejects w 1 then sendFailed db
                   else
                     let db' = insert_otp db (now w) addr code otpExpiresAt;
                         emailSent = email_sent w
                     in
                     \<lparr>reply = jsonResponse (Success ''OTP sent successfully'') 200 None,
                      store = db',
                      console = (if \<not> emailSent
                                 then [''Failed to send OTP email to '' @ addr] else [])\<rparr>))"

section \<open>handlers/admin: \<open>handleVerifyOTP\<close>\<close>

text \<open>
  The body carries the \<open>email\<close> and \<open>otp\<close> fields, read as for \<open>handleSendOTP\<close> (\<open>None\<close>
  when reading either throws); \<open>isSecure\<close> says whether the request came over https, which
  only decides the cookie's \<open>Secure\<close> flag.
\<close>

definition verifyFailed :: "D1 \<Rightarrow> outcome" where
  "verifyFailed db =
     \<lparr>reply = jsonResponse (Error ''Failed to verify OTP. Please try again.'') 500 None,
      store = db, console = [''Error verifying OTP:'']\<rparr>"

definition handleVerifyOTP ::
  "library \<Rightarrow> world \<Rightarrow> bool \<Rightarrow> (string \<times> string) option \<Rightarrow> D1 \<Rightarrow> outcome" where
  "handleVerifyOTP lib w isSecure data db =
     (case data of
        None \<Rightarrow> verifyFailed db
      | Some (data_email, data_otp) \<Rightarrow>
          let addr = toLowerCase lib (trim lib data_email);
              code = trim lib data_otp
          in
          if addr = [] \<or> code = [] then
            \<lparr>reply = jsonResponse (Error ''Email and OTP are required'') 400 None,
             store = db, console = []\<rparr>
          else if \<not> validateOTP code then
            \<lparr>reply = jsonResponse (Error ''Invalid OTP format'') 400 None,
             store = db, console = []\<rparr>
          else
            (case checkVerifyRateLimit w 0 db addr of
               Inl _ \<Rightarrow> verifyFailed db
             | Inr rateLimitAllowed \<Rightarrow>
                 if \<not> rateLimitAllowed then
                   \<lparr>reply = jsonResponse
                      (ErrorRetryAfter ''Too many failed attempts. Please request a new OTP.'' 900)
                      429 None,
                    store = db, console = []\<rparr>
                 else if d1_rejects w 1 then verifyFailed db
                 else
                   (case select_otp db addr code (toISOString (now w)) of
                      None \<Rightarrow>
                        \<lparr>reply = jsonResponse (Error ''Invalid or expired OTP'') 401 None,
                         store = db, console = []\<rparr>
                    | Some session \<Rightarrow>
                        let sessionToken = generateSessionToken (random_bytes w);
                            sessionExpiresAt = toISOString (now w + 24 * 60 * 60 * 1000)
                        in
                        if d1_rejects w 2 then verifyFailed db
                        else
                          let db1 = update_session db sessionToken sessionExpiresAt
                                      (row_id session)
                          in
                          if d1_rejects w 3 then verifyFailed db1
                          else
                            let db2 = delete_unused db1 addr (row_id session) in
                            \<lparr>reply = jsonResponse (Success ''Login successful'') 200
                               (Some (getSecureCookieString isSecure sessionToken 86400)),
                             store = db2, console = []\<rparr>)))"

section \<open>utils/session and the session handlers\<close>

text \<open>
  \<open>getSessionToken\<close>: the first match of \<open>/admin_session=([^;]+)/\<close> in the Cookie header,
  \<open>null\<close> when the header is absent or nothing matches.
\<close>

fun cookieMatch :: "string \<Rightarrow> string option" where
  "cookieMatch [] = None"
| "cookieMatch (c # cs) =
     (let v = takeWhile (\<lambda>x. x \<noteq> CHR '';'') (drop 14 (c # cs)) in
      if take 14 (c # cs) = ''admin_session='' \<and> v \<noteq> [] then Some v else cookieMatch cs)"

definition getSessionToken :: "string option \<Rightarrow> string option" where
  "getSessionToken cookie =
     (case cookie of
        None \<Rightarrow> None
      | Some header \<Rightarrow> if header = [] then None else cookieMatch header)"

text \<open>
  \<open>validateAdminSession\<close>: \<open>if (!sessionToken) return false\<close> answers for \<open>null\<close> and for
  the empty string before any statement is prepared. It has no \<open>try\<close>: a rejected
  statement is thrown on to the caller.
\<close>

definition validateAdminSession :: "world \<Rightarrow> nat \<Rightarrow> D1 \<Rightarrow> string option \<Rightarrow> thrown + bool" where
  "validateAdminSession w k db sessionToken =
     (case sessionToken of
        None \<Rightarrow> Inr False
      | Some token \<Rightarrow>
          if token = [] then Inr False
          else if d1_rejects w k then Inl D1Error
          else Inr (select_session db token (toISOString (now w)) \<noteq> None))"

text \<open>
  \<open>handleCheckAuth\<close> and \<open>handleLogout\<close> have no \<open>try\<close> either: \<open>Inl\<close> is the error
  leaving the handler. Neither writes to the console.
\<close>

definition handleCheckAuth :: "world \<Rightarrow> string option \<Rightarrow> D1 \<Rightarrow> thrown + response" where
  "handleCheckAuth w cookie db =
     (case validateAdminSession w 0 db (getSessionToken cookie) of
        Inl e \<Rightarrow> Inl e
      | Inr isValid \<Rightarrow>
          if \<not> isValid then Inr (jsonResponse (Error ''Unauthorized'') 401 None)
          else Inr (jsonResponse Authenticated 200 None))"

definition handleLogout :: "world \<Rightarrow> bool \<Rightarrow> string option \<Rightarrow> D1 \<Rightarrow> thrown + response \<times> D1" where
  "handleLogout w isSecure cookie db =
     (let sessionToken = getSessionToken cookie;
          loggedOut = jsonResponse SuccessOnly 200 (Some (getSecureCookieString isSecure [] 0))
      in
      case sessionToken of
        None \<Rightarrow> Inr (loggedOut, db)
      | Some token \<Rightarrow>
          if token = [] then Inr (loggedOut, db)
          else if d1_rejects w 0 then Inl D1Error
          else Inr (loggedOut, delete_token db token))"

section \<open>db: \<open>cleanupExpiredData\<close>\<close>

text \<open>
  The router starts \<open>cleanupExpiredData\<close> beside every request. Its first statement
  deletes from \<open>swag_requests\<close>, its second from \<open>admin_sessions\<close>; when either rejects,
  nothing is deleted from \<open>admin_sessions\<close>.
\<close>

definition cleanupExpiredData :: "world \<Rightarrow> D1 \<Rightarrow> D1" where
  "cleanupExpiredData w db =
     (let nowText = toISOString (now w) in
      if d1_rejects w 0 \<or> d1_rejects w 1 then db else delete_expired db nowText)"

section \<open>Requests in sequence\<close>

text \<open>
  The requests that read or write \<open>admin_sessions\<close>, each with the body or Cookie header
  it carries. \<open>Cleanup\<close> is the \<open>cleanupExpiredData\<close> run that the router starts beside
  every request; here it runs between two requests.
\<close>

datatype request =
    SendOTP "string option"
  | VerifyOTP bool "(string \<times> string) option"
  | CheckAuth "string option"
  | Logout bool "string option"
  | Cleanup

text \<open>The database a request leaves, in the world it meets.\<close>

fun serve :: "library \<Rightarrow> D1 \<Rightarrow> world \<times> request \<Rightarrow> D1" where
  "serve lib db (w, SendOTP data) = store (handleSendOTP lib w data db)"
| "serve lib db (w, VerifyOTP isSecure data) = store (handleVerifyOTP lib w isSecure data db)"
| "serve lib db (w, CheckAuth cookie) = db"
| "serve lib db (w, Logout isSecure cookie) =
     (case handleLogout w isSecure cookie db of Inl _ \<Rightarrow> db | Inr (_, db') \<Rightarrow> db')"
| "serve lib db (w, Cleanup) = cleanupExpiredData w db"

definition run :: "library \<Rightarrow> D1 \<Rightarrow> (world \<times> request) list \<Rightarrow> D1" where
  "run lib db reqs = foldl (serve lib) db reqs"

text \<open>The freshly created table.\<close>

definition empty_db :: D1 where
  "empty_db = \<lparr>admin_sessions = [], last_id = 0\<rparr>"

text \<open>The primary key: no two rows share an id.\<close>

definition primary_key :: "D1 \<Rightarrow> bool" where
  "primary_key db = distinct (map row_id (admin_sessions db))"

text \<open>AUTOINCREMENT: no row carries an id above the largest one handed out.\<close>

definition sequence_ok :: "D1 \<Rightarrow> bool" where
  "sequence_ok db = list_all (\<lambda>r. row_id r \<le> last_id db) (admin_sessions db)"

text \<open>
  Verification calls one after the other, each in its own world: the responses, and the
  database the last one leaves.
\<close>

fun attempts ::
  "library \<Rightarrow> D1 \<Rightarrow> (world \<times> bool \<times> (string \<times> string) option) list \<Rightarrow> response list \<times> D1" where
  "attempts lib db [] = ([], db)"
| "attempts lib db ((w, isSecure, data) # rest) =
     (reply (handleVerifyOTP lib w isSecure data db) #
        fst (attempts lib (store (handleVerifyOTP lib w isSecure data db)) rest),
      snd (attempts lib (store (handleVerifyOTP lib w isSecure data db)) rest))"

text \<open>
  A wrong code for an address: no row of the address that is still without a session token
  holds it.
\<close>

definition wrong_code :: "D1 \<Rightarrow> string \<Rightarrow> string \<Rightarrow> bool" where
  "wrong_code db addr code =
     list_all (\<lambda>r. \<not> (email r = addr \<and> session_token r = None \<and> otp r = code))
       (admin_sessions db)"

text \<open>
  A verification body that passes every check before the lookup and carries a wrong code:
  both fields are there, the code has six digits, and it is wrong for the normalised
  address.
\<close>

fun wrong_attempt :: "library \<Rightarrow> D1 \<Rightarrow> (string \<times> string) option \<Rightarrow> bool" where
  "wrong_attempt lib db None = False"
| "wrong_attempt lib db (Some (data_email, data_otp)) =
     (toLowerCase lib (trim lib data_email) \<noteq> [] \<and> validateOTP (trim lib data_otp) \<and>
      wrong_code db (toLowerCase lib (trim lib data_email)) (trim lib data_otp))"


section \<open>Counting days\<close>

text \<open>
  The number of days from 0000-01-01 to the first day of year \<open>y\<close>, and the range of
  clock values the handlers are studied on: from 1970 to ten minutes before the year
  10000, so that every instant the handlers print, from 60 minutes before the clock to
  10 minutes after it, has a four-digit year.
\<close>

definition days_before_year :: "int \<Rightarrow> int" where
  "days_before_year y = 365 * y + (y + 3) div 4 - (y + 99) div 100 + (y + 399) div 400"

definition clock_ok :: "int \<Rightarrow> bool" where
  "clock_ok t = (0 \<le> t \<and> t < 253402300200000)"

text \<open>The \<open>w\<close> low decimal digits of \<open>n\<close>, highest first: what zero-padding to width \<open>w\<close> prints.\<close>

fun digits :: "nat \<Rightarrow> nat \<Rightarrow> string" where
  "digits 0 n = []"
| "digits (Suc w) n = digits w (n div 10) @ [digit (n mod 10)]"

text \<open>
  A row as \<open>handleSendOTP\<close> and the schema stamp it at one instant \<open>t\<close> of the studied
  range: \<open>created_at\<close> is SQLite's text of \<open>t\<close>, \<open>otp_expires_at\<close> the ISO text of
  \<open>t\<close> + 10 minutes.
\<close>

definition stamped :: "AdminSession \<Rightarrow> bool" where
  "stamped r =
     (\<exists>t. clock_ok t \<and> created_at r = sqlite_datetime t \<and>
          otp_expires_at r = toISOString (t + 10 * 60 * 1000))"


section \<open>Example worlds\<close>

text \<open>
  A world at clock \<open>t\<close> in which no statement rejects and the mail is sent; the random
  source draws \<open>u\<close> for the code and zero bytes for the token.
\<close>

definition calm :: "int \<Rightarrow> 32 word \<Rightarrow> world" where
  "calm t u =
     \<lparr>now = t, random_u32 = u, random_bytes = (\<lambda>i. 0), d1_rejects = (\<lambda>k. False),
      email_sent = True\<rparr>"

text \<open>A stand-in for \<open>validator.isEmail\<close> in the examples: one \<open>@\<close>, with text on both sides.\<close>

definition simpleEmail :: "string \<Rightarrow> bool" where
  "simpleEmail s =
     (length (filter (\<lambda>c. c = CHR ''@'') s) = 1 \<and> takeWhile (\<lambda>c. c \<noteq> CHR ''@'') s \<noteq> [] \<and>
      last s \<noteq> CHR ''@'')"

text \<open>
  The library of the examples. Every string of the examples is ASCII text. There
  \<open>validator.trim\<close> removes tabs, line feeds, vertical tabs, form feeds, carriage returns
  and spaces at both ends, and \<open>toLowerCase\<close> turns \<open>A\<close> to \<open>Z\<close> into \<open>a\<close> to \<open>z\<close> and keeps
  every other character.
\<close>

definition ascii_space :: "char \<Rightarrow> bool" where
  "ascii_space c = (c \<in> set [CHR 0x09, CHR 0x0A, CHR 0x0B, CHR 0x0C, CHR 0x0D, CHR 0x20])"

definition ascii_trim :: "string \<Rightarrow> string" where
  "ascii_trim s = rev (dropWhile ascii_space (rev (dropWhile ascii_space s)))"

definition ascii_lower :: "char \<Rightarrow> char" where
  "ascii_lower c =
     (case map_of (zip ''ABCDEFGHIJKLMNOPQRSTUVWXYZ'' ''abcdefghijklmnopqrstuvwxyz'') c of
        None \<Rightarrow> c
      | Some l \<Rightarrow> l)"

definition plain :: library where
  "plain = \<lparr>trim = ascii_trim, toLowerCase = map ascii_lower, isEmail = simpleEmail\<rparr>"

text \<open>Noon of 2026-11-03 (UTC), in milliseconds since the epoch.\<close>

definition noon :: int where
  "noon = 1793707200000"

text \<open>
  The table after \<open>admin@cloudflare.com\<close> asked for a code at noon and the random source
  drew 0, and the table after that code was verified one minute later.
\<close>

definition issued_db :: D1 where
  "issued_db =
     \<lparr>admin_sessions =
        [\<lparr>row_id = 1, email = ''admin@cloudflare.com'', otp = ''100000'', session_token = None,
          otp_expires_at = ''2026-11-03T12:10:00.000Z'', session_expires_at = None,
          created_at = ''2026-11-03 12:00:00''\<rparr>],
      last_id = 1\<rparr>"

definition zero_token :: string where
  "zero_token = replicate 64 (CHR ''0'')"

definition session_db :: D1 where
  "session_db =
     \<lparr>admin_sessions =
        [\<lparr>row_id = 1, email = ''admin@cloudflare.com'', otp = [],
          session_token = Some zero_token,
          otp_expires_at = ''2026-11-03T12:10:00.000Z'',
          session_expires_at = Some ''2026-11-04T12:01:00.000Z'',
          created_at = ''2026-11-03 12:00:00''\<rparr>],
      last_id = 1\<rparr>"

text \<open>The Cookie header that carries that session's token.\<close>

definition zero_cookie :: "string option" where
  "zero_cookie = Some (''admin_session='' @ zero_token)"

text \<open>
  A table with two unconsumed codes for \<open>admin@cloudflare.com\<close>, one for another address,
  and a session of an earlier login.
\<close>

definition busy_db :: D1 where
  "busy_db =
     \<lparr>admin_sessions =
        [\<lparr>row_id = 1, email = ''admin@cloudflare.com'', otp = [],
          session_token = Some ''feed'',
          otp_expires_at = ''2026-11-03T09:10:00.000Z'',
          session_expires_at = Some ''2026-11-04T09:01:00.000Z'',
          created_at = ''2026-11-03 09:00:00''\<rparr>,
         \<lparr>row_id = 2, email = ''admin@cloudflare.com'', otp = ''100000'', session_token = None,
          otp_expires_at = ''2026-11-03T12:10:00.000Z'', session_expires_at = None,
          created_at = ''2026-11-03 12:00:00''\<rparr>,
         \<lparr>row_id = 3, email = ''ops@cloudflare.com'', otp = ''100001'', session_token = None,
          otp_expires_at = ''2026-11-03T12:10:20.000Z'', session_expires_at = None,
          created_at = ''2026-11-03 12:00:20''\<rparr>,
         \<lparr>row_id = 4, email = ''admin@cloudflare.com'', otp = ''100001'', session_token = None,
          otp_expires_at = ''2026-11-03T12:10:30.000Z'', session_expires_at = None,
          created_at = ''2026-11-03 12:00:30''\<rparr>],
      last_id = 4\<rparr>"

text \<open>
  Five requests for a code by \<open>admin@cloudflare.com\<close>, one second apart from the instant
  \<open>t\<close> on; the random source draws 0 to 4.
\<close>

definition five_sends :: "int \<Rightarrow> (world \<times> request) list" where
  "five_sends t =
     map (\<lambda>k. (calm (t + 1000 * int k) (word_of_nat k), SendOTP (Some ''admin@cloudflare.com'')))
       [0..<5]"


text \<open>
  The table after two codes were sent to \<open>admin@cloudflare.com\<close> within one second, at noon
  and 400 ms later, the random source drawing 0 both times.
\<close>

definition twin_db :: D1 where
  "twin_db =
     \<lparr>admin_sessions =
        [\<lparr>row_id = 1, email = ''admin@cloudflare.com'', otp = ''100000'', session_token = None,
          otp_expires_at = ''2026-11-03T12:10:00.000Z'', session_expires_at = None,
          created_at = ''2026-11-03 12:00:00''\<rparr>,
         \<lparr>row_id = 2, email = ''admin@cloudflare.com'', otp = ''100000'', session_token = None,
          otp_expires_at = ''2026-11-03T12:10:00.400Z'', session_expires_at = None,
          created_at = ''2026-11-03 12:00:00''\<rparr>],
      last_id = 2\<rparr>"

section \<open>Decimal printing\<close>

lemma digit_inj: "a < 10 \<Longrightarrow> b < 10 \<Longrightarrow> digit a = digit b \<Longrightarrow> a = b"
proof -
  assume a: "a < 10" and b: "b < 10" and e: "digit a = digit b"
  have d: "distinct ''0123456789''" by simp
  have "''0123456789'' ! a = ''0123456789'' ! b" using e by (simp add: digit_def)
  with d a b show ?thesis by (simp add: nth_eq_iff_index_eq)
qed

lemma digit_in: "a < 10 \<Longrightarrow> digit a \<in> set ''0123456789''"
  unfolding digit_def by (rule nth_mem) simp

lemma toString_nonempty: "toString n \<noteq> []"
  by (subst toString.simps) simp

lemma toString_digits: "list_all (\<lambda>c. c \<in> set ''0123456789'') (toString n)"
proof (induction n rule: toString.induct)
  case (1 n)
  show ?case
  proof (cases "n < 10")
    case True
    then show ?thesis using digit_in [of n] by (subst toString.simps) simp
  next
    case False
    have "n mod 10 < 10" by simp
    then have "digit (n mod 10) \<in> set ''0123456789''" by (rule digit_in)
    with False 1 show ?thesis by (subst toString.simps) simp
  qed
qed

lemma length_toString_le: "n < 10 ^ Suc k \<Longrightarrow> length (toString n) \<le> Suc k"
proof (induction k arbitrary: n)
  case 0
  then show ?case by (subst toString.simps) simp
next
  case (Suc k)
  show ?case
  proof (cases "n < 10")
    case True
    then show ?thesis by (subst toString.simps) simp
  next
    case False
    have "n div 10 < 10 ^ Suc k" using Suc.prems by (simp add: less_mult_imp_div_less mult.commute)
    then have "length (toString (n div 10)) \<le> Suc k" by (rule Suc.IH)
    with False show ?thesis by (subst toString.simps) simp
  qed
qed

lemma length_toString_gt: "10 ^ k \<le> n \<Longrightarrow> k < length (toString n)"
proof (induction k arbitrary: n)
  case 0
  then show ?case using toString_nonempty [of n] by (cases "toString n") auto
next
  case (Suc k)
  then have ge: "10 \<le> n"
    by (metis One_nat_def le_trans one_le_numeral one_le_power power_Suc2 mult.commute mult_le_mono1 nat_mult_1)
  have "10 ^ k \<le> n div 10" using Suc.prems by (simp add: less_eq_div_iff_mult_less_eq mult.commute)
  then have "k < length (toString (n div 10))" by (rule Suc.IH)
  with ge show ?case by (subst toString.simps) simp
qed

lemma toString_inj: "toString a = toString b \<Longrightarrow> a = b"
proof (induction a arbitrary: b rule: toString.induct)
  case (1 a)
  show ?case
  proof (cases "a < 10")
    case True
    then have la: "length (toString a) = 1" by (subst toString.simps) simp
    have "b < 10"
    proof (rule ccontr)
      assume "\<not> b < 10"
      then have "10 ^ 1 \<le> b" by simp
      then have "1 < length (toString b)" by (rule length_toString_gt)
      with la "1.prems" show False by simp
    qed
    moreover from this True "1.prems" have "digit a = digit b"
      by (simp add: toString.simps [of a] toString.simps [of b])
    ultimately show ?thesis using True by (simp add: digit_inj)
  next
    case False
    then have "10 ^ 1 \<le> a" by simp
    then have "1 < length (toString a)" by (rule length_toString_gt)
    then have nb: "\<not> b < 10" using "1.prems" by (auto simp: toString.simps [of b])
    from False nb "1.prems"
    have e: "toString (a div 10) @ [digit (a mod 10)] = toString (b div 10) @ [digit (b mod 10)]"
      by (simp add: toString.simps [of a] toString.simps [of b])
    then have "toString (a div 10) = toString (b div 10)" and d: "digit (a mod 10) = digit (b mod 10)"
      by simp_all
    then have "a div 10 = b div 10" using "1.IH" False by blast
    moreover have "a mod 10 = b mod 10" using d by (simp add: digit_inj)
    ultimately show ?thesis by (metis div_mult_mod_eq)
  qed
qed

lemma length_toString6: "100000 \<le> n \<Longrightarrow> n < 1000000 \<Longrightarrow> length (toString n) = 6"
proof -
  assume a: "100000 \<le> n" and b: "n < 1000000"
  have "n < 10 ^ Suc 5" using b by simp
  then have "length (toString n) \<le> 6" using length_toString_le by fastforce
  moreover have "10 ^ 5 \<le> n" using a by simp
  then have "5 < length (toString n)" by (rule length_toString_gt)
  ultimately show ?thesis by simp
qed

lemma generateOTP_eq: "generateOTP r = toString (100000 + unat r mod 900000)"
proof -
  have "length (toString (100000 + unat r mod 900000)) = 6"
    by (rule length_toString6) simp_all
  then show ?thesis by (simp add: generateOTP_def padStart_def)
qed

section \<open>How many random values give each code\<close>

lemma residue_set:
  "{x::nat. x < 4294967296 \<and> x mod 900000 = k} =
     (\<lambda>q. q * 900000 + k) ` {q. q * 900000 + k < 4294967296 \<and> k < 900000}"
proof (rule set_eqI, rule iffI)
  fix x assume "x \<in> {x::nat. x < 4294967296 \<and> x mod 900000 = k}"
  then have x: "x < 4294967296" and m: "x mod 900000 = k" by simp_all
  have "x = (x div 900000) * 900000 + k" using m by (metis div_mult_mod_eq)
  moreover have "k < 900000" using m by auto
  ultimately show "x \<in> (\<lambda>q. q * 900000 + k) ` {q. q * 900000 + k < 4294967296 \<and> k < 900000}"
    using x by (intro image_eqI [where x = "x div 900000"]) auto
next
  fix x assume "x \<in> (\<lambda>q. q * 900000 + k) ` {q. q * 900000 + k < 4294967296 \<and> k < 900000}"
  then show "x \<in> {x::nat. x < 4294967296 \<and> x mod 900000 = k}" by auto
qed

lemma quotient_set:
  "k < 900000 \<Longrightarrow>
   {q::nat. q * 900000 + k < 4294967296 \<and> k < 900000} = {..<(if k < 167296 then 4773 else 4772)}"
  by (auto split: if_splits)

lemma card_residue:
  assumes "k < 900000"
  shows "card {x::nat. x < 4294967296 \<and> x mod 900000 = k} = (if k < 167296 then 4773 else 4772)"
proof -
  have inj: "inj_on (\<lambda>q::nat. q * 900000 + k) A" for A by (rule inj_onI) simp
  have "card {x::nat. x < 4294967296 \<and> x mod 900000 = k} =
        card {q::nat. q * 900000 + k < 4294967296 \<and> k < 900000}"
    unfolding residue_set by (rule card_image [OF inj])
  also have "\<dots> = card {..<(if k < 167296 then 4773 else 4772 :: nat)}"
    using quotient_set [OF assms] by simp
  finally show ?thesis by simp
qed

lemma word_residue_set:
  "{r :: 32 word. unat r mod 900000 = k} = word_of_nat ` {x::nat. x < 4294967296 \<and> x mod 900000 = k}"
proof (rule set_eqI, rule iffI)
  fix r :: "32 word" assume "r \<in> {r. unat r mod 900000 = k}"
  then have "unat r mod 900000 = k" by simp
  moreover have "unat r < 4294967296" using unsigned_less [of r, where 'a = nat] by simp
  moreover have "r = word_of_nat (unat r)" by simp
  ultimately show "r \<in> word_of_nat ` {x::nat. x < 4294967296 \<and> x mod 900000 = k}" by blast
next
  fix r :: "32 word" assume "r \<in> word_of_nat ` {x::nat. x < 4294967296 \<and> x mod 900000 = k}"
  then obtain x :: nat where r: "r = word_of_nat x" and x: "x < 4294967296" and m: "x mod 900000 = k"
    by auto
  have "unat r = x" using x r by (simp add: unat_of_nat)
  then show "r \<in> {r. unat r mod 900000 = k}" using m by simp
qed

lemma card_word_residue:
  assumes "k < 900000"
  shows "card {r :: 32 word. unat r mod 900000 = k} = (if k < 167296 then 4773 else 4772)"
proof -
  have inj: "inj_on (word_of_nat :: nat \<Rightarrow> 32 word) {x::nat. x < 4294967296 \<and> x mod 900000 = k}"
  proof (rule inj_onI)
    fix x y :: nat
    assume "x \<in> {x. x < 4294967296 \<and> x mod 900000 = k}" "y \<in> {x. x < 4294967296 \<and> x mod 900000 = k}"
      and e: "(word_of_nat x :: 32 word) = word_of_nat y"
    then have "x < 4294967296" "y < 4294967296" by simp_all
    then have ux: "unat (word_of_nat x :: 32 word) = x" and uy: "unat (word_of_nat y :: 32 word) = y"
      by (simp_all add: unat_of_nat)
    have "unat (word_of_nat x :: 32 word) = unat (word_of_nat y :: 32 word)"
      using e by (rule arg_cong)
    then show "x = y" by (simp only: ux uy)
  qed
  have "card {r :: 32 word. unat r mod 900000 = k} =
        card ((word_of_nat :: nat \<Rightarrow> 32 word) ` {x::nat. x < 4294967296 \<and> x mod 900000 = k})"
    by (simp only: word_residue_set)
  also have "\<dots> = card {x::nat. x < 4294967296 \<and> x mod 900000 = k}"
    by (rule card_image [OF inj])
  also have "\<dots> = (if k < 167296 then 4773 else 4772)"
    using assms by (rule card_residue)
  finally show ?thesis .
qed

lemma generateOTP_preimage:
  assumes "100000 \<le> n" "n \<le> 999999"
  shows "{r. generateOTP r = toString n} = {r. unat r mod 900000 = n - 100000}"
proof -
  have "generateOTP r = toString n \<longleftrightarrow> unat r mod 900000 = n - 100000" for r
  proof
    assume "generateOTP r = toString n"
    then have "100000 + unat r mod 900000 = n" unfolding generateOTP_eq by (rule toString_inj)
    then show "unat r mod 900000 = n - 100000" by simp
  next
    assume "unat r mod 900000 = n - 100000"
    then have "100000 + unat r mod 900000 = n" using assms by simp
    then show "generateOTP r = toString n" by (simp add: generateOTP_eq)
  qed
  then show ?thesis by simp
qed

lemma card_generateOTP:
  assumes "100000 \<le> n" "n \<le> 999999"
  shows "card {r. generateOTP r = toString n} = (if n < 267296 then 4773 else 4772)"
proof -
  have "n - 100000 < 900000" using assms by simp
  then have "card {r :: 32 word. unat r mod 900000 = n - 100000} =
             (if n - 100000 < 167296 then 4773 else 4772)" by (rule card_word_residue)
  moreover have "n - 100000 < 167296 \<longleftrightarrow> n < 267296" using assms by auto
  ultimately show ?thesis using assms by (simp add: generateOTP_preimage)
qed

lemma generateOTP_valid: "validateOTP (generateOTP r)"
proof -
  have "length (toString (100000 + unat r mod 900000)) = 6" by (rule length_toString6) simp_all
  then show ?thesis
    using toString_digits [of "100000 + unat r mod 900000"]
    by (simp add: validateOTP_def isNumeric_def generateOTP_eq toString_nonempty)
qed

lemma hd_toString: "0 < n \<Longrightarrow> hd (toString n) \<noteq> CHR ''0''"
proof (induction n rule: toString.induct)
  case (1 n)
  show ?case
  proof (cases "n < 10")
    case True
    have "digit 0 = CHR ''0''" by (simp add: digit_def)
    then have "digit n \<noteq> CHR ''0''" using True "1.prems" digit_inj [of n 0] by auto
    with True show ?thesis by (subst toString.simps) simp
  next
    case False
    then have "0 < n div 10" by simp
    with False "1.IH" have "hd (toString (n div 10)) \<noteq> CHR ''0''" by simp
    with False show ?thesis using toString_nonempty [of "n div 10"]
      by (subst toString.simps) simp
  qed
qed

lemma generateOTP_no_leading_zero: "hd (generateOTP r) \<noteq> CHR ''0''"
  unfolding generateOTP_eq by (rule hd_toString) simp

lemma generateOTP_never_zeros: "generateOTP r \<noteq> ''000000''"
  using generateOTP_no_leading_zero [of r] by auto

text \<open>
  C2, as the code has it. Whatever the random source draws, \<open>generateOTP\<close> returns six
  decimal digits: the decimal form of a number from 100000 to 999999, so the first digit
  is never 0 and \<open>padStart\<close> never pads. Every code \<open>n\<close> from 100000 to 999999 is the
  output for some drawn value. The distribution is close to uniform but not uniform: of
  the 2^32 values of a \<open>Uint32\<close>, 4773 give each code below 267296 and 4772 give each
  code from 267296 on, because 2^32 = 4772 * 900000 + 167296.
\<close>

theorem generateOTP_codes:
  "validateOTP (generateOTP r) \<and>
   (\<exists>m. 100000 \<le> m \<and> m \<le> 999999 \<and> generateOTP r = toString m) \<and>
   (100000 \<le> n \<and> n \<le> 999999 \<longrightarrow>
      (\<exists>x. generateOTP x = toString n) \<and>
      card {x. generateOTP x = toString n} = (if n < 267296 then 4773 else 4772))"
proof (intro conjI impI)
  show "validateOTP (generateOTP r)" by (rule generateOTP_valid)
  show "\<exists>m. 100000 \<le> m \<and> m \<le> 999999 \<and> generateOTP r = toString m"
  proof (intro exI conjI)
    show "generateOTP r = toString (100000 + unat r mod 900000)" by (rule generateOTP_eq)
    show "100000 \<le> 100000 + unat r mod 900000" by simp
    have "unat r mod 900000 < 900000" by simp
    then show "100000 + unat r mod 900000 \<le> 999999" by linarith
  qed
next
  assume n: "100000 \<le> n \<and> n \<le> 999999"
  then show c: "card {x. generateOTP x = toString n} = (if n < 267296 then 4773 else 4772)"
    by (simp add: card_generateOTP)
  have "card {x. generateOTP x = toString n} \<noteq> 0" unfolding c by simp
  then have "{x. generateOTP x = toString n} \<noteq> {}" by (metis card.empty)
  then show "\<exists>x. generateOTP x = toString n" by blast
qed

theorem generateOTP_codes_witness:
  "validateOTP (generateOTP 4294967295) \<and>
   (\<exists>m. 100000 \<le> m \<and> m \<le> 999999 \<and> generateOTP 4294967295 = toString m) \<and>
   (\<exists>x. generateOTP x = ''267296'') \<and>
   card {x. generateOTP x = ''267296''} = 4772"
proof -
  have t: "toString 267296 = ''267296''" by (simp add: toString.simps digit_def)
  show ?thesis using generateOTP_codes [of 4294967295 267296] unfolding t by simp
qed

text \<open>
  C2 as stated fails twice: the code 000000 is no output at all, and the codes are not
  equally likely, 100000 having one more random value than 999999.
\<close>

theorem generateOTP_not_uniform_counterexample:
  "\<not> (\<exists>r. generateOTP r = ''000000'') \<and>
   card {r. generateOTP r = ''100000''} = 4773 \<and>
   card {r. generateOTP r = ''999999''} = 4772"
proof -
  have a: "toString 100000 = ''100000''" by (simp add: toString.simps digit_def)
  have b: "toString 999999 = ''999999''" by (simp add: toString.simps digit_def)
  have "card {r. generateOTP r = toString 100000} = 4773"
    by (simp add: card_generateOTP)
  moreover have "card {r. generateOTP r = toString 999999} = 4772"
    by (simp add: card_generateOTP)
  ultimately show ?thesis using generateOTP_never_zeros by (simp add: a b)
qed

section \<open>Rows and keys under the statements\<close>

lemma fold_max_ge: "(a::nat) \<le> fold max xs a"
  by (induction xs arbitrary: a) (auto intro: order_trans [OF max.cobounded2])

lemma fold_max_mem: "(x::nat) \<in> set xs \<Longrightarrow> x \<le> fold max xs a"
proof (induction xs arbitrary: a)
  case Nil
  then show ?case by simp
next
  case (Cons y ys)
  show ?case
  proof (cases "x = y")
    case True
    have "max y a \<le> fold max ys (max y a)" by (rule fold_max_ge)
    with True show ?thesis by simp
  next
    case False
    with Cons show ?thesis by simp
  qed
qed

lemma next_id_fresh: "r \<in> set (admin_sessions db) \<Longrightarrow> row_id r < next_id db"
  unfolding next_id_def using fold_max_mem [of "row_id r" "map row_id (admin_sessions db)" "last_id db"]
  by (simp add: less_Suc_eq_le)

lemma rows_insert_otp:
  "admin_sessions (insert_otp db clock addr code expires) =
     admin_sessions db @
       [\<lparr>row_id = next_id db, email = addr, otp = code, session_token = None,
         otp_expires_at = expires, session_expires_at = None,
         created_at = sqlite_datetime clock\<rparr>]"
  by (simp add: insert_otp_def)

lemma primary_key_insert_otp:
  "primary_key db \<Longrightarrow> primary_key (insert_otp db clock addr code expires)"
  unfolding primary_key_def rows_insert_otp using next_id_fresh [of _ db] by fastforce

lemma row_id_consume [simp]: "row_id (consume token expires r) = row_id r"
  by (simp add: consume_def)

lemma primary_key_update_session:
  "primary_key db \<Longrightarrow> primary_key (update_session db token expires i)"
proof -
  have "row_id \<circ> (\<lambda>r. if row_id r = i then consume token expires r else r) = row_id"
    by (rule ext) simp
  then show "primary_key db \<Longrightarrow> primary_key (update_session db token expires i)"
    by (simp add: primary_key_def update_session_def)
qed

lemma primary_key_filter:
  "primary_key db \<Longrightarrow> primary_key (db\<lparr>admin_sessions := filter P (admin_sessions db)\<rparr>)"
  by (simp add: primary_key_def distinct_map_filter)

lemma primary_key_delete_unused: "primary_key db \<Longrightarrow> primary_key (delete_unused db addr i)"
  unfolding delete_unused_def by (rule primary_key_filter)

lemma primary_key_delete_token: "primary_key db \<Longrightarrow> primary_key (delete_token db token)"
  unfolding delete_token_def by (rule primary_key_filter)

lemma primary_key_delete_expired: "primary_key db \<Longrightarrow> primary_key (delete_expired db nowText)"
  unfolding delete_expired_def by (rule primary_key_filter)

text \<open>What each handler's database is, whatever it answers.\<close>

lemma store_handleSendOTP_cases:
  "store (handleSendOTP lib w data db) = db \<or>
   (\<exists>addr. store (handleSendOTP lib w data db) =
      insert_otp db (now w) addr (generateOTP (random_u32 w))
        (toISOString (now w + 10 * 60 * 1000)))"
  by (auto simp: handleSendOTP_def sendFailed_def Let_def split: option.splits sum.splits)

lemma newest_None: "newest xs = None \<longleftrightarrow> xs = []"
  by (induction xs) (auto split: option.splits)

lemma newest_mem: "newest xs = Some s \<Longrightarrow> s \<in> set xs"
  by (induction xs arbitrary: s) (auto split: option.splits if_splits)

lemma newest_max_all: "newest xs = Some s \<Longrightarrow> \<forall>r \<in> set xs. created_at r \<le> created_at s"
proof (induction xs arbitrary: s)
  case Nil
  then show ?case by simp
next
  case (Cons x xs)
  show ?case
  proof (cases "newest xs")
    case None
    then have "xs = []" by (simp add: newest_None)
    with Cons.prems None show ?thesis by simp
  next
    case (Some t)
    then have le: "\<forall>q \<in> set xs. created_at q \<le> created_at t" by (rule Cons.IH)
    show ?thesis
    proof (cases "created_at x < created_at t")
      case True
      with Some Cons.prems have "s = t" by simp
      with True le show ?thesis by auto
    next
      case False
      with Some Cons.prems have "s = x" by simp
      with False le show ?thesis by (auto intro: order_trans)
    qed
  qed
qed

lemma newest_max: "newest xs = Some s \<Longrightarrow> r \<in> set xs \<Longrightarrow> created_at r \<le> created_at s"
  using newest_max_all by blast

lemma select_otp_Some:
  "select_otp db addr code nowText = Some s \<Longrightarrow>
   s \<in> set (admin_sessions db) \<and> otp_matches addr code nowText s"
  unfolding select_otp_def by (drule newest_mem) simp

lemma store_handleVerifyOTP_cases:
  "store (handleVerifyOTP lib w isSecure data db) = db \<or>
   (\<exists>s token expires addr.
      s \<in> set (admin_sessions db) \<and> session_token s = None \<and>
      (store (handleVerifyOTP lib w isSecure data db) = update_session db token expires (row_id s) \<or>
       store (handleVerifyOTP lib w isSecure data db) =
         delete_unused (update_session db token expires (row_id s)) addr (row_id s)))"
proof (cases data)
  case None
  then show ?thesis by (simp add: handleVerifyOTP_def verifyFailed_def)
next
  case (Some p)
  obtain de dc where p: "p = (de, dc)" by (cases p)
  show ?thesis
  proof (cases "select_otp db (toLowerCase lib (trim lib de)) (trim lib dc) (toISOString (now w))")
    case None
    then show ?thesis using Some p
      by (simp add: handleVerifyOTP_def verifyFailed_def Let_def split: sum.splits)
  next
    case (Some s)
    then have "s \<in> set (admin_sessions db)" "session_token s = None"
      using select_otp_Some [OF Some] by (simp_all add: otp_matches_def)
    then show ?thesis using Some \<open>data = Some p\<close> p
      by (auto simp: handleVerifyOTP_def verifyFailed_def Let_def split: sum.splits)
  qed
qed

lemma primary_key_same_row:
  "primary_key db \<Longrightarrow> r \<in> set (admin_sessions db) \<Longrightarrow> q \<in> set (admin_sessions db) \<Longrightarrow>
   row_id q = row_id r \<Longrightarrow> q = r"
  unfolding primary_key_def by (meson distinct_map inj_onD)

lemma row_insert_otp:
  assumes "primary_key db" "r \<in> set (admin_sessions db)"
    and "r' \<in> set (admin_sessions (insert_otp db clock addr code expires))"
    and "row_id r' = row_id r"
  shows "r' = r"
proof (cases "r' \<in> set (admin_sessions db)")
  case True
  with assms show ?thesis by (simp add: primary_key_same_row)
next
  case False
  with assms(3) have "row_id r' = next_id db" by (auto simp: rows_insert_otp)
  with assms(2,4) next_id_fresh [of r db] show ?thesis by simp
qed

lemma row_update_session:
  assumes "primary_key db" "r \<in> set (admin_sessions db)"
    and "r' \<in> set (admin_sessions (update_session db token expires i))"
    and "row_id r' = row_id r"
  shows "r' = (if row_id r = i then consume token expires r else r)"
proof -
  from assms(3) obtain q where q: "q \<in> set (admin_sessions db)"
    and r': "r' = (if row_id q = i then consume token expires q else q)"
    by (auto simp: update_session_def)
  then have "row_id r' = row_id q" by simp
  with assms q have "q = r" by (simp add: primary_key_same_row)
  with r' show ?thesis by simp
qed

lemma rows_delete_unused:
  "r \<in> set (admin_sessions (delete_unused db addr i)) \<Longrightarrow> r \<in> set (admin_sessions db)"
  by (simp add: delete_unused_def)

lemma rows_delete_token:
  "r \<in> set (admin_sessions (delete_token db token)) \<Longrightarrow> r \<in> set (admin_sessions db)"
  by (simp add: delete_token_def)

lemma rows_delete_expired:
  "r \<in> set (admin_sessions (delete_expired db nowText)) \<Longrightarrow> r \<in> set (admin_sessions db)"
  by (simp add: delete_expired_def)

lemma store_handleLogout_cases:
  "handleLogout w isSecure cookie db = Inr (resp, db') \<Longrightarrow>
   db' = db \<or> (\<exists>token. db' = delete_token db token)"
  by (auto simp: handleLogout_def Let_def split: option.splits if_splits)

lemma store_cleanup_cases:
  "cleanupExpiredData w db = db \<or> cleanupExpiredData w db = delete_expired db (toISOString (now w))"
  by (simp add: cleanupExpiredData_def)

text \<open>
  A request changes an existing row in one way only: \<open>handleVerifyOTP\<close> consumes a row that
  had no session token. Every other row a request leaves in the table is as it was.
\<close>

lemma serve_row:
  assumes pk: "primary_key db" and r: "r \<in> set (admin_sessions db)"
    and r': "r' \<in> set (admin_sessions (serve lib db (w, req)))"
    and same: "row_id r' = row_id r"
  shows "r' = r \<or> (session_token r = None \<and> (\<exists>token expires. r' = consume token expires r))"
proof (cases req)
  case (SendOTP data)
  with r' store_handleSendOTP_cases [of lib w data db] pk r same show ?thesis
    by (auto simp: primary_key_same_row dest: row_insert_otp)
next
  case (VerifyOTP isSecure data)
  let ?db' = "store (handleVerifyOTP lib w isSecure data db)"
  from r' VerifyOTP have m: "r' \<in> set (admin_sessions ?db')" by simp
  consider "?db' = db"
    | s token expires addr where "s \<in> set (admin_sessions db)" "session_token s = None"
        "?db' = update_session db token expires (row_id s) \<or>
         ?db' = delete_unused (update_session db token expires (row_id s)) addr (row_id s)"
    using store_handleVerifyOTP_cases [of lib w isSecure data db] by blast
  then show ?thesis
  proof cases
    case 1
    with m pk r same show ?thesis by (simp add: primary_key_same_row)
  next
    case 2
    from 2(3) m have mu: "r' \<in> set (admin_sessions (update_session db token expires (row_id s)))"
      by (auto dest: rows_delete_unused)
    have e: "r' = (if row_id r = row_id s then consume token expires r else r)"
      by (rule row_update_session [OF pk r mu same])
    show ?thesis
    proof (cases "row_id r = row_id s")
      case True
      with pk r 2(1) have "r = s" by (simp add: primary_key_same_row)
      with True e 2(2) show ?thesis by auto
    next
      case False
      with e show ?thesis by simp
    qed
  qed
next
  case (CheckAuth cookie)
  with r' pk r same show ?thesis by (simp add: primary_key_same_row)
next
  case (Logout isSecure cookie)
  show ?thesis
  proof (cases "handleLogout w isSecure cookie db")
    case (Inl e)
    with Logout r' pk r same show ?thesis by (simp add: primary_key_same_row)
  next
    case (Inr p)
    obtain resp db' where p: "p = (resp, db')" by (cases p)
    with Inr Logout r' have "r' \<in> set (admin_sessions db')" by simp
    moreover from Inr p have "db' = db \<or> (\<exists>token. db' = delete_token db token)"
      by (simp add: store_handleLogout_cases)
    ultimately have "r' \<in> set (admin_sessions db)" by (auto dest: rows_delete_token)
    with pk r same show ?thesis by (simp add: primary_key_same_row)
  qed
next
  case Cleanup
  with r' have "r' \<in> set (admin_sessions db)"
    using store_cleanup_cases [of w db] by (auto dest: rows_delete_expired)
  with pk r same show ?thesis by (simp add: primary_key_same_row)
qed

lemma primary_key_serve: "primary_key db \<Longrightarrow> primary_key (serve lib db (w, req))"
proof (cases req)
  case (SendOTP data)
  assume "primary_key db"
  with SendOTP store_handleSendOTP_cases [of lib w data db] show ?thesis
    by (auto simp: primary_key_insert_otp)
next
  case (VerifyOTP isSecure data)
  assume "primary_key db"
  with VerifyOTP store_handleVerifyOTP_cases [of lib w isSecure data db] show ?thesis
    by (auto simp: primary_key_update_session primary_key_delete_unused)
next
  case (CheckAuth cookie)
  assume "primary_key db"
  with CheckAuth show ?thesis by simp
next
  case (Logout isSecure cookie)
  assume pk: "primary_key db"
  show ?thesis
  proof (cases "handleLogout w isSecure cookie db")
    case (Inl e)
    with Logout pk show ?thesis by simp
  next
    case (Inr p)
    obtain resp db' where p: "p = (resp, db')" by (cases p)
    from Inr p have "db' = db \<or> (\<exists>token. db' = delete_token db token)"
      by (simp add: store_handleLogout_cases)
    with pk have "primary_key db'" by (auto simp: primary_key_delete_token)
    with Inr p Logout show ?thesis by simp
  qed
next
  case Cleanup
  assume "primary_key db"
  with Cleanup store_cleanup_cases [of w db] show ?thesis
    by (auto simp: primary_key_delete_expired)
qed

lemma primary_key_run: "primary_key db \<Longrightarrow> primary_key (run lib db reqs)"
  unfolding run_def
proof (induction reqs arbitrary: db)
  case Nil
  then show ?case by simp
next
  case (Cons a reqs)
  obtain w req where "a = (w, req)" by (cases a)
  with Cons show ?case by (simp add: primary_key_serve)
qed

section \<open>Worked values\<close>

lemma plain_fields:
  "trim plain = ascii_trim" "toLowerCase plain = map ascii_lower" "isEmail plain = simpleEmail"
  by (simp_all add: plain_def)

lemma replicate_numeral: "replicate (numeral k) x = x # replicate (pred_numeral k) x"
  by (simp add: numeral_eq_Suc)

lemma year_day_20760: "year_day 20760 = (2026, 306)"
  by (simp add: year_day_def year_walk.simps year_length_def leap_def)

lemma month_day_20760: "month_day 20760 = (11, 2)"
  by (simp add: month_day_def year_day_20760 month_lengths_def leap_def)

lemma year_day_20761: "year_day 20761 = (2026, 307)"
  by (simp add: year_day_def year_walk.simps year_length_def leap_def)

lemma month_day_20761: "month_day 20761 = (11, 3)"
  by (simp add: month_day_def year_day_20761 month_lengths_def leap_def)

lemmas pad_defs = pad_def padStart_def toString.simps digit_def replicate_numeral

lemmas time_defs = toISOString_def sqlite_datetime_def date_text_def clock_text_def
  year_day_20760 month_day_20760 year_day_20761 month_day_20761 pad_defs

lemma iso_noon: "toISOString 1793707200000 = ''2026-11-03T12:00:00.000Z''"
  by (simp add: time_defs)

lemma sql_noon: "sqlite_datetime 1793707200000 = ''2026-11-03 12:00:00''"
  by (simp add: time_defs)

lemma iso_noon_plus10: "toISOString 1793707800000 = ''2026-11-03T12:10:00.000Z''"
  by (simp add: time_defs)

lemma norm_admin: "toLowerCase plain (trim plain '' Admin@Cloudflare.com '') = ''admin@cloudflare.com''"
  by (simp add: plain_fields ascii_trim_def ascii_space_def ascii_lower_def)

lemma otp_0: "generateOTP 0 = ''100000''"
  by (simp add: generateOTP_def padStart_def toString.simps digit_def)

lemma send1:
  "handleSendOTP plain (calm 1793707200000 0) (Some '' Admin@Cloudflare.com '') empty_db =
   \<lparr>reply = jsonResponse (Success ''OTP sent successfully'') 200 None,
    store = \<lparr>admin_sessions =
      [\<lparr>row_id = 1, email = ''admin@cloudflare.com'', otp = ''100000'', session_token = None,
        otp_expires_at = ''2026-11-03T12:10:00.000Z'', session_expires_at = None,
        created_at = ''2026-11-03 12:00:00''\<rparr>], last_id = 1\<rparr>,
    console = []\<rparr>"
  by (simp add: handleSendOTP_def norm_admin calm_def plain_fields(3) simpleEmail_def endsWith_def
      checkOTPRateLimit_def count_recent_def empty_db_def MAX_OTP_REQUESTS_PER_HOUR_def
      otp_0 insert_otp_def next_id_def iso_noon_plus10 sql_noon Let_def)

lemma iso_1201: "toISOString 1793707260000 = ''2026-11-03T12:01:00.000Z''"
  by (simp add: time_defs)

lemma sql_1201: "sqlite_datetime 1793707260000 = ''2026-11-03 12:01:00''"
  by (simp add: time_defs)

lemma iso_1146: "toISOString 1793706360000 = ''2026-11-03T11:46:00.000Z''"
  by (simp add: time_defs)

lemma iso_next_1201: "toISOString 1793793660000 = ''2026-11-04T12:01:00.000Z''"
  by (simp add: time_defs)

lemma token_zero: "generateSessionToken (\<lambda>i. 0) = zero_token"
  by (simp add: generateSessionToken_def hexByte_def hexDigit_def zero_token_def replicate_numeral upt_conv_Cons)

lemma validate_100000: "validateOTP ''100000''"
  by (simp add: validateOTP_def isNumeric_def)

lemma run_issued:
  "run plain empty_db [(calm noon 0, SendOTP (Some '' Admin@Cloudflare.com ''))] = issued_db"
  by (simp add: run_def send1 noon_def issued_db_def)

lemma verify_issued:
  "handleVerifyOTP plain (calm (noon + 60000) 0) True (Some (''admin@cloudflare.com'', ''100000'')) issued_db =
   \<lparr>reply = jsonResponse (Success ''Login successful'') 200
      (Some (getSecureCookieString True zero_token 86400)),
    store = session_db, console = []\<rparr>"
  by (simp add: handleVerifyOTP_def noon_def calm_def issued_db_def session_db_def
      plain_fields ascii_trim_def ascii_space_def ascii_lower_def validate_100000
      checkVerifyRateLimit_def count_failed_def MAX_OTP_VERIFY_ATTEMPTS_def iso_1146 sql_1201
      iso_1201 select_otp_def otp_matches_def token_zero iso_next_1201 update_session_def
      consume_def delete_unused_def Let_def)

section \<open>The calendar and the order of timestamp texts\<close>


lemma div_step_gen:
  assumes "0 < (k::int)"
  shows "(y + (k - 1)) div k = y div k + (if y mod k = 0 then 0 else 1)"
proof -
  define q where "q = y div k"
  define r where "r = y mod k"
  have y: "y = k * q + r" by (simp add: q_def r_def)
  have r: "0 \<le> r" "r < k" using assms by (simp_all add: r_def)
  have e: "(k * q + (r + (k - 1))) div k = q + (r + (k - 1)) div k"
    using assms by simp
  have "(r + (k - 1)) div k = (if r = 0 then 0 else 1)"
  proof (cases "r = 0")
    case True
    with assms show ?thesis by (simp add: div_pos_pos_trivial)
  next
    case False
    with r have "0 \<le> r - 1" "r - 1 < k" by simp_all
    then have z: "(r - 1) div k = 0" by (simp add: div_pos_pos_trivial)
    have "(k * 1 + (r - 1)) div k = 1 + (r - 1) div k"
      using assms by (subst div_mult_self4) simp_all
    then have "(k + (r - 1)) div k = 1" using z by simp
    moreover have "r + (k - 1) = k + (r - 1)" by simp
    ultimately have "(r + (k - 1)) div k = 1" by (simp only:)
    then show ?thesis using False by simp
  qed
  with e have "(k * q + r + (k - 1)) div k = q + (if r = 0 then 0 else 1)"
    by (simp add: add.assoc)
  then show ?thesis unfolding y [symmetric] by (simp add: q_def r_def)
qed

lemma mod_400_100: "(y::int) mod 400 = 0 \<Longrightarrow> y mod 100 = 0"
proof -
  assume a: "y mod 400 = 0"
  have "y mod 400 mod 100 = y mod 100" by (rule mod_mod_cancel) simp
  with a show ?thesis by simp
qed

lemma mod_100_4: "(y::int) mod 100 = 0 \<Longrightarrow> y mod 4 = 0"
proof -
  assume a: "y mod 100 = 0"
  have "y mod 100 mod 4 = y mod 4" by (rule mod_mod_cancel) simp
  with a show ?thesis by simp
qed

lemma leap_year_step: "days_before_year (y + 1) = days_before_year y + year_length y"
proof -
  have a: "(y + 4) div 4 = y div 4 + 1" "(y + 100) div 100 = y div 100 + 1"
    "(y + 400) div 400 = y div 400 + 1" by simp_all
  have b: "(y + 3) div 4 = y div 4 + (if y mod 4 = 0 then 0 else 1)"
    using div_step_gen [of 4 y] by simp
  have c: "(y + 99) div 100 = y div 100 + (if y mod 100 = 0 then 0 else 1)"
    using div_step_gen [of 100 y] by simp
  have d: "(y + 399) div 400 = y div 400 + (if y mod 400 = 0 then 0 else 1)"
    using div_step_gen [of 400 y] by simp
  have e: "y + 1 + 3 = y + 4" "y + 1 + 99 = y + 100" "y + 1 + 399 = y + 400" by simp_all
  show ?thesis
    unfolding days_before_year_def year_length_def leap_def e a b c d
    using mod_400_100 [of y] mod_100_4 [of y] by (auto simp: algebra_simps)
qed


lemma year_length_pos: "0 < year_length y"
  by (simp add: year_length_def)

lemma year_walk_spec:
  "0 \<le> d \<Longrightarrow> year_walk y d = (y', r) \<Longrightarrow>
   y \<le> y' \<and> 0 \<le> r \<and> r < year_length y' \<and>
   days_before_year y' + r = days_before_year y + d"
proof (induction y d rule: year_walk.induct)
  case (1 y d)
  show ?case
  proof (cases "year_length y \<le> d")
    case True
    with "1.prems" have w: "year_walk (y + 1) (d - year_length y) = (y', r)"
      by (simp add: year_walk.simps [of y d])
    from True have "0 \<le> d - year_length y" by simp
    from "1.IH" [OF True this w] show ?thesis
      by (simp add: leap_year_step)
  next
    case False
    with "1.prems" show ?thesis by (simp add: year_walk.simps [of y d])
  qed
qed

lemma days_before_year_mono_aux:
  "days_before_year y + year_length y \<le> days_before_year (y + 1 + int n)"
proof (induction n)
  case 0
  then show ?case by (simp add: leap_year_step)
next
  case (Suc n)
  have "days_before_year (y + 1 + int (Suc n)) =
        days_before_year (y + 1 + int n) + year_length (y + 1 + int n)"
    using leap_year_step [of "y + 1 + int n"] by (simp add: algebra_simps)
  with Suc year_length_pos [of "y + 1 + int n"] show ?case by linarith
qed

lemma days_before_year_less:
  assumes "y1 < y2"
  shows "days_before_year y1 + year_length y1 \<le> days_before_year y2"
proof -
  have "y2 = y1 + 1 + int (nat (y2 - y1 - 1))" using assms by simp
  then show ?thesis using days_before_year_mono_aux [of y1 "nat (y2 - y1 - 1)"] by simp
qed

lemma days_before_era: "days_before_year (400 * q) = 146097 * q"
proof -
  have "(400 * q + 3) div 4 = 100 * q"
  proof -
    have "(4 * (100 * q) + 3) div 4 = 100 * q + 3 div 4" by (rule div_mult_self4) simp
    then show ?thesis by simp
  qed
  moreover have "(400 * q + 99) div 100 = 4 * q"
  proof -
    have "(100 * (4 * q) + 99) div 100 = 4 * q + 99 div 100" by (rule div_mult_self4) simp
    then show ?thesis by simp
  qed
  moreover have "(400 * q + 399) div 400 = q"
  proof -
    have "(400 * q + 399) div 400 = q + 399 div 400" by (rule div_mult_self4) simp
    then show ?thesis by simp
  qed
  ultimately show ?thesis by (simp add: days_before_year_def)
qed

text \<open>A day number splits into its year and the day of that year.\<close>

lemma year_day_spec:
  assumes "year_day days = (y, r)"
  shows "0 \<le> r \<and> r < year_length y \<and> days_before_year y + r = days + 719528"
proof -
  have "0 \<le> (days + 719528) mod 146097" by simp
  from year_walk_spec [OF this assms [unfolded year_day_def]]
  have "0 \<le> r \<and> r < year_length y \<and>
        days_before_year y + r = 146097 * ((days + 719528) div 146097) + (days + 719528) mod 146097"
    by (simp add: days_before_era)
  then show ?thesis by simp
qed

lemma year_day_mono:
  assumes "year_day a = (y1, r1)" and "year_day b = (y2, r2)" and "a < b"
  shows "y1 < y2 \<or> (y1 = y2 \<and> r1 < r2)"
proof -
  note A = year_day_spec [OF assms(1)] and B = year_day_spec [OF assms(2)]
  show ?thesis
  proof (cases "y2 < y1")
    case True
    from days_before_year_less [OF True] A B assms(3) show ?thesis by linarith
  next
    case False
    then show ?thesis using A B assms(3) by (cases "y1 = y2") auto
  qed
qed

lemma year_day_range:
  assumes "year_day days = (y, r)" and "0 \<le> days + 719528" and "days + 719528 < 3652425"
  shows "0 \<le> y \<and> y \<le> 9999"
proof -
  note A = year_day_spec [OF assms(1)]
  have z: "days_before_year 0 = 0" "days_before_year 10000 = 3652425"
    by (simp_all add: days_before_year_def)
  have "\<not> y < 0"
  proof
    assume "y < 0"
    from days_before_year_less [OF this] A assms(2) z show False by linarith
  qed
  moreover have "\<not> 10000 < y"
  proof
    assume "10000 < y"
    from days_before_year_less [OF this] A assms(3) z year_length_pos [of 10000]
    show False by linarith
  qed
  moreover have "y \<noteq> 10000" using A assms(3) z by auto
  ultimately show ?thesis by linarith
qed


lemma month_walk_lower: "month_walk ls m d = (m', d') \<Longrightarrow> m \<le> m'"
proof (induction ls arbitrary: m d)
  case Nil
  then show ?case by simp
next
  case (Cons l ls)
  show ?case
  proof (cases "l \<le> d")
    case True
    with Cons.prems have "month_walk ls (m + 1) (d - l) = (m', d')" by simp
    from Cons.IH [OF this] show ?thesis by simp
  next
    case False
    with Cons.prems show ?thesis by simp
  qed
qed

lemma month_walk_bounds:
  "0 \<le> d \<Longrightarrow> d < sum_list ls \<Longrightarrow> \<forall>l \<in> set ls. l \<le> 31 \<Longrightarrow>
   month_walk ls m d = (m', d') \<Longrightarrow> m' < m + int (length ls) \<and> 0 \<le> d' \<and> d' < 31"
proof (induction ls arbitrary: m d)
  case Nil
  then show ?case by simp
next
  case (Cons l ls)
  show ?case
  proof (cases "l \<le> d")
    case True
    with Cons.prems have w: "month_walk ls (m + 1) (d - l) = (m', d')" by simp
    have "0 \<le> d - l" "d - l < sum_list ls" "\<forall>l \<in> set ls. l \<le> 31"
      using True Cons.prems by simp_all
    from Cons.IH [OF this w] show ?thesis by simp
  next
    case False
    with Cons.prems show ?thesis by auto
  qed
qed

lemma month_walk_mono:
  "d1 < d2 \<Longrightarrow> month_walk ls m d1 = (m1, e1) \<Longrightarrow> month_walk ls m d2 = (m2, e2) \<Longrightarrow>
   m1 < m2 \<or> (m1 = m2 \<and> e1 < e2)"
proof (induction ls arbitrary: m d1 d2)
  case Nil
  then show ?case by simp
next
  case (Cons l ls)
  show ?case
  proof (cases "l \<le> d1")
    case True
    with Cons.prems have "month_walk ls (m + 1) (d1 - l) = (m1, e1)"
      "month_walk ls (m + 1) (d2 - l) = (m2, e2)" "d1 - l < d2 - l" by simp_all
    then show ?thesis using Cons.IH by blast
  next
    case False
    with Cons.prems have a: "m1 = m" "e1 = d1" by simp_all
    show ?thesis
    proof (cases "l \<le> d2")
      case True
      with Cons.prems have "month_walk ls (m + 1) (d2 - l) = (m2, e2)" by simp
      from month_walk_lower [OF this] a show ?thesis by simp
    next
      case False
      with Cons.prems a show ?thesis by simp
    qed
  qed
qed

lemma sum_month_lengths: "sum_list (month_lengths y) = year_length y"
  by (simp add: month_lengths_def year_length_def)

lemma month_lengths_le: "\<forall>l \<in> set (month_lengths y). l \<le> 31"
  by (simp add: month_lengths_def)

text \<open>Month and day of the month of a day number.\<close>

lemma month_day_range:
  assumes "month_day days = (m, d)"
  shows "1 \<le> m \<and> m \<le> 12 \<and> 0 \<le> d \<and> d < 31"
proof -
  obtain y r where yr: "year_day days = (y, r)" by (cases "year_day days")
  note Y = year_day_spec [OF yr]
  from assms yr have w: "month_walk (month_lengths y) 1 r = (m, d)" by (simp add: month_day_def)
  have "r < sum_list (month_lengths y)" using Y by (simp add: sum_month_lengths)
  with Y month_walk_bounds [OF _ _ month_lengths_le w] month_walk_lower [OF w]
  show ?thesis by (simp add: month_lengths_def)
qed

text \<open>Later days have later dates: by year, then month, then day of the month.\<close>

lemma date_mono:
  assumes "a < b" and "year_day a = (y1, r1)" and "year_day b = (y2, r2)"
    and "month_day a = (m1, d1)" and "month_day b = (m2, d2)"
  shows "y1 < y2 \<or> (y1 = y2 \<and> (m1 < m2 \<or> (m1 = m2 \<and> d1 < d2)))"
proof -
  from year_day_mono [OF assms(2,3,1)] consider "y1 < y2" | "y1 = y2" "r1 < r2" by blast
  then show ?thesis
  proof cases
    case 1
    then show ?thesis by simp
  next
    case 2
    from assms(2,4) have w1: "month_walk (month_lengths y1) 1 r1 = (m1, d1)"
      by (simp add: month_day_def)
    from assms(3,5) 2(1) have w2: "month_walk (month_lengths y1) 1 r2 = (m2, d2)"
      by (simp add: month_day_def)
    from month_walk_mono [OF 2(2) w1 w2] 2(1) show ?thesis by simp
  qed
qed


lemma length_digits [simp]: "length (digits w n) = w"
  by (induction w arbitrary: n) simp_all

lemma digits_zero: "digits w 0 = replicate w (CHR ''0'')"
  by (induction w) (simp_all add: digit_def replicate_append_same)

lemma toString_small: "n < 10 \<Longrightarrow> toString n = [digit n]"
  by (simp add: toString.simps)

lemma toString_large: "\<not> n < 10 \<Longrightarrow> toString n = toString (n div 10) @ [digit (n mod 10)]"
  by (simp add: toString.simps)

lemma length_toString_bound: "n < 10 ^ w \<Longrightarrow> 0 < w \<Longrightarrow> length (toString n) \<le> w"
proof (induction w arbitrary: n)
  case 0
  then show ?case by simp
next
  case (Suc w)
  show ?case
  proof (cases "n < 10")
    case True
    then show ?thesis by (simp add: toString_small)
  next
    case False
    then have "0 < w" using Suc.prems by (cases w) auto
    moreover have "n div 10 < 10 ^ w" using Suc.prems by (simp add: less_mult_imp_div_less mult.commute)
    ultimately have "length (toString (n div 10)) \<le> w" using Suc.IH by simp
    with False show ?thesis by (simp add: toString_large)
  qed
qed

text \<open>Zero-padding a number below \<open>10 ^ w\<close> to width \<open>w\<close> prints its \<open>w\<close> low digits.\<close>

lemma padStart_toString:
  "n < 10 ^ w \<Longrightarrow> 0 < w \<Longrightarrow> padStart w (CHR ''0'') (toString n) = digits w n"
proof (induction w arbitrary: n)
  case 0
  then show ?case by simp
next
  case (Suc w)
  show ?case
  proof (cases "n < 10")
    case True
    then show ?thesis by (simp add: toString_small padStart_def digits_zero)
  next
    case False
    then have w: "0 < w" using Suc.prems by (cases w) auto
    have d: "n div 10 < 10 ^ w" using Suc.prems by (simp add: less_mult_imp_div_less mult.commute)
    from Suc.IH [OF d w] have "padStart w (CHR ''0'') (toString (n div 10)) = digits w (n div 10)" .
    moreover have "length (toString (n div 10)) \<le> w" using d w by (rule length_toString_bound)
    ultimately show ?thesis using False by (simp add: toString_large padStart_def Suc_diff_le)
  qed
qed

lemma less_append_same_length:
  "length xs = length ys \<Longrightarrow>
   (xs @ us < ys @ vs) = (xs < ys \<or> (xs = ys \<and> us < vs))" for xs ys :: string
  by (induction xs ys rule: list_induct2) auto

lemma digit_mono: "a < b \<Longrightarrow> b < 10 \<Longrightarrow> digit a < digit b"
proof -
  assume a: "a < b" and b: "b < 10"
  have s: "sorted_wrt (<) ''0123456789''" by simp
  have l: "b < length ''0123456789''" using b by simp
  show ?thesis unfolding digit_def by (rule sorted_wrt_nth_less [OF s a l])
qed

lemma digits_mono: "a < b \<Longrightarrow> b < 10 ^ w \<Longrightarrow> digits w a < digits w b"
proof (induction w arbitrary: a b)
  case 0
  then show ?case by simp
next
  case (Suc w)
  have bd: "b div 10 < 10 ^ w" using Suc.prems by (simp add: less_mult_imp_div_less mult.commute)
  have "a div 10 \<le> b div 10" using Suc.prems(1) by (simp add: div_le_mono)
  then consider "a div 10 < b div 10" | "a div 10 = b div 10" by linarith
  then show ?case
  proof cases
    case 1
    then have "digits w (a div 10) < digits w (b div 10)" using bd by (rule Suc.IH)
    then show ?thesis by (simp add: less_append_same_length)
  next
    case 2
    have "a mod 10 < b mod 10"
    proof -
      have "a = 10 * (a div 10) + a mod 10" "b = 10 * (b div 10) + b mod 10" by simp_all
      with 2 Suc.prems(1) show ?thesis by linarith
    qed
    moreover have "b mod 10 < 10" by simp
    ultimately have "digit (a mod 10) < digit (b mod 10)" by (rule digit_mono)
    with 2 show ?thesis by (simp add: less_append_same_length)
  qed
qed

lemma pad_digits: "0 \<le> n \<Longrightarrow> n < 10 ^ w \<Longrightarrow> 0 < w \<Longrightarrow> pad w n = digits w (nat n)"
proof -
  assume n: "0 \<le> n" "n < 10 ^ w" and w: "0 < w"
  have "nat n < 10 ^ w" using n by (metis nat_less_iff of_nat_numeral of_nat_power)
  then show ?thesis using w by (simp add: pad_def padStart_toString)
qed

lemma pad_mono:
  "0 \<le> a \<Longrightarrow> a < b \<Longrightarrow> b < 10 ^ w \<Longrightarrow> 0 < w \<Longrightarrow> pad w a < pad w b"
proof -
  assume a: "0 \<le> a" "a < b" and b: "b < 10 ^ w" and w: "0 < w"
  have "nat a < nat b" using a by simp
  moreover have "nat b < 10 ^ w" using a b by (metis nat_less_iff of_nat_numeral of_nat_power order_trans less_imp_le)
  ultimately have "digits w (nat a) < digits w (nat b)" by (rule digits_mono)
  then show ?thesis using a b w by (simp add: pad_digits)
qed

lemma length_pad: "0 \<le> n \<Longrightarrow> n < 10 ^ w \<Longrightarrow> 0 < w \<Longrightarrow> length (pad w n) = w"
  by (simp add: pad_digits)


lemma day_range:
  fixes a :: int
  assumes "- 62167219200000 \<le> a" and "a < 253402300800000"
  shows "0 \<le> a div 86400000 + 719528 \<and> a div 86400000 + 719528 < 3652425"
proof -
  have "(- 62167219200000 :: int) div 86400000 \<le> a div 86400000"
    using assms(1) by (rule zdiv_mono1) simp
  moreover have "a div 86400000 < 2932897"
    using assms(2) by (simp add: div_less_iff_less_mult)
  ultimately show ?thesis by simp
qed

text \<open>The date of an instant in the years 0000 to 9999, as the ten characters both forms start with.\<close>

lemma date_text_digits:
  assumes "- 62167219200000 \<le> a" and "a < 253402300800000"
    and "year_day (a div 86400000) = (y, r)" and "month_day (a div 86400000) = (m, d)"
  shows "date_text a = digits 4 (nat y) @ ''-'' @ digits 2 (nat m) @ ''-'' @ digits 2 (nat (d + 1))"
proof -
  note R = day_range [OF assms(1,2)]
  from year_day_range [OF assms(3)] R have y: "0 \<le> y" "y < 10 ^ 4" by simp_all
  from month_day_range [OF assms(4)] have m: "0 \<le> m" "m < 10 ^ 2" "0 \<le> d + 1" "d + 1 < 10 ^ 2"
    by simp_all
  show ?thesis
    using assms(3,4) pad_digits [OF y] pad_digits [OF m(1,2)] pad_digits [OF m(3,4)]
    by (simp add: date_text_def)
qed

lemma length_date_text:
  assumes "- 62167219200000 \<le> a" and "a < 253402300800000"
  shows "length (date_text a) = 10"
proof -
  obtain y r where yr: "year_day (a div 86400000) = (y, r)" by (cases "year_day (a div 86400000)")
  obtain m d where md: "month_day (a div 86400000) = (m, d)" by (cases "month_day (a div 86400000)")
  show ?thesis unfolding date_text_digits [OF assms yr md] by simp
qed

lemma nat_digits_mono:
  "0 \<le> a \<Longrightarrow> a < b \<Longrightarrow> b < 10 ^ w \<Longrightarrow> digits w (nat a) < digits w (nat b)"
proof -
  assume a: "0 \<le> a" "a < b" and b: "b < 10 ^ w"
  have "nat a < nat b" using a by simp
  moreover have "nat b < 10 ^ w"
    using a b by (metis nat_less_iff of_nat_numeral of_nat_power order_trans less_imp_le)
  ultimately show ?thesis by (rule digits_mono)
qed

lemma date_text_mono:
  assumes "- 62167219200000 \<le> a" and "a < 253402300800000"
    and "- 62167219200000 \<le> b" and "b < 253402300800000"
    and "a div 86400000 < b div 86400000"
  shows "date_text a < date_text b"
proof -
  obtain y1 r1 where yr1: "year_day (a div 86400000) = (y1, r1)"
    by (cases "year_day (a div 86400000)")
  obtain m1 d1 where md1: "month_day (a div 86400000) = (m1, d1)"
    by (cases "month_day (a div 86400000)")
  obtain y2 r2 where yr2: "year_day (b div 86400000) = (y2, r2)"
    by (cases "year_day (b div 86400000)")
  obtain m2 d2 where md2: "month_day (b div 86400000) = (m2, d2)"
    by (cases "month_day (b div 86400000)")
  note Ra = day_range [OF assms(1,2)] and Rb = day_range [OF assms(3,4)]
  from year_day_range [OF yr1] Ra have y1: "0 \<le> y1" by simp
  from year_day_range [OF yr2] Rb have y2: "y2 < 10 ^ 4" by simp
  from month_day_range [OF md1] have m1: "0 \<le> m1" "0 \<le> d1 + 1" by simp_all
  from month_day_range [OF md2] have m2: "m2 < 10 ^ 2" "d2 + 1 < 10 ^ 2" by simp_all
  from date_mono [OF assms(5) yr1 yr2 md1 md2]
  consider "y1 < y2" | "y1 = y2" "m1 < m2" | "y1 = y2" "m1 = m2" "d1 < d2" by blast
  then have "digits 4 (nat y1) @ ''-'' @ digits 2 (nat m1) @ ''-'' @ digits 2 (nat (d1 + 1)) <
             digits 4 (nat y2) @ ''-'' @ digits 2 (nat m2) @ ''-'' @ digits 2 (nat (d2 + 1))"
  proof cases
    case 1
    from nat_digits_mono [OF y1 1 y2] show ?thesis by (simp add: less_append_same_length)
  next
    case 2
    from nat_digits_mono [OF m1(1) 2(2) m2(1)] 2(1) show ?thesis
      by (simp add: less_append_same_length)
  next
    case 3
    have "d1 + 1 < d2 + 1" using 3(3) by simp
    from nat_digits_mono [OF m1(2) this m2(2)] 3(1,2) show ?thesis
      by (simp add: less_append_same_length)
  qed
  then show ?thesis
    unfolding date_text_digits [OF assms(1,2) yr1 md1] date_text_digits [OF assms(3,4) yr2 md2] .
qed

text \<open>
  How SQLite orders an ISO text against a \<open>datetime\<close> text, for instants in the years 0000
  to 9999: by the UTC days alone, and on one day the ISO text is the greater.
\<close>

lemma iso_less_sqlite:
  assumes "- 62167219200000 \<le> a" and "a < 253402300800000"
    and "- 62167219200000 \<le> b" and "b < 253402300800000"
  shows "toISOString a < sqlite_datetime b \<longleftrightarrow> a div 86400000 < b div 86400000"
proof -
  have len: "length (date_text a) = length (date_text b)"
    using length_date_text [OF assms(1,2)] length_date_text [OF assms(3,4)] by simp
  have split: "toISOString a < sqlite_datetime b \<longleftrightarrow>
      date_text a < date_text b \<or>
      (date_text a = date_text b \<and>
       ''T'' @ clock_text a @ ''.'' @ pad 3 (a mod 1000) @ ''Z'' < '' '' @ clock_text b)"
    unfolding toISOString_def sqlite_datetime_def by (rule less_append_same_length [OF len])
  have tail: "\<not> ''T'' @ clock_text a @ ''.'' @ pad 3 (a mod 1000) @ ''Z'' < '' '' @ clock_text b"
    by simp
  consider "a div 86400000 < b div 86400000" | "a div 86400000 = b div 86400000"
    | "b div 86400000 < a div 86400000" by linarith
  then show ?thesis
  proof cases
    case 1
    with date_text_mono [OF assms 1] split show ?thesis by simp
  next
    case 2
    then have "date_text a = date_text b" by (simp add: date_text_def)
    with 2 split tail show ?thesis by simp
  next
    case 3
    from date_text_mono [OF assms(3,4,1,2) 3] have "\<not> date_text a < date_text b"
      "date_text a \<noteq> date_text b" by (auto dest: less_asym)
    with 3 split show ?thesis by simp
  qed
qed


lemma clock_ok_ranges:
  assumes "clock_ok t"
  shows "- 62167219200000 \<le> t" "t < 253402300800000"
    "- 62167219200000 \<le> t - 15 * 60 * 1000" "t - 15 * 60 * 1000 < 253402300800000"
    "- 62167219200000 \<le> t + 10 * 60 * 1000" "t + 10 * 60 * 1000 < 253402300800000"
  using assms by (simp_all add: clock_ok_def)

lemma day_of_window: "(t::int) div 86400000 \<le> (t - 15 * 60 * 1000) div 86400000 + 1"
proof -
  have "t \<le> t - 15 * 60 * 1000 + 86400000" by simp
  then have "t div 86400000 \<le> (t - 15 * 60 * 1000 + 86400000) div 86400000"
    by (rule zdiv_mono1) simp
  then show ?thesis by simp
qed

lemma day_of_expiry: "(t::int) div 86400000 \<le> (t + 10 * 60 * 1000) div 86400000"
  by (rule zdiv_mono1) simp_all

text \<open>
  A stamped row is never a failed attempt for \<open>checkVerifyRateLimit\<close>: it would have to be
  created on a later UTC day than now - 15 minutes and to expire on an earlier UTC day
  than now.
\<close>

lemma stamped_not_counted:
  assumes "clock_ok clock" and "stamped r"
  shows "\<not> (toISOString (clock - 15 * 60 * 1000) < created_at r \<and>
            otp_expires_at r < sqlite_datetime clock)"
proof
  assume c: "toISOString (clock - 15 * 60 * 1000) < created_at r \<and>
             otp_expires_at r < sqlite_datetime clock"
  from assms(2) obtain t where t: "clock_ok t" "created_at r = sqlite_datetime t"
    "otp_expires_at r = toISOString (t + 10 * 60 * 1000)" unfolding stamped_def by blast
  note C = clock_ok_ranges [OF assms(1)] and T = clock_ok_ranges [OF t(1)]
  from c have "(clock - 15 * 60 * 1000) div 86400000 < t div 86400000"
    unfolding t(2) using iso_less_sqlite [OF C(3,4) T(1,2)] by simp
  moreover from c have "(t + 10 * 60 * 1000) div 86400000 < clock div 86400000"
    unfolding t(3) using iso_less_sqlite [OF T(5,6) C(1,2)] by simp
  ultimately show False using day_of_window [of clock] day_of_expiry [of t] by linarith
qed

lemma count_failed_stamped:
  assumes "clock_ok clock"
    and "\<forall>r \<in> set (admin_sessions db). session_token r = None \<longrightarrow> stamped r"
  shows "count_failed db clock addr (toISOString (clock - 15 * 60 * 1000)) = 0"
  using assms stamped_not_counted [OF assms(1)]
  by (auto simp: count_failed_def filter_empty_conv)


section \<open>Session validation and logout\<close>

lemma select_session_iff:
  "select_session db token nowText \<noteq> None \<longleftrightarrow>
   (\<exists>r \<in> set (admin_sessions db). session_token r = Some token \<and>
      (\<exists>e. session_expires_at r = Some e \<and> nowText < e))"
  by (auto simp: select_session_def find_None_iff session_row_def split: option.splits)

lemma cookieMatch_nonempty: "cookieMatch header \<noteq> Some []"
  by (induction header) (auto simp: Let_def)

lemma getSessionToken_nonempty: "getSessionToken cookie \<noteq> Some []"
  by (auto simp: getSessionToken_def cookieMatch_nonempty split: option.splits)

text \<open>
  C5. \<open>validateAdminSession\<close> answers false for an absent and for an empty token whatever
  the database holds and even when its statement would reject, so before any query. For a
  non-empty token, when the statement runs, it answers true exactly when some row has
  that \<open>session_token\<close> and a \<open>session_expires_at\<close> after the text of the current instant
  (the comparison the statement makes). Checking a session leaves the database as it is,
  and no request of any kind changes a row that carries a session token: its expiry stays
  what \<open>handleVerifyOTP\<close> wrote.
\<close>

theorem validateAdminSession_answer:
  "validateAdminSession w k db None = Inr False \<and>
   validateAdminSession w k db (Some []) = Inr False \<and>
   (token \<noteq> [] \<and> \<not> d1_rejects w k \<longrightarrow>
      validateAdminSession w k db (Some token) =
        Inr (\<exists>r \<in> set (admin_sessions db). session_token r = Some token \<and>
               (\<exists>e. session_expires_at r = Some e \<and> toISOString (now w) < e))) \<and>
   serve lib db (w, CheckAuth cookie) = db \<and>
   (primary_key db \<and> r \<in> set (admin_sessions db) \<and> session_token r \<noteq> None \<and>
    r' \<in> set (admin_sessions (serve lib db (w', req))) \<and> row_id r' = row_id r \<longrightarrow>
      r' = r)"
proof (intro conjI impI)
  show "validateAdminSession w k db None = Inr False"
    by (simp add: validateAdminSession_def)
  show "validateAdminSession w k db (Some []) = Inr False"
    by (simp add: validateAdminSession_def)
  show "serve lib db (w, CheckAuth cookie) = db" by simp
next
  assume "token \<noteq> [] \<and> \<not> d1_rejects w k"
  then show "validateAdminSession w k db (Some token) =
        Inr (\<exists>r \<in> set (admin_sessions db). session_token r = Some token \<and>
               (\<exists>e. session_expires_at r = Some e \<and> toISOString (now w) < e))"
    using select_session_iff [of db token "toISOString (now w)"]
    by (simp add: validateAdminSession_def)
next
  assume a: "primary_key db \<and> r \<in> set (admin_sessions db) \<and> session_token r \<noteq> None \<and>
    r' \<in> set (admin_sessions (serve lib db (w', req))) \<and> row_id r' = row_id r"
  then have "r' = r \<or> (session_token r = None \<and> (\<exists>token expires. r' = consume token expires r))"
    using serve_row [of db r r' lib w' req] by blast
  with a show "r' = r" by auto
qed

lemma rows_delete_token_iff:
  "r \<in> set (admin_sessions (delete_token db token)) \<longleftrightarrow>
   r \<in> set (admin_sessions db) \<and> session_token r \<noteq> Some token"
  by (simp add: delete_token_def)

lemma delete_token_twice: "delete_token (delete_token db token) token = delete_token db token"
  by (simp add: delete_token_def)

lemma select_session_deleted: "select_session (delete_token db token) token nowText = None"
  by (simp add: select_session_def find_None_iff session_row_def delete_token_def)

lemma fields_delete_token:
  "admin_sessions (delete_token db token) =
     filter (\<lambda>r. session_token r \<noteq> Some token) (admin_sessions db)"
  "last_id (delete_token db token) = last_id db"
  by (simp_all add: delete_token_def)

text \<open>
  C9. When the DELETE does not reject, \<open>handleLogout\<close> answers \<open>{success: true}\<close> with
  status 200 whether or not a row carries the token of the Cookie header, and leaves the
  table without the rows of that token. Logging out again with the same header gives the
  same answer and the same table. From then on \<open>handleCheckAuth\<close> with that header never
  answers authenticated; it answers 401 whenever its statement runs.
\<close>

theorem handleLogout_idempotent:
  "\<not> d1_rejects w 0 \<and> \<not> d1_rejects w' 0 \<longrightarrow>
   (\<exists>db'. handleLogout w isSecure cookie db =
            Inr (jsonResponse SuccessOnly 200 (Some (getSecureCookieString isSecure [] 0)), db') \<and>
      admin_sessions db' =
        (case getSessionToken cookie of
           None \<Rightarrow> admin_sessions db
         | Some token \<Rightarrow> filter (\<lambda>r. session_token r \<noteq> Some token) (admin_sessions db)) \<and>
      last_id db' = last_id db \<and>
      handleLogout w' isSecure cookie db' =
            Inr (jsonResponse SuccessOnly 200 (Some (getSecureCookieString isSecure [] 0)), db') \<and>
      handleCheckAuth w'' cookie db' \<noteq> Inr (jsonResponse Authenticated 200 None) \<and>
      (\<not> d1_rejects w'' 0 \<longrightarrow>
         handleCheckAuth w'' cookie db' = Inr (jsonResponse (Error ''Unauthorized'') 401 None)))"
proof (intro impI)
  assume ok: "\<not> d1_rejects w 0 \<and> \<not> d1_rejects w' 0"
  show "\<exists>db'. handleLogout w isSecure cookie db =
            Inr (jsonResponse SuccessOnly 200 (Some (getSecureCookieString isSecure [] 0)), db') \<and>
      admin_sessions db' =
        (case getSessionToken cookie of
           None \<Rightarrow> admin_sessions db
         | Some token \<Rightarrow> filter (\<lambda>r. session_token r \<noteq> Some token) (admin_sessions db)) \<and>
      last_id db' = last_id db \<and>
      handleLogout w' isSecure cookie db' =
            Inr (jsonResponse SuccessOnly 200 (Some (getSecureCookieString isSecure [] 0)), db') \<and>
      handleCheckAuth w'' cookie db' \<noteq> Inr (jsonResponse Authenticated 200 None) \<and>
      (\<not> d1_rejects w'' 0 \<longrightarrow>
         handleCheckAuth w'' cookie db' = Inr (jsonResponse (Error ''Unauthorized'') 401 None))"
  proof (cases "getSessionToken cookie")
    case None
    then show ?thesis
      by (intro exI [where x = db])
        (simp add: handleLogout_def handleCheckAuth_def validateAdminSession_def jsonResponse_def)
  next
    case (Some token)
    then have ne: "token \<noteq> []" using getSessionToken_nonempty [of cookie] by auto
    show ?thesis
      using Some ne ok
      by (intro exI [where x = "delete_token db token"])
        (auto simp: handleLogout_def handleCheckAuth_def validateAdminSession_def jsonResponse_def
          delete_token_twice select_session_deleted fields_delete_token)
  qed
qed

section \<open>Verification\<close>

lemma validateOTP_nonempty: "validateOTP code \<Longrightarrow> code \<noteq> []"
  by (auto simp: validateOTP_def)

lemma select_otp_None:
  "select_otp db addr code nowText = None \<longleftrightarrow>
   (\<forall>r \<in> set (admin_sessions db). \<not> otp_matches addr code nowText r)"
  by (simp add: select_otp_def newest_None filter_empty_conv)

lemma select_otp_newest:
  "select_otp db addr code nowText = Some s \<Longrightarrow> r \<in> set (admin_sessions db) \<Longrightarrow>
   otp_matches addr code nowText r \<Longrightarrow> created_at r \<le> created_at s"
  unfolding select_otp_def by (erule newest_max) simp

text \<open>\<open>handleVerifyOTP\<close> once the body is read, the fields are there and the code has six digits.\<close>

lemma handleVerifyOTP_checked:
  assumes "toLowerCase lib (trim lib data_email) \<noteq> []" and "validateOTP (trim lib data_otp)"
    and "checkVerifyRateLimit w 0 db (toLowerCase lib (trim lib data_email)) = Inr True"
    and "\<not> d1_rejects w 1"
  shows "handleVerifyOTP lib w isSecure (Some (data_email, data_otp)) db =
     (case select_otp db (toLowerCase lib (trim lib data_email)) (trim lib data_otp) (toISOString (now w)) of
        None \<Rightarrow>
          \<lparr>reply = jsonResponse (Error ''Invalid or expired OTP'') 401 None,
           store = db, console = []\<rparr>
      | Some session \<Rightarrow>
          if d1_rejects w 2 then verifyFailed db
          else if d1_rejects w 3 then
            verifyFailed (update_session db (generateSessionToken (random_bytes w))
              (toISOString (now w + 24 * 60 * 60 * 1000)) (row_id session))
          else
            \<lparr>reply = jsonResponse (Success ''Login successful'') 200
               (Some (getSecureCookieString isSecure (generateSessionToken (random_bytes w)) 86400)),
             store = delete_unused
               (update_session db (generateSessionToken (random_bytes w))
                  (toISOString (now w + 24 * 60 * 60 * 1000)) (row_id session))
               (toLowerCase lib (trim lib data_email)) (row_id session),
             console = []\<rparr>)"
  using assms validateOTP_nonempty [of "trim lib data_otp"]
  by (simp add: handleVerifyOTP_def Let_def split: option.splits)

text \<open>
  Which row \<open>ORDER BY created_at DESC LIMIT 1\<close> returns: the table splits at it, no
  selected row before it reaches its \<open>created_at\<close> and none after it exceeds it.
\<close>

lemma newest_filter_split:
  "newest (filter P xs) = Some s \<Longrightarrow>
   \<exists>ys zs. xs = ys @ s # zs \<and> P s \<and>
     (\<forall>r \<in> set ys. P r \<longrightarrow> created_at r < created_at s) \<and>
     (\<forall>r \<in> set zs. P r \<longrightarrow> created_at r \<le> created_at s)"
proof (induction xs arbitrary: s)
  case Nil
  then show ?case by simp
next
  case (Cons x xs)
  show ?case
  proof (cases "P x")
    case False
    with Cons.prems have "newest (filter P xs) = Some s" by simp
    from Cons.IH [OF this] obtain ys zs where s: "xs = ys @ s # zs" "P s"
      "\<forall>r \<in> set ys. P r \<longrightarrow> created_at r < created_at s"
      "\<forall>r \<in> set zs. P r \<longrightarrow> created_at r \<le> created_at s" by blast
    from s False have "x # xs = (x # ys) @ s # zs \<and> P s \<and>
      (\<forall>r \<in> set (x # ys). P r \<longrightarrow> created_at r < created_at s) \<and>
      (\<forall>r \<in> set zs. P r \<longrightarrow> created_at r \<le> created_at s)" by simp
    then show ?thesis by blast
  next
    case True
    show ?thesis
    proof (cases "newest (filter P xs)")
      case None
      then have none: "\<forall>r \<in> set xs. \<not> P r" by (simp add: newest_None filter_empty_conv)
      from None True Cons.prems have "s = x" by simp
      with True none have "x # xs = [] @ s # xs \<and> P s \<and>
        (\<forall>r \<in> set []. P r \<longrightarrow> created_at r < created_at s) \<and>
        (\<forall>r \<in> set xs. P r \<longrightarrow> created_at r \<le> created_at s)" by simp
      then show ?thesis by blast
    next
      case (Some q)
      show ?thesis
      proof (cases "created_at x < created_at q")
        case less: True
        with Some True Cons.prems have sq: "s = q" by simp
        from Cons.IH [OF Some] obtain ys zs where q: "xs = ys @ q # zs" "P q"
          "\<forall>r \<in> set ys. P r \<longrightarrow> created_at r < created_at q"
          "\<forall>r \<in> set zs. P r \<longrightarrow> created_at r \<le> created_at q" by blast
        from q less sq have "x # xs = (x # ys) @ s # zs \<and> P s \<and>
          (\<forall>r \<in> set (x # ys). P r \<longrightarrow> created_at r < created_at s) \<and>
          (\<forall>r \<in> set zs. P r \<longrightarrow> created_at r \<le> created_at s)" by simp
        then show ?thesis by blast
      next
        case ge: False
        with Some True Cons.prems have sx: "s = x" by simp
        from newest_max_all [OF Some] have "\<forall>r \<in> set xs. P r \<longrightarrow> created_at r \<le> created_at q"
          by simp
        with ge have "\<forall>r \<in> set xs. P r \<longrightarrow> created_at r \<le> created_at x"
          by (auto intro: order_trans)
        with True sx have "x # xs = [] @ s # xs \<and> P s \<and>
          (\<forall>r \<in> set []. P r \<longrightarrow> created_at r < created_at s) \<and>
          (\<forall>r \<in> set xs. P r \<longrightarrow> created_at r \<le> created_at s)" by simp
        then show ?thesis by blast
      qed
    qed
  qed
qed

lemma select_otp_split:
  "select_otp db addr code nowText = Some s \<Longrightarrow>
   \<exists>ys zs. admin_sessions db = ys @ s # zs \<and> otp_matches addr code nowText s \<and>
     (\<forall>r \<in> set ys. otp_matches addr code nowText r \<longrightarrow> created_at r < created_at s) \<and>
     (\<forall>r \<in> set zs. otp_matches addr code nowText r \<longrightarrow> created_at r \<le> created_at s)"
  unfolding select_otp_def by (rule newest_filter_split)

text \<open>
  C4, as the code has it. Past the field, format and rate-limit checks, and with no
  statement rejecting, \<open>handleVerifyOTP\<close> answers 200 exactly when some row has the
  normalised email, exactly the submitted code, an \<open>otp_expires_at\<close> after the text of the
  current instant and no session token. Otherwise it answers with the one 401 response
  \<open>Invalid or expired OTP\<close> and leaves the database as it is, whatever kept the rows from
  matching. When it answers 200 the row it consumes is the matching row of greatest
  \<open>created_at\<close>, and the first of them in the table (the one inserted first) when several
  share that \<open>created_at\<close>: the column holds whole seconds, so of two matching codes issued
  within one second the one issued first is taken.
\<close>

theorem handleVerifyOTP_decides:
  assumes "addr = toLowerCase lib (trim lib data_email)" and "code = trim lib data_otp"
    and "addr \<noteq> []" and "validateOTP code"
    and "checkVerifyRateLimit w 0 db addr = Inr True"
    and "\<not> d1_rejects w 1" and "\<not> d1_rejects w 2" and "\<not> d1_rejects w 3"
  shows
    "(status (reply (handleVerifyOTP lib w isSecure (Some (data_email, data_otp)) db)) = 200 \<longleftrightarrow>
        (\<exists>r \<in> set (admin_sessions db).
           email r = addr \<and> otp r = code \<and> toISOString (now w) < otp_expires_at r \<and>
           session_token r = None)) \<and>
     (status (reply (handleVerifyOTP lib w isSecure (Some (data_email, data_otp)) db)) \<noteq> 200 \<longrightarrow>
        handleVerifyOTP lib w isSecure (Some (data_email, data_otp)) db =
          \<lparr>reply = jsonResponse (Error ''Invalid or expired OTP'') 401 None,
           store = db, console = []\<rparr>) \<and>
     (status (reply (handleVerifyOTP lib w isSecure (Some (data_email, data_otp)) db)) = 200 \<longrightarrow>
        (\<exists>s ys zs.
           admin_sessions db = ys @ s # zs \<and>
           otp_matches addr code (toISOString (now w)) s \<and>
           (\<forall>r \<in> set ys.
              otp_matches addr code (toISOString (now w)) r \<longrightarrow> created_at r < created_at s) \<and>
           (\<forall>r \<in> set zs.
              otp_matches addr code (toISOString (now w)) r \<longrightarrow> created_at r \<le> created_at s) \<and>
           handleVerifyOTP lib w isSecure (Some (data_email, data_otp)) db =
             \<lparr>reply = jsonResponse (Success ''Login successful'') 200
                (Some (getSecureCookieString isSecure
                   (generateSessionToken (random_bytes w)) 86400)),
              store = delete_unused
                (update_session db (generateSessionToken (random_bytes w))
                   (toISOString (now w + 24 * 60 * 60 * 1000)) (row_id s))
                addr (row_id s),
              console = []\<rparr>))"
proof (cases "select_otp db addr code (toISOString (now w))")
  case None
  then have out: "handleVerifyOTP lib w isSecure (Some (data_email, data_otp)) db =
      \<lparr>reply = jsonResponse (Error ''Invalid or expired OTP'') 401 None, store = db, console = []\<rparr>"
    using assms by (simp add: handleVerifyOTP_checked)
  from None have "\<forall>r \<in> set (admin_sessions db). \<not> otp_matches addr code (toISOString (now w)) r"
    by (simp add: select_otp_None)
  then have "\<not> (\<exists>r \<in> set (admin_sessions db).
           email r = addr \<and> otp r = code \<and> toISOString (now w) < otp_expires_at r \<and>
           session_token r = None)"
    by (simp add: otp_matches_def)
  then show ?thesis unfolding out by (simp add: jsonResponse_def)
next
  case (Some s)
  then have out: "handleVerifyOTP lib w isSecure (Some (data_email, data_otp)) db =
      \<lparr>reply = jsonResponse (Success ''Login successful'') 200
         (Some (getSecureCookieString isSecure (generateSessionToken (random_bytes w)) 86400)),
       store = delete_unused
         (update_session db (generateSessionToken (random_bytes w))
            (toISOString (now w + 24 * 60 * 60 * 1000)) (row_id s))
         addr (row_id s),
       console = []\<rparr>"
    using assms by (simp add: handleVerifyOTP_checked)
  from Some have s: "s \<in> set (admin_sessions db)" "otp_matches addr code (toISOString (now w)) s"
    using select_otp_Some by blast+
  from select_otp_split [OF Some] obtain ys zs where split:
    "admin_sessions db = ys @ s # zs"
    "\<forall>r \<in> set ys. otp_matches addr code (toISOString (now w)) r \<longrightarrow> created_at r < created_at s"
    "\<forall>r \<in> set zs. otp_matches addr code (toISOString (now w)) r \<longrightarrow> created_at r \<le> created_at s"
    by blast
  have ex: "\<exists>r \<in> set (admin_sessions db).
           email r = addr \<and> otp r = code \<and> toISOString (now w) < otp_expires_at r \<and>
           session_token r = None"
    using s by (auto simp: otp_matches_def)
  have chosen: "\<exists>s ys zs.
           admin_sessions db = ys @ s # zs \<and>
           otp_matches addr code (toISOString (now w)) s \<and>
           (\<forall>r \<in> set ys.
              otp_matches addr code (toISOString (now w)) r \<longrightarrow> created_at r < created_at s) \<and>
           (\<forall>r \<in> set zs.
              otp_matches addr code (toISOString (now w)) r \<longrightarrow> created_at r \<le> created_at s) \<and>
           handleVerifyOTP lib w isSecure (Some (data_email, data_otp)) db =
             \<lparr>reply = jsonResponse (Success ''Login successful'') 200
                (Some (getSecureCookieString isSecure
                   (generateSessionToken (random_bytes w)) 86400)),
              store = delete_unused
                (update_session db (generateSessionToken (random_bytes w))
                   (toISOString (now w + 24 * 60 * 60 * 1000)) (row_id s))
                addr (row_id s),
              console = []\<rparr>"
    using split s(2) out by blast
  have ok: "status (reply (handleVerifyOTP lib w isSecure (Some (data_email, data_otp)) db)) = 200"
    unfolding out by (simp add: jsonResponse_def)
  show ?thesis using ok ex chosen by blast
qed

section \<open>Issuance, cleanup and spent codes\<close>

lemma iso_1202: "toISOString 1793707320000 = ''2026-11-03T12:02:00.000Z''"
  by (simp add: time_defs)

lemma calm_fields:
  "now (calm t u) = t" "random_u32 (calm t u) = u" "random_bytes (calm t u) = (\<lambda>i. 0)"
  "d1_rejects (calm t u) k = False" "email_sent (calm t u) = True"
  by (simp_all add: calm_def)

theorem validateAdminSession_answer_witness:
  "validateAdminSession (calm (noon + 120000) 0) 0 session_db None = Inr False \<and>
   validateAdminSession (calm (noon + 120000) 0) 0 session_db (Some []) = Inr False \<and>
   validateAdminSession (calm (noon + 120000) 0) 0 session_db (Some zero_token) = Inr True \<and>
   serve plain session_db (calm (noon + 120000) 0, CheckAuth None) = session_db \<and>
   primary_key session_db"
proof -
  have h: "zero_token \<noteq> [] \<and> \<not> d1_rejects (calm (noon + 120000) 0) 0"
    by (simp add: zero_token_def calm_fields replicate_numeral)
  have e: "\<exists>r \<in> set (admin_sessions session_db). session_token r = Some zero_token \<and>
      (\<exists>e. session_expires_at r = Some e \<and> toISOString (now (calm (noon + 120000) 0)) < e)"
    by (simp add: session_db_def calm_fields noon_def iso_1202)
  have p: "primary_key session_db" by (simp add: primary_key_def session_db_def)
  show ?thesis
    using validateAdminSession_answer [of "calm (noon + 120000) 0" 0 session_db zero_token
        plain None "hd (admin_sessions session_db)" "hd (admin_sessions session_db)"
        "calm (noon + 120000) 0" "CheckAuth None"] h e p
    by simp
qed

lemma cookie_zero: "getSessionToken zero_cookie = Some zero_token"
  by (simp add: getSessionToken_def zero_cookie_def zero_token_def replicate_numeral Let_def)

theorem handleLogout_idempotent_witness:
  "\<exists>db'. handleLogout (calm (noon + 120000) 0) True zero_cookie
             session_db =
           Inr (jsonResponse SuccessOnly 200 (Some (getSecureCookieString True [] 0)), db') \<and>
         admin_sessions db' = [] \<and>
         handleLogout (calm (noon + 180000) 0) True zero_cookie db' =
           Inr (jsonResponse SuccessOnly 200 (Some (getSecureCookieString True [] 0)), db') \<and>
         handleCheckAuth (calm (noon + 240000) 0) zero_cookie db' =
           Inr (jsonResponse (Error ''Unauthorized'') 401 None)"
proof -
  have h: "\<not> d1_rejects (calm (noon + 120000) 0) 0 \<and> \<not> d1_rejects (calm (noon + 180000) 0) 0"
    by (simp add: calm_fields)
  have r: "\<not> d1_rejects (calm (noon + 240000) 0) 0" by (simp add: calm_fields)
  show ?thesis
    using handleLogout_idempotent [of "calm (noon + 120000) 0" "calm (noon + 180000) 0" True
        zero_cookie session_db "calm (noon + 240000) 0"] h r
    by (auto simp: cookie_zero session_db_def)
qed

lemma rate_issued_1201:
  "checkVerifyRateLimit (calm (noon + 60000) 0) 0 issued_db ''admin@cloudflare.com'' = Inr True"
  by (simp add: checkVerifyRateLimit_def calm_fields noon_def issued_db_def count_failed_def
      MAX_OTP_VERIFY_ATTEMPTS_def iso_1146 sql_1201)

lemma norm_plain: "toLowerCase plain (trim plain ''admin@cloudflare.com'') = ''admin@cloudflare.com''"
  by (simp add: plain_fields ascii_trim_def ascii_space_def ascii_lower_def)

lemma trim_100000: "trim plain ''100000'' = ''100000''"
  by (simp add: plain_fields ascii_trim_def ascii_space_def)

theorem handleVerifyOTP_decides_witness:
  "status (reply (handleVerifyOTP plain (calm (noon + 60000) 0) True
      (Some (''admin@cloudflare.com'', ''100000'')) issued_db)) = 200 \<and>
   (\<exists>r \<in> set (admin_sessions issued_db).
      email r = ''admin@cloudflare.com'' \<and> otp r = ''100000'' \<and>
      toISOString (now (calm (noon + 60000) 0)) < otp_expires_at r \<and> session_token r = None) \<and>
   store (handleVerifyOTP plain (calm (noon + 60000) 0) True
      (Some (''admin@cloudflare.com'', ''100000'')) issued_db) = session_db"
proof -
  have ok: "\<not> d1_rejects (calm (noon + 60000) 0) k" for k by (simp add: calm_fields)
  show ?thesis
    using handleVerifyOTP_decides [of "''admin@cloudflare.com''" plain "''admin@cloudflare.com''"
        "''100000''" "''100000''" "calm (noon + 60000) 0" issued_db True,
        OF norm_plain [symmetric] trim_100000 [symmetric] _ validate_100000 rate_issued_1201 ok ok ok]
      verify_issued
    by (simp add: jsonResponse_def)
qed

text \<open>
  C6. For a valid \<open>@cloudflare.com\<close> address that passes \<open>checkOTPRateLimit\<close>, when the
  INSERT does not reject, \<open>handleSendOTP\<close> appends one row with the generated code, with
  \<open>otp_expires_at\<close> the text of now + 10 minutes and with no session columns, and
  answers 200. Whether \<open>sendEmail\<close> succeeded shows in the console line only: response and
  database are the same for both outcomes.
\<close>

theorem handleSendOTP_persists:
  assumes "addr = toLowerCase lib (trim lib data_email)" and "addr \<noteq> []" and "isEmail lib addr"
    and "endsWith addr ''@cloudflare.com''"
    and "checkOTPRateLimit w 0 db addr = Inr rateLimit" and "allowed rateLimit"
    and "\<not> d1_rejects w 1"
  shows
    "reply (handleSendOTP lib w (Some data_email) db) =
       jsonResponse (Success ''OTP sent successfully'') 200 None \<and>
     admin_sessions (store (handleSendOTP lib w (Some data_email) db)) =
       admin_sessions db @
         [\<lparr>row_id = next_id db, email = addr, otp = generateOTP (random_u32 w),
           session_token = None, otp_expires_at = toISOString (now w + 10 * 60 * 1000),
           session_expires_at = None, created_at = sqlite_datetime (now w)\<rparr>] \<and>
     console (handleSendOTP lib w (Some data_email) db) =
       (if email_sent w then [] else [''Failed to send OTP email to '' @ addr]) \<and>
     reply (handleSendOTP lib (w\<lparr>email_sent := sent\<rparr>) (Some data_email) db) =
       reply (handleSendOTP lib w (Some data_email) db) \<and>
     store (handleSendOTP lib (w\<lparr>email_sent := sent\<rparr>) (Some data_email) db) =
       store (handleSendOTP lib w (Some data_email) db)"
proof -
  have same: "checkOTPRateLimit (w\<lparr>email_sent := sent\<rparr>) 0 db addr = checkOTPRateLimit w 0 db addr"
    by (simp add: checkOTPRateLimit_def)
  show ?thesis
    using assms same by (simp add: handleSendOTP_def Let_def rows_insert_otp)
qed

lemma rate_empty:
  "checkOTPRateLimit w 0 empty_db addr =
     (if d1_rejects w 0 then Inl D1Error else Inr \<lparr>allowed = True, remaining = 5\<rparr>)"
  by (simp add: checkOTPRateLimit_def count_recent_def empty_db_def MAX_OTP_REQUESTS_PER_HOUR_def
      Let_def)

theorem handleSendOTP_persists_witness:
  "reply (handleSendOTP plain ((calm noon 0)\<lparr>email_sent := False\<rparr>)
      (Some '' Admin@Cloudflare.com '') empty_db) =
     jsonResponse (Success ''OTP sent successfully'') 200 None \<and>
   admin_sessions (store (handleSendOTP plain ((calm noon 0)\<lparr>email_sent := False\<rparr>)
      (Some '' Admin@Cloudflare.com '') empty_db)) = admin_sessions issued_db \<and>
   console (handleSendOTP plain ((calm noon 0)\<lparr>email_sent := False\<rparr>)
      (Some '' Admin@Cloudflare.com '') empty_db) =
     [''Failed to send OTP email to admin@cloudflare.com'']"
proof -
  have a: "isEmail plain ''admin@cloudflare.com''" by (simp add: plain_fields simpleEmail_def)
  have b: "endsWith ''admin@cloudflare.com'' ''@cloudflare.com''" by (simp add: endsWith_def)
  have c: "checkOTPRateLimit ((calm noon 0)\<lparr>email_sent := False\<rparr>) 0 empty_db
      ''admin@cloudflare.com'' = Inr \<lparr>allowed = True, remaining = 5\<rparr>"
    by (simp add: rate_empty calm_def)
  have d: "\<not> d1_rejects ((calm noon 0)\<lparr>email_sent := False\<rparr>) 1" by (simp add: calm_def)
  have e: "next_id empty_db = 1" "admin_sessions empty_db = []"
    by (simp_all add: next_id_def empty_db_def)
  have f: "now ((calm noon 0)\<lparr>email_sent := False\<rparr>) = 1793707200000"
    "random_u32 ((calm noon 0)\<lparr>email_sent := False\<rparr>) = 0"
    "email_sent ((calm noon 0)\<lparr>email_sent := False\<rparr>) = False"
    by (simp_all add: calm_def noon_def)
  show ?thesis
    using handleSendOTP_persists [of "''admin@cloudflare.com''" plain
        "'' Admin@Cloudflare.com ''" "(calm noon 0)\<lparr>email_sent := False\<rparr>" empty_db
        "\<lparr>allowed = True, remaining = 5\<rparr>" True, OF norm_admin [symmetric] _ a b c _ d]
    by (simp add: e f otp_0 iso_noon_plus10 sql_noon issued_db_def)
qed

lemma rows_update_session:
  "admin_sessions (update_session db token expires i) =
     map (\<lambda>r. if row_id r = i then consume token expires r else r) (admin_sessions db)"
  by (simp add: update_session_def)

lemma rows_delete_unused_eq:
  "admin_sessions (delete_unused db addr i) =
     filter (\<lambda>r. \<not> (email r = addr \<and> session_token r = None \<and> row_id r \<noteq> i)) (admin_sessions db)"
  by (simp add: delete_unused_def)

lemma consume_fields:
  "session_token (consume token expires r) = Some token"
  "session_expires_at (consume token expires r) = Some expires"
  "otp (consume token expires r) = []"
  "email (consume token expires r) = email r"
  "created_at (consume token expires r) = created_at r"
  "otp_expires_at (consume token expires r) = otp_expires_at r"
  by (simp_all add: consume_def)

text \<open>The rows after the UPDATE and the DELETE of a successful verification.\<close>

lemma rows_after_verify:
  assumes pk: "primary_key db" and s: "s \<in> set (admin_sessions db)"
  shows "set (admin_sessions (delete_unused (update_session db token expires (row_id s)) addr (row_id s))) =
     insert (consume token expires s)
       {r \<in> set (admin_sessions db). row_id r \<noteq> row_id s \<and> (email r \<noteq> addr \<or> session_token r \<noteq> None)}"
proof -
  have same: "r = s" if "r \<in> set (admin_sessions db)" "row_id r = row_id s" for r
    using pk s that by (simp add: primary_key_same_row)
  show ?thesis
    unfolding rows_delete_unused_eq rows_update_session
    using s by (auto simp: consume_fields dest: same)
qed

text \<open>
  C8, as the code has it. On a verification that selects the row \<open>s\<close>: when the cleanup
  DELETE runs, the answer is 200 and the table holds the consumed \<open>s\<close> together with
  exactly those earlier rows, unchanged, that are not \<open>s\<close> and belong to another email or
  carry a session token; the other unconsumed rows of the email are gone and nothing is
  added. When the cleanup DELETE rejects, the handler's \<open>catch\<close> answers 500
  \<open>Failed to verify OTP\<close>, and the table is the one the UPDATE left: \<open>s\<close> is consumed, its
  siblings are still there.
\<close>

theorem handleVerifyOTP_cleanup:
  assumes "addr = toLowerCase lib (trim lib data_email)" and "code = trim lib data_otp"
    and "addr \<noteq> []" and "validateOTP code"
    and "checkVerifyRateLimit w 0 db addr = Inr True"
    and "\<not> d1_rejects w 1" and "\<not> d1_rejects w 2"
    and sel: "select_otp db addr code (toISOString (now w)) = Some s"
    and pk: "primary_key db"
    and "token = generateSessionToken (random_bytes w)"
    and "expires = toISOString (now w + 24 * 60 * 60 * 1000)"
    and "out = handleVerifyOTP lib w isSecure (Some (data_email, data_otp)) db"
  shows
    "(\<not> d1_rejects w 3 \<longrightarrow>
        status (reply out) = 200 \<and>
        consume token expires s \<in> set (admin_sessions (store out)) \<and>
        (\<forall>r \<in> set (admin_sessions db).
           r \<in> set (admin_sessions (store out)) \<longleftrightarrow>
             row_id r \<noteq> row_id s \<and> (email r \<noteq> addr \<or> session_token r \<noteq> None)) \<and>
        (\<forall>r' \<in> set (admin_sessions (store out)).
           r' = consume token expires s \<or> r' \<in> set (admin_sessions db))) \<and>
     (d1_rejects w 3 \<longrightarrow>
        reply out = jsonResponse (Error ''Failed to verify OTP. Please try again.'') 500 None \<and>
        store out = update_session db token expires (row_id s))"
proof -
  have s: "s \<in> set (admin_sessions db)" "session_token s = None"
    using select_otp_Some [OF sel] by (simp_all add: otp_matches_def)
  have out: "out =
      (if d1_rejects w 3 then verifyFailed (update_session db token expires (row_id s))
       else \<lparr>reply = jsonResponse (Success ''Login successful'') 200
               (Some (getSecureCookieString isSecure token 86400)),
             store = delete_unused (update_session db token expires (row_id s)) addr (row_id s),
             console = []\<rparr>)"
    using assms by (simp add: handleVerifyOTP_checked)
  have rows: "set (admin_sessions (delete_unused (update_session db token expires (row_id s)) addr (row_id s))) =
     insert (consume token expires s)
       {r \<in> set (admin_sessions db). row_id r \<noteq> row_id s \<and> (email r \<noteq> addr \<or> session_token r \<noteq> None)}"
    using pk s(1) by (rule rows_after_verify)
  have notin: "consume token expires s \<notin> set (admin_sessions db)"
  proof
    assume "consume token expires s \<in> set (admin_sessions db)"
    then have "consume token expires s = s" using pk s(1) by (simp add: primary_key_same_row)
    then have "session_token (consume token expires s) = session_token s" by simp
    with s(2) show False by (simp add: consume_fields)
  qed
  show ?thesis
  proof (cases "d1_rejects w 3")
    case True
    with out show ?thesis by (simp add: verifyFailed_def)
  next
    case False
    with out have st: "store out =
        delete_unused (update_session db token expires (row_id s)) addr (row_id s)"
      and rp: "status (reply out) = 200"
      by (simp_all add: jsonResponse_def)
    show ?thesis using False rp notin unfolding st rows by auto
  qed
qed

lemma store_handleSendOTP_data:
  "store (handleSendOTP lib w data db) = db \<or>
   (\<exists>d. data = Some d \<and>
      store (handleSendOTP lib w data db) =
        insert_otp db (now w) (toLowerCase lib (trim lib d)) (generateOTP (random_u32 w))
          (toISOString (now w + 10 * 60 * 1000)))"
  by (auto simp: handleSendOTP_def sendFailed_def Let_def split: option.splits sum.splits)

lemma rows_update_session_cases:
  "r' \<in> set (admin_sessions (update_session db token expires i)) \<Longrightarrow>
   r' \<in> set (admin_sessions db) \<or> session_token r' = Some token"
  by (auto simp: rows_update_session consume_fields split: if_splits)

text \<open>
  No row of the table is an unconsumed code \<open>code\<close> for \<open>addr\<close>: kept by every request
  that does not issue that very code to that very address again.
\<close>

lemma serve_keeps_spent:
  assumes q: "\<forall>r \<in> set (admin_sessions db).
                \<not> (email r = addr \<and> otp r = code \<and> session_token r = None)"
    and fresh: "\<forall>d. req = SendOTP (Some d) \<longrightarrow> toLowerCase lib (trim lib d) = addr \<longrightarrow>
                  generateOTP (random_u32 w) \<noteq> code"
  shows "\<forall>r \<in> set (admin_sessions (serve lib db (w, req))).
           \<not> (email r = addr \<and> otp r = code \<and> session_token r = None)"
proof (cases req)
  case (SendOTP data)
  with q fresh store_handleSendOTP_data [of lib w data db] show ?thesis
    by (auto simp: rows_insert_otp)
next
  case (VerifyOTP isSecure data)
  have "r' \<in> set (admin_sessions db) \<or> session_token r' \<noteq> None"
    if "r' \<in> set (admin_sessions (store (handleVerifyOTP lib w isSecure data db)))" for r'
    using that store_handleVerifyOTP_cases [of lib w isSecure data db]
    by (auto dest!: rows_delete_unused rows_update_session_cases)
  with q VerifyOTP show ?thesis by auto
next
  case (CheckAuth cookie)
  with q show ?thesis by simp
next
  case (Logout isSecure cookie)
  show ?thesis
  proof (cases "handleLogout w isSecure cookie db")
    case (Inl e)
    with Logout q show ?thesis by simp
  next
    case (Inr p)
    obtain resp db' where p: "p = (resp, db')" by (cases p)
    from Inr p have "db' = db \<or> (\<exists>token. db' = delete_token db token)"
      by (simp add: store_handleLogout_cases)
    then have "r' \<in> set (admin_sessions db)" if "r' \<in> set (admin_sessions db')" for r'
      using that by (auto dest: rows_delete_token)
    with Inr p Logout q show ?thesis by auto
  qed
next
  case Cleanup
  have "r' \<in> set (admin_sessions db)" if "r' \<in> set (admin_sessions (cleanupExpiredData w db))" for r'
    using that store_cleanup_cases [of w db] by (auto dest: rows_delete_expired)
  with Cleanup q show ?thesis by auto
qed

lemma run_keeps_spent:
  assumes "\<forall>r \<in> set (admin_sessions db).
             \<not> (email r = addr \<and> otp r = code \<and> session_token r = None)"
    and "\<forall>(w, req) \<in> set reqs. \<forall>d. req = SendOTP (Some d) \<longrightarrow>
           toLowerCase lib (trim lib d) = addr \<longrightarrow> generateOTP (random_u32 w) \<noteq> code"
  shows "\<forall>r \<in> set (admin_sessions (run lib db reqs)).
           \<not> (email r = addr \<and> otp r = code \<and> session_token r = None)"
  using assms unfolding run_def
proof (induction reqs arbitrary: db)
  case Nil
  then show ?case by simp
next
  case (Cons a reqs)
  obtain w req where a: "a = (w, req)" by (cases a)
  have "\<forall>r \<in> set (admin_sessions (serve lib db (w, req))).
           \<not> (email r = addr \<and> otp r = code \<and> session_token r = None)"
    using Cons.prems a by (intro serve_keeps_spent) auto
  then have "\<forall>r \<in> set (admin_sessions (foldl (serve lib) (serve lib db (w, req)) reqs)).
           \<not> (email r = addr \<and> otp r = code \<and> session_token r = None)"
    using Cons.prems by (intro Cons.IH) auto
  with a show ?case by simp
qed

lemma next_id_gt: "last_id db < next_id db"
  unfolding next_id_def using fold_max_ge [of "last_id db" "map row_id (admin_sessions db)"]
  by simp

lemma last_id_insert_otp: "last_id (insert_otp db clock addr code expires) = next_id db"
  by (simp add: insert_otp_def)

lemma last_id_update_session: "last_id (update_session db token expires i) = last_id db"
  by (simp add: update_session_def)

lemma last_id_delete_unused: "last_id (delete_unused db addr i) = last_id db"
  by (simp add: delete_unused_def)

lemma last_id_delete_expired: "last_id (delete_expired db nowText) = last_id db"
  by (simp add: delete_expired_def)

lemma last_id_serve: "last_id db \<le> last_id (serve lib db (w, req))"
proof (cases req)
  case (SendOTP data)
  with store_handleSendOTP_cases [of lib w data db] next_id_gt [of db] show ?thesis
    by (auto simp: last_id_insert_otp)
next
  case (VerifyOTP isSecure data)
  with store_handleVerifyOTP_cases [of lib w isSecure data db] show ?thesis
    by (auto simp: last_id_update_session last_id_delete_unused)
next
  case (CheckAuth cookie)
  then show ?thesis by simp
next
  case (Logout isSecure cookie)
  show ?thesis
  proof (cases "handleLogout w isSecure cookie db")
    case (Inl e)
    with Logout show ?thesis by simp
  next
    case (Inr p)
    obtain resp db' where p: "p = (resp, db')" by (cases p)
    from Inr p have "db' = db \<or> (\<exists>token. db' = delete_token db token)"
      by (simp add: store_handleLogout_cases)
    with Inr p Logout show ?thesis by (auto simp: fields_delete_token)
  qed
next
  case Cleanup
  with store_cleanup_cases [of w db] show ?thesis by (auto simp: last_id_delete_expired)
qed

text \<open>Where a row of the table after a request comes from: a row of that id before, or a new id.\<close>

lemma serve_origin:
  assumes "q \<in> set (admin_sessions (serve lib db (w, req)))"
  shows "(\<exists>p \<in> set (admin_sessions db). row_id p = row_id q) \<or> last_id db < row_id q"
proof (cases req)
  case (SendOTP data)
  with assms store_handleSendOTP_cases [of lib w data db] next_id_gt [of db] show ?thesis
    by (auto simp: rows_insert_otp)
next
  case (VerifyOTP isSecure data)
  have "\<exists>p \<in> set (admin_sessions db). row_id p = row_id q"
    if "q \<in> set (admin_sessions (update_session db token expires i))" for token expires i
    using that by (auto simp: rows_update_session split: if_splits)
  with assms VerifyOTP store_handleVerifyOTP_cases [of lib w isSecure data db] show ?thesis
    by (auto dest!: rows_delete_unused)
next
  case (CheckAuth cookie)
  with assms show ?thesis by auto
next
  case (Logout isSecure cookie)
  show ?thesis
  proof (cases "handleLogout w isSecure cookie db")
    case (Inl e)
    with Logout assms show ?thesis by auto
  next
    case (Inr p)
    obtain resp db' where p: "p = (resp, db')" by (cases p)
    from Inr p have "db' = db \<or> (\<exists>token. db' = delete_token db token)"
      by (simp add: store_handleLogout_cases)
    with Inr p Logout assms have "q \<in> set (admin_sessions db)"
      by (auto dest: rows_delete_token)
    then show ?thesis by blast
  qed
next
  case Cleanup
  with assms have "q \<in> set (admin_sessions db)"
    using store_cleanup_cases [of w db] by (auto dest: rows_delete_expired)
  then show ?thesis by blast
qed

text \<open>
  A row that carries a session token is never changed again, only deleted, and its id is
  not handed out a second time.
\<close>

lemma run_row_with_session:
  assumes "primary_key db" and "row_id r \<le> last_id db" and "session_token r \<noteq> None"
    and "\<forall>q \<in> set (admin_sessions db). row_id q = row_id r \<longrightarrow> q = r"
    and "r' \<in> set (admin_sessions (run lib db reqs))" and "row_id r' = row_id r"
  shows "r' = r"
  using assms unfolding run_def
proof (induction reqs arbitrary: db)
  case Nil
  then show ?case by simp
next
  case (Cons a reqs)
  obtain w req where a: "a = (w, req)" by (cases a)
  let ?db = "serve lib db (w, req)"
  have pk: "primary_key ?db" using Cons.prems(1) by (rule primary_key_serve)
  have le: "row_id r \<le> last_id ?db" using Cons.prems(2) last_id_serve [of db lib w req] by simp
  have only: "\<forall>q \<in> set (admin_sessions ?db). row_id q = row_id r \<longrightarrow> q = r"
  proof (intro ballI impI)
    fix q assume q: "q \<in> set (admin_sessions ?db)" "row_id q = row_id r"
    from serve_origin [OF q(1)] q(2) Cons.prems(2)
    obtain p where p: "p \<in> set (admin_sessions db)" "row_id p = row_id r" by auto
    with Cons.prems(4) have "p = r" by simp
    with p have "r \<in> set (admin_sessions db)" by simp
    from serve_row [OF Cons.prems(1) this q(1) q(2)] Cons.prems(3) show "q = r" by auto
  qed
  from Cons.prems a have in_run: "r' \<in> set (admin_sessions (foldl (serve lib) ?db reqs))"
    by simp
  show ?case by (rule Cons.IH [OF pk le Cons.prems(3) only in_run Cons.prems(6)])
qed

lemma handleVerifyOTP_no_match:
  assumes "select_otp db (toLowerCase lib (trim lib data_email)) (trim lib data_otp) (toISOString (now w)) = None"
  shows "status (reply (handleVerifyOTP lib w isSecure (Some (data_email, data_otp)) db)) \<noteq> 200"
  using assms
  by (simp add: handleVerifyOTP_def verifyFailed_def jsonResponse_def Let_def split: sum.splits)

lemma count_failed_none:
  assumes "\<forall>r \<in> set (admin_sessions db). \<not> (email r = addr \<and> session_token r = None)"
  shows "count_failed db clock addr windowStart = 0"
  using assms by (auto simp: count_failed_def filter_empty_conv)

lemma sequence_ok_row: "sequence_ok db \<Longrightarrow> r \<in> set (admin_sessions db) \<Longrightarrow> row_id r \<le> last_id db"
  by (simp add: sequence_ok_def list_all_iff)

text \<open>
  C1, as the code has it. A successful verification of \<open>(addr, code)\<close> leaves the selected
  row with an empty code and the new session token. Through every later sequence of
  requests, whatever they are, the row of that id stays so while it exists, and so matches
  no verification query. A further verification of the pair run right after the first one
  answers 401 \<open>Invalid or expired OTP\<close> whenever its two SELECTs run. No request of any
  kind turns an empty code of a row into a non-empty one. Only the last part needs that no
  later \<open>handleSendOTP\<close> for \<open>addr\<close> draws \<open>code\<close> again: then no row matches the pair at
  any instant, a further verification of the pair never answers 200, and it answers 401
  whenever the rate limit lets it through.
\<close>

theorem verified_code_is_spent:
  assumes "addr = toLowerCase lib (trim lib data_email)" and "code = trim lib data_otp"
    and "addr \<noteq> []" and "validateOTP code"
    and "checkVerifyRateLimit w 0 db addr = Inr True"
    and "\<not> d1_rejects w 1" and "\<not> d1_rejects w 2" and "\<not> d1_rejects w 3"
    and pk: "primary_key db" and seq: "sequence_ok db"
    and sel: "select_otp db addr code (toISOString (now w)) = Some s"
    and "token = generateSessionToken (random_bytes w)"
    and "expires = toISOString (now w + 24 * 60 * 60 * 1000)"
    and db1: "db1 = store (handleVerifyOTP lib w isSecure (Some (data_email, data_otp)) db)"
  shows
    "(\<exists>r \<in> set (admin_sessions db1).
        row_id r = row_id s \<and> otp r = [] \<and> session_token r = Some token) \<and>
     (\<forall>r' \<in> set (admin_sessions (run lib db1 reqs)).
        row_id r' = row_id s \<longrightarrow>
          otp r' = [] \<and> session_token r' = Some token \<and> \<not> otp_matches addr' code' t' r') \<and>
     (\<not> d1_rejects w2 0 \<and> \<not> d1_rejects w2 1 \<longrightarrow>
        handleVerifyOTP lib w2 isSecure2 (Some (data_email, data_otp)) db1 =
          \<lparr>reply = jsonResponse (Error ''Invalid or expired OTP'') 401 None,
           store = db1, console = []\<rparr>) \<and>
     (primary_key dbx \<and> r \<in> set (admin_sessions dbx) \<and> otp r = [] \<and>
      r' \<in> set (admin_sessions (serve lib dbx (w', req'))) \<and> row_id r' = row_id r \<longrightarrow>
        otp r' = []) \<and>
     ((\<forall>(w', req) \<in> set reqs. \<forall>d. req = SendOTP (Some d) \<longrightarrow>
         toLowerCase lib (trim lib d) = addr \<longrightarrow> generateOTP (random_u32 w') \<noteq> code) \<longrightarrow>
        (\<forall>r' \<in> set (admin_sessions (run lib db1 reqs)). \<not> otp_matches addr code t r') \<and>
        status (reply (handleVerifyOTP lib w2 isSecure2 (Some (data_email, data_otp))
           (run lib db1 reqs))) \<noteq> 200 \<and>
        (checkVerifyRateLimit w2 0 (run lib db1 reqs) addr = Inr True \<and> \<not> d1_rejects w2 1 \<longrightarrow>
           handleVerifyOTP lib w2 isSecure2 (Some (data_email, data_otp)) (run lib db1 reqs) =
             \<lparr>reply = jsonResponse (Error ''Invalid or expired OTP'') 401 None,
              store = run lib db1 reqs, console = []\<rparr>))"
proof -
  have s: "s \<in> set (admin_sessions db)" "session_token s = None"
    using select_otp_Some [OF sel] by (simp_all add: otp_matches_def)
  have st: "db1 = delete_unused (update_session db token expires (row_id s)) addr (row_id s)"
    using assms by (simp add: handleVerifyOTP_checked)
  have rows: "set (admin_sessions db1) =
     insert (consume token expires s)
       {r \<in> set (admin_sessions db). row_id r \<noteq> row_id s \<and> (email r \<noteq> addr \<or> session_token r \<noteq> None)}"
    unfolding st using pk s(1) by (rule rows_after_verify)
  have pk1: "primary_key db1"
    unfolding st using pk by (simp add: primary_key_update_session primary_key_delete_unused)
  have last1: "last_id db1 = last_id db"
    unfolding st by (simp add: last_id_delete_unused last_id_update_session)
  have none_left: "\<forall>r \<in> set (admin_sessions db1). \<not> (email r = addr \<and> session_token r = None)"
    unfolding rows by (auto simp: consume_fields)
  then have spent1: "\<forall>r \<in> set (admin_sessions db1).
      \<not> (email r = addr \<and> otp r = code \<and> session_token r = None)"
    by blast
  have c1: "\<exists>r \<in> set (admin_sessions db1).
        row_id r = row_id s \<and> otp r = [] \<and> session_token r = Some token"
    unfolding rows by (intro bexI [where x = "consume token expires s"]) (simp_all add: consume_fields)
  have c2: "\<forall>r' \<in> set (admin_sessions (run lib db1 reqs)).
        row_id r' = row_id s \<longrightarrow>
          otp r' = [] \<and> session_token r' = Some token \<and> \<not> otp_matches addr' code' t' r'"
  proof (intro ballI impI)
    fix r' assume r': "r' \<in> set (admin_sessions (run lib db1 reqs))" "row_id r' = row_id s"
    have le: "row_id (consume token expires s) \<le> last_id db1"
      using sequence_ok_row [OF seq s(1)] last1 by simp
    have only: "\<forall>q \<in> set (admin_sessions db1).
        row_id q = row_id (consume token expires s) \<longrightarrow> q = consume token expires s"
      unfolding rows by auto
    have "r' = consume token expires s"
      by (rule run_row_with_session [OF pk1 le _ only r'(1)]) (simp_all add: consume_fields r'(2))
    then show "otp r' = [] \<and> session_token r' = Some token \<and> \<not> otp_matches addr' code' t' r'"
      by (simp add: consume_fields otp_matches_def)
  qed
  have sel_none1: "select_otp db1 addr code u = None" for u
    using spent1 by (auto simp: select_otp_None otp_matches_def)
  have c3: "\<not> d1_rejects w2 0 \<and> \<not> d1_rejects w2 1 \<longrightarrow>
        handleVerifyOTP lib w2 isSecure2 (Some (data_email, data_otp)) db1 =
          \<lparr>reply = jsonResponse (Error ''Invalid or expired OTP'') 401 None,
           store = db1, console = []\<rparr>"
  proof
    assume ok: "\<not> d1_rejects w2 0 \<and> \<not> d1_rejects w2 1"
    then have "checkVerifyRateLimit w2 0 db1 addr = Inr True"
      using count_failed_none [OF none_left]
      by (simp add: checkVerifyRateLimit_def MAX_OTP_VERIFY_ATTEMPTS_def)
    then show "handleVerifyOTP lib w2 isSecure2 (Some (data_email, data_otp)) db1 =
          \<lparr>reply = jsonResponse (Error ''Invalid or expired OTP'') 401 None,
           store = db1, console = []\<rparr>"
      using ok assms(1-4) sel_none1 [of "toISOString (now w2)"]
      by (simp add: handleVerifyOTP_checked)
  qed
  have c4: "primary_key dbx \<and> r \<in> set (admin_sessions dbx) \<and> otp r = [] \<and>
      r' \<in> set (admin_sessions (serve lib dbx (w', req'))) \<and> row_id r' = row_id r \<longrightarrow>
        otp r' = []"
  proof
    assume a: "primary_key dbx \<and> r \<in> set (admin_sessions dbx) \<and> otp r = [] \<and>
      r' \<in> set (admin_sessions (serve lib dbx (w', req'))) \<and> row_id r' = row_id r"
    then have "r' = r \<or> (session_token r = None \<and> (\<exists>token expires. r' = consume token expires r))"
      using serve_row [of dbx r r' lib w' req'] by blast
    with a show "otp r' = []" by (auto simp: consume_fields)
  qed
  have c5: "(\<forall>(w', req) \<in> set reqs. \<forall>d. req = SendOTP (Some d) \<longrightarrow>
         toLowerCase lib (trim lib d) = addr \<longrightarrow> generateOTP (random_u32 w') \<noteq> code) \<longrightarrow>
        (\<forall>r' \<in> set (admin_sessions (run lib db1 reqs)). \<not> otp_matches addr code t r') \<and>
        status (reply (handleVerifyOTP lib w2 isSecure2 (Some (data_email, data_otp))
           (run lib db1 reqs))) \<noteq> 200 \<and>
        (checkVerifyRateLimit w2 0 (run lib db1 reqs) addr = Inr True \<and> \<not> d1_rejects w2 1 \<longrightarrow>
           handleVerifyOTP lib w2 isSecure2 (Some (data_email, data_otp)) (run lib db1 reqs) =
             \<lparr>reply = jsonResponse (Error ''Invalid or expired OTP'') 401 None,
              store = run lib db1 reqs, console = []\<rparr>)"
  proof
    assume fresh: "\<forall>(w', req) \<in> set reqs. \<forall>d. req = SendOTP (Some d) \<longrightarrow>
         toLowerCase lib (trim lib d) = addr \<longrightarrow> generateOTP (random_u32 w') \<noteq> code"
    have spent: "\<forall>r \<in> set (admin_sessions (run lib db1 reqs)).
        \<not> (email r = addr \<and> otp r = code \<and> session_token r = None)"
      using spent1 fresh by (rule run_keeps_spent)
    have d1: "\<forall>r' \<in> set (admin_sessions (run lib db1 reqs)). \<not> otp_matches addr code t r'"
      using spent by (auto simp: otp_matches_def)
    have sel_none: "select_otp (run lib db1 reqs) addr code u = None" for u
      using spent by (auto simp: select_otp_None otp_matches_def)
    have d2: "status (reply (handleVerifyOTP lib w2 isSecure2 (Some (data_email, data_otp))
          (run lib db1 reqs))) \<noteq> 200"
      using sel_none [of "toISOString (now w2)"] assms(1,2) by (simp add: handleVerifyOTP_no_match)
    have d3: "checkVerifyRateLimit w2 0 (run lib db1 reqs) addr = Inr True \<and> \<not> d1_rejects w2 1 \<longrightarrow>
          handleVerifyOTP lib w2 isSecure2 (Some (data_email, data_otp)) (run lib db1 reqs) =
            \<lparr>reply = jsonResponse (Error ''Invalid or expired OTP'') 401 None,
             store = run lib db1 reqs, console = []\<rparr>"
      using assms(1-4) sel_none [of "toISOString (now w2)"]
      by (simp add: handleVerifyOTP_checked)
    show "(\<forall>r' \<in> set (admin_sessions (run lib db1 reqs)). \<not> otp_matches addr code t r') \<and>
        status (reply (handleVerifyOTP lib w2 isSecure2 (Some (data_email, data_otp))
           (run lib db1 reqs))) \<noteq> 200 \<and>
        (checkVerifyRateLimit w2 0 (run lib db1 reqs) addr = Inr True \<and> \<not> d1_rejects w2 1 \<longrightarrow>
           handleVerifyOTP lib w2 isSecure2 (Some (data_email, data_otp)) (run lib db1 reqs) =
             \<lparr>reply = jsonResponse (Error ''Invalid or expired OTP'') 401 None,
              store = run lib db1 reqs, console = []\<rparr>)"
      using d1 d2 d3 by blast
  qed
  show ?thesis using c1 c2 c3 c4 c5 by blast
qed

lemmas handler_eval = handleVerifyOTP_def handleSendOTP_def checkVerifyRateLimit_def
  checkOTPRateLimit_def count_failed_def count_recent_def select_otp_def otp_matches_def
  update_session_def delete_unused_def insert_otp_def next_id_def consume_def
  MAX_OTP_VERIFY_ATTEMPTS_def MAX_OTP_REQUESTS_PER_HOUR_def RATE_LIMIT_WINDOW_MS_def
  plain_fields ascii_trim_def ascii_space_def ascii_lower_def validateOTP_def isNumeric_def
  endsWith_def simpleEmail_def token_zero otp_0 verifyFailed_def sendFailed_def Let_def

lemma verify_busy:
  "handleVerifyOTP plain (calm (noon + 60000) 0) True (Some (''admin@cloudflare.com'', ''100001'')) busy_db =
   \<lparr>reply = jsonResponse (Success ''Login successful'') 200
      (Some (getSecureCookieString True zero_token 86400)),
    store = \<lparr>admin_sessions =
        [\<lparr>row_id = 1, email = ''admin@cloudflare.com'', otp = [],
          session_token = Some ''feed'',
          otp_expires_at = ''2026-11-03T09:10:00.000Z'',
          session_expires_at = Some ''2026-11-04T09:01:00.000Z'',
          created_at = ''2026-11-03 09:00:00''\<rparr>,
         \<lparr>row_id = 3, email = ''ops@cloudflare.com'', otp = ''100001'', session_token = None,
          otp_expires_at = ''2026-11-03T12:10:20.000Z'', session_expires_at = None,
          created_at = ''2026-11-03 12:00:20''\<rparr>,
         \<lparr>row_id = 4, email = ''admin@cloudflare.com'', otp = [],
          session_token = Some zero_token,
          otp_expires_at = ''2026-11-03T12:10:30.000Z'',
          session_expires_at = Some ''2026-11-04T12:01:00.000Z'',
          created_at = ''2026-11-03 12:00:30''\<rparr>],
      last_id = 4\<rparr>,
    console = []\<rparr>"
  by (simp add: handler_eval calm_fields noon_def busy_db_def iso_1146 sql_1201 iso_1201
      iso_next_1201)

lemma select_busy:
  "select_otp busy_db ''admin@cloudflare.com'' ''100001'' (toISOString (now (calm (noon + 60000) 0))) =
     Some (admin_sessions busy_db ! 3)"
  by (simp add: select_otp_def otp_matches_def busy_db_def calm_fields noon_def iso_1201)

lemma rate_busy:
  "checkVerifyRateLimit (calm (noon + 60000) 0) 0 busy_db ''admin@cloudflare.com'' = Inr True"
  by (simp add: checkVerifyRateLimit_def calm_fields noon_def busy_db_def count_failed_def
      MAX_OTP_VERIFY_ATTEMPTS_def iso_1146 sql_1201)

lemma primary_key_busy: "primary_key busy_db"
  by (simp add: primary_key_def busy_db_def)

lemma trim_100001: "trim plain ''100001'' = ''100001''"
  by (simp add: plain_fields ascii_trim_def ascii_space_def)

lemma validate_100001: "validateOTP ''100001''"
  by (simp add: validateOTP_def isNumeric_def)

theorem handleVerifyOTP_cleanup_witness:
  "status (reply (handleVerifyOTP plain (calm (noon + 60000) 0) True
      (Some (''admin@cloudflare.com'', ''100001'')) busy_db)) = 200 \<and>
   consume zero_token ''2026-11-04T12:01:00.000Z'' (admin_sessions busy_db ! 3)
     \<in> set (admin_sessions (store (handleVerifyOTP plain (calm (noon + 60000) 0) True
          (Some (''admin@cloudflare.com'', ''100001'')) busy_db))) \<and>
   admin_sessions busy_db ! 0
     \<in> set (admin_sessions (store (handleVerifyOTP plain (calm (noon + 60000) 0) True
          (Some (''admin@cloudflare.com'', ''100001'')) busy_db))) \<and>
   admin_sessions busy_db ! 1
     \<notin> set (admin_sessions (store (handleVerifyOTP plain (calm (noon + 60000) 0) True
          (Some (''admin@cloudflare.com'', ''100001'')) busy_db))) \<and>
   admin_sessions busy_db ! 2
     \<in> set (admin_sessions (store (handleVerifyOTP plain (calm (noon + 60000) 0) True
          (Some (''admin@cloudflare.com'', ''100001'')) busy_db)))"
proof -
  have ok: "\<not> d1_rejects (calm (noon + 60000) 0) k" for k by (simp add: calm_fields)
  have t: "zero_token = generateSessionToken (random_bytes (calm (noon + 60000) 0))"
    by (simp add: calm_fields token_zero)
  have e: "''2026-11-04T12:01:00.000Z'' =
      toISOString (now (calm (noon + 60000) 0) + 24 * 60 * 60 * 1000)"
    by (simp add: calm_fields noon_def iso_next_1201)
  have rows: "admin_sessions busy_db ! 0 \<in> set (admin_sessions busy_db)"
    "admin_sessions busy_db ! 1 \<in> set (admin_sessions busy_db)"
    "admin_sessions busy_db ! 2 \<in> set (admin_sessions busy_db)"
    by (simp_all add: busy_db_def)
  have f: "row_id (admin_sessions busy_db ! 0) = 1" "row_id (admin_sessions busy_db ! 1) = 2"
    "row_id (admin_sessions busy_db ! 2) = 3" "row_id (admin_sessions busy_db ! 3) = 4"
    "email (admin_sessions busy_db ! 0) = ''admin@cloudflare.com''"
    "email (admin_sessions busy_db ! 1) = ''admin@cloudflare.com''"
    "email (admin_sessions busy_db ! 2) = ''ops@cloudflare.com''"
    "session_token (admin_sessions busy_db ! 0) = Some ''feed''"
    "session_token (admin_sessions busy_db ! 1) = None"
    "session_token (admin_sessions busy_db ! 2) = None"
    "row_id (admin_sessions busy_db ! Suc 0) = 2"
    "email (admin_sessions busy_db ! Suc 0) = ''admin@cloudflare.com''"
    "session_token (admin_sessions busy_db ! Suc 0) = None"
    by (simp_all add: busy_db_def)
  show ?thesis
    using handleVerifyOTP_cleanup [of "''admin@cloudflare.com''" plain "''admin@cloudflare.com''"
        "''100001''" "''100001''" "calm (noon + 60000) 0" busy_db "admin_sessions busy_db ! 3"
        zero_token "''2026-11-04T12:01:00.000Z''" _ True,
        OF norm_plain [symmetric] trim_100001 [symmetric] _ validate_100001 rate_busy ok ok
          select_busy primary_key_busy t e refl] ok [of 3] rows
    by (auto simp: f)
qed

text \<open>
  C8 as stated fails in its last part: when the cleanup statement rejects, the handler
  answers 500, although the record has already been given its session token.
\<close>

theorem cleanup_failure_counterexample:
  "reply (handleVerifyOTP plain ((calm (noon + 60000) 0)\<lparr>d1_rejects := (\<lambda>k. k = 3)\<rparr>) True
      (Some (''admin@cloudflare.com'', ''100000'')) issued_db) =
     jsonResponse (Error ''Failed to verify OTP. Please try again.'') 500 None \<and>
   store (handleVerifyOTP plain ((calm (noon + 60000) 0)\<lparr>d1_rejects := (\<lambda>k. k = 3)\<rparr>) True
      (Some (''admin@cloudflare.com'', ''100000'')) issued_db) = session_db"
  by (simp add: handler_eval calm_def noon_def issued_db_def session_db_def iso_1146 sql_1201
      iso_1201 iso_next_1201)

lemma otp_1: "generateOTP 1 = ''100001''"
  by (simp add: generateOTP_def padStart_def toString.simps digit_def)

lemma send_again:
  "store (handleSendOTP plain (calm (noon + 120000) u) (Some ''admin@cloudflare.com'')
      session_db) =
   \<lparr>admin_sessions =
      [\<lparr>row_id = 1, email = ''admin@cloudflare.com'', otp = [],
        session_token = Some zero_token,
        otp_expires_at = ''2026-11-03T12:10:00.000Z'',
        session_expires_at = Some ''2026-11-04T12:01:00.000Z'',
        created_at = ''2026-11-03 12:00:00''\<rparr>,
       \<lparr>row_id = 2, email = ''admin@cloudflare.com'', otp = generateOTP u,
        session_token = None,
        otp_expires_at = ''2026-11-03T12:12:00.000Z'', session_expires_at = None,
        created_at = ''2026-11-03 12:02:00''\<rparr>],
    last_id = 2\<rparr>"
  by (simp add: handleSendOTP_def checkOTPRateLimit_def count_recent_def insert_otp_def
      next_id_def MAX_OTP_REQUESTS_PER_HOUR_def RATE_LIMIT_WINDOW_MS_def plain_fields
      ascii_trim_def ascii_space_def ascii_lower_def endsWith_def simpleEmail_def Let_def
      calm_fields noon_def session_db_def time_defs)

lemma run_reissue:
  "run plain issued_db
     [(calm (noon + 60000) 0, VerifyOTP True (Some (''admin@cloudflare.com'', ''100000''))),
      (calm (noon + 120000) u, SendOTP (Some ''admin@cloudflare.com''))] =
   \<lparr>admin_sessions =
      [\<lparr>row_id = 1, email = ''admin@cloudflare.com'', otp = [],
        session_token = Some zero_token,
        otp_expires_at = ''2026-11-03T12:10:00.000Z'',
        session_expires_at = Some ''2026-11-04T12:01:00.000Z'',
        created_at = ''2026-11-03 12:00:00''\<rparr>,
       \<lparr>row_id = 2, email = ''admin@cloudflare.com'', otp = generateOTP u,
        session_token = None,
        otp_expires_at = ''2026-11-03T12:12:00.000Z'', session_expires_at = None,
        created_at = ''2026-11-03 12:02:00''\<rparr>],
    last_id = 2\<rparr>"
  by (simp add: run_def verify_issued send_again)

text \<open>
  C1 as stated fails when a later issuance for the same address draws the same code: the
  pair that was verified at 12:01 verifies again at 12:03, against the record issued
  at 12:02.
\<close>

theorem reissued_code_counterexample:
  "status (reply (handleVerifyOTP plain (calm (noon + 60000) 0) True
      (Some (''admin@cloudflare.com'', ''100000''))
      (run plain empty_db
         [(calm noon 0, SendOTP (Some '' Admin@Cloudflare.com ''))]))) = 200 \<and>
   status (reply (handleVerifyOTP plain (calm (noon + 180000) 0) True
      (Some (''admin@cloudflare.com'', ''100000''))
      (run plain empty_db
         [(calm noon 0, SendOTP (Some '' Admin@Cloudflare.com '')),
          (calm (noon + 60000) 0, VerifyOTP True (Some (''admin@cloudflare.com'', ''100000''))),
          (calm (noon + 120000) 0, SendOTP (Some ''admin@cloudflare.com''))]))) = 200"
proof -
  have r: "run plain empty_db (a # reqs) = run plain (run plain empty_db [a]) reqs"
    for a reqs by (simp add: run_def)
  have first: "status (reply (handleVerifyOTP plain (calm (noon + 60000) 0) True
      (Some (''admin@cloudflare.com'', ''100000'')) issued_db)) = 200"
    by (simp add: verify_issued jsonResponse_def)
  have second: "status (reply (handleVerifyOTP plain (calm (noon + 180000) 0) True
      (Some (''admin@cloudflare.com'', ''100000''))
      (run plain issued_db
         [(calm (noon + 60000) 0, VerifyOTP True (Some (''admin@cloudflare.com'', ''100000''))),
          (calm (noon + 120000) 0, SendOTP (Some ''admin@cloudflare.com''))]))) = 200"
    unfolding run_reissue
    by (simp add: handler_eval calm_fields noon_def jsonResponse_def time_defs)
  show ?thesis
    using first second
    by (simp only: r [of _ "[_, _]"] run_issued)
qed

lemma select_issued:
  "select_otp issued_db ''admin@cloudflare.com'' ''100000''
     (toISOString (now (calm (noon + 60000) 0))) = Some (hd (admin_sessions issued_db))"
  by (simp add: select_otp_def otp_matches_def issued_db_def calm_fields noon_def iso_1201)

theorem verified_code_is_spent_witness:
  "(\<exists>r \<in> set (admin_sessions session_db).
      row_id r = 1 \<and> otp r = [] \<and> session_token r = Some zero_token) \<and>
   list_all (\<lambda>r. row_id r \<noteq> 1 \<or> (otp r = [] \<and> session_token r = Some zero_token))
     (admin_sessions (run plain session_db
        [(calm (noon + 120000) 0, SendOTP (Some ''admin@cloudflare.com''))])) \<and>
   status (reply (handleVerifyOTP plain (calm (noon + 180000) 0) True
      (Some (''admin@cloudflare.com'', ''100000''))
      (run plain session_db
         [(calm (noon + 120000) 1, SendOTP (Some ''admin@cloudflare.com'')),
          (calm (noon + 150000) 0, Cleanup)]))) \<noteq> 200 \<and>
   handleVerifyOTP plain (calm (noon + 180000) 0) True
      (Some (''admin@cloudflare.com'', ''100000'')) session_db =
     \<lparr>reply = jsonResponse (Error ''Invalid or expired OTP'') 401 None,
      store = session_db, console = []\<rparr>"
proof -
  have ok: "\<not> d1_rejects (calm t u) k" for t u k by (simp add: calm_fields)
  have pk: "primary_key issued_db" by (simp add: primary_key_def issued_db_def)
  have sq: "sequence_ok issued_db" by (simp add: sequence_ok_def issued_db_def)
  have tk: "zero_token = generateSessionToken (random_bytes (calm (noon + 60000) 0))"
    by (simp add: calm_fields token_zero)
  have ex: "''2026-11-04T12:01:00.000Z'' =
      toISOString (now (calm (noon + 60000) 0) + 24 * 60 * 60 * 1000)"
    by (simp add: calm_fields noon_def iso_next_1201)
  have d1: "session_db = store (handleVerifyOTP plain (calm (noon + 60000) 0) True
      (Some (''admin@cloudflare.com'', ''100000'')) issued_db)"
    by (simp add: verify_issued)
  have fresh: "\<forall>(w', req) \<in> set [(calm (noon + 120000) 1, SendOTP (Some ''admin@cloudflare.com'')),
          (calm (noon + 150000) 0, Cleanup)].
      \<forall>d. req = SendOTP (Some d) \<longrightarrow> toLowerCase plain (trim plain d) = ''admin@cloudflare.com'' \<longrightarrow>
        generateOTP (random_u32 w') \<noteq> ''100000''"
    by (simp add: calm_fields otp_1)
  have id1: "row_id (hd (admin_sessions issued_db)) = 1" by (simp add: issued_db_def)
  note spent = verified_code_is_spent [where w = "calm (noon + 60000) 0" and db = issued_db
        and ?w2.0 = "calm (noon + 180000) 0" and lib = plain
        and isSecure = True and ?isSecure2.0 = True,
        OF norm_plain [symmetric] trim_100000 [symmetric] _ validate_100000 rate_issued_1201
          ok ok ok pk sq select_issued tk ex d1]
  have kept: "list_all (\<lambda>r. row_id r \<noteq> 1 \<or> (otp r = [] \<and> session_token r = Some zero_token))
     (admin_sessions (run plain session_db
        [(calm (noon + 120000) 0, SendOTP (Some ''admin@cloudflare.com''))]))"
    using spent [where reqs = "[(calm (noon + 120000) 0, SendOTP (Some ''admin@cloudflare.com''))]"]
    by (auto simp: id1 list_all_iff)
  show ?thesis
    using spent [where reqs = "[(calm (noon + 120000) 1, SendOTP (Some ''admin@cloudflare.com'')),
          (calm (noon + 150000) 0, Cleanup)]"] fresh ok kept
    by (simp add: id1)
qed

section \<open>The rate limits and the two text forms of time\<close>

lemma append_Cons_less: "(a::char) < b \<Longrightarrow> p @ a # x < p @ b # y"
  by (induction p) auto

lemma date_text_same_day:
  "a div 86400000 = b div 86400000 \<Longrightarrow> date_text a = date_text b"
  by (simp add: date_text_def)

text \<open>
  The two text forms of instants of one UTC day start with the same ten characters; the
  eleventh is a space in SQLite's form and a \<open>T\<close> in the ISO form, so SQLite's form is
  always the smaller text, whatever the times of day are.
\<close>

lemma sqlite_less_iso_same_day:
  assumes "a div 86400000 = b div 86400000"
  shows "sqlite_datetime a < toISOString b"
proof -
  have "CHR '' '' < CHR ''T''" by simp
  then have "date_text b @ CHR '' '' # clock_text a <
             date_text b @ CHR ''T'' # (clock_text b @ ''.'' @ pad 3 (b mod 1000) @ ''Z'')"
    by (rule append_Cons_less)
  then show ?thesis
    using date_text_same_day [OF assms] by (simp add: sqlite_datetime_def toISOString_def)
qed

lemma count_recent_same_day:
  assumes "\<forall>r \<in> set (admin_sessions db).
             \<exists>t. created_at r = sqlite_datetime t \<and> t div 86400000 = start div 86400000"
  shows "count_recent db addr (toISOString start) = 0"
proof -
  have "\<not> toISOString start < created_at r" if "r \<in> set (admin_sessions db)" for r
  proof -
    from assms that obtain t where t: "created_at r = sqlite_datetime t"
      "t div 86400000 = start div 86400000" by blast
    from sqlite_less_iso_same_day [OF t(2)] show ?thesis unfolding t(1)
      by (auto dest: less_asym)
  qed
  then show ?thesis by (simp add: count_recent_def filter_empty_conv)
qed

lemma count_failed_same_day:
  assumes "\<forall>r \<in> set (admin_sessions db).
             (\<exists>t. created_at r = sqlite_datetime t \<and> t div 86400000 = start div 86400000) \<or>
             (\<exists>t. otp_expires_at r = toISOString t \<and> t div 86400000 = clock div 86400000)"
  shows "count_failed db clock addr (toISOString start) = 0"
proof -
  have "\<not> (toISOString start < created_at r \<and> otp_expires_at r < sqlite_datetime clock)"
    if "r \<in> set (admin_sessions db)" for r
  proof -
    from assms that consider
      t where "created_at r = sqlite_datetime t" "t div 86400000 = start div 86400000"
      | t where "otp_expires_at r = toISOString t" "t div 86400000 = clock div 86400000"
      by blast
    then show ?thesis
    proof cases
      case 1
      from sqlite_less_iso_same_day [OF 1(2)] show ?thesis unfolding 1(1)
        by (auto dest: less_asym)
    next
      case 2
      from sqlite_less_iso_same_day [OF 2(2) [symmetric]] show ?thesis unfolding 2(1)
        by (auto dest: less_asym)
    qed
  qed
  then show ?thesis by (auto simp: count_failed_def filter_empty_conv)
qed

lemma five_sends_list:
  "five_sends t =
     [(calm t 0, SendOTP (Some ''admin@cloudflare.com'')),
      (calm (t + 1000) 1, SendOTP (Some ''admin@cloudflare.com'')),
      (calm (t + 2000) 2, SendOTP (Some ''admin@cloudflare.com'')),
      (calm (t + 3000) 3, SendOTP (Some ''admin@cloudflare.com'')),
      (calm (t + 4000) 4, SendOTP (Some ''admin@cloudflare.com''))]"
  by (simp add: five_sends_def upt_conv_Cons)

lemmas send_eval = handleSendOTP_def checkOTPRateLimit_def count_recent_def insert_otp_def
  next_id_def MAX_OTP_REQUESTS_PER_HOUR_def RATE_LIMIT_WINDOW_MS_def plain_fields
  ascii_trim_def ascii_space_def ascii_lower_def endsWith_def simpleEmail_def Let_def calm_fields
  generateOTP_def

lemma run_five_noon:
  "run plain empty_db (five_sends noon) =
   \<lparr>admin_sessions =
      [\<lparr>row_id = 1, email = ''admin@cloudflare.com'', otp = ''100000'', session_token = None,
        otp_expires_at = ''2026-11-03T12:10:00.000Z'', session_expires_at = None,
        created_at = ''2026-11-03 12:00:00''\<rparr>,
       \<lparr>row_id = 2, email = ''admin@cloudflare.com'', otp = ''100001'', session_token = None,
        otp_expires_at = ''2026-11-03T12:10:01.000Z'', session_expires_at = None,
        created_at = ''2026-11-03 12:00:01''\<rparr>,
       \<lparr>row_id = 3, email = ''admin@cloudflare.com'', otp = ''100002'', session_token = None,
        otp_expires_at = ''2026-11-03T12:10:02.000Z'', session_expires_at = None,
        created_at = ''2026-11-03 12:00:02''\<rparr>,
       \<lparr>row_id = 4, email = ''admin@cloudflare.com'', otp = ''100003'', session_token = None,
        otp_expires_at = ''2026-11-03T12:10:03.000Z'', session_expires_at = None,
        created_at = ''2026-11-03 12:00:03''\<rparr>,
       \<lparr>row_id = 5, email = ''admin@cloudflare.com'', otp = ''100004'', session_token = None,
        otp_expires_at = ''2026-11-03T12:10:04.000Z'', session_expires_at = None,
        created_at = ''2026-11-03 12:00:04''\<rparr>],
    last_id = 5\<rparr>"
  by (simp add: run_def five_sends_list noon_def empty_db_def send_eval time_defs)

text \<open>
  C3 against the code. \<open>checkOTPRateLimit\<close> compares \<open>created_at\<close>, which the database
  wrote as \<open>YYYY-MM-DD HH:MM:SS\<close>, with the ISO text of now - 60 minutes. A row created on
  the UTC day of that instant is never counted, however recent it is: for a table of
  such rows the limit allows the request, \<open>handleSendOTP\<close> answers 200 and adds a row,
  however many codes the address was sent within the hour.
\<close>

theorem issuance_limit_misses_same_day:
  assumes "addr = toLowerCase lib (trim lib data_email)" and "addr \<noteq> []" and "isEmail lib addr"
    and "endsWith addr ''@cloudflare.com''"
    and "\<not> d1_rejects w 0" and "\<not> d1_rejects w 1"
    and "\<forall>r \<in> set (admin_sessions db).
           \<exists>t. created_at r = sqlite_datetime t \<and>
               t div 86400000 = (now w - RATE_LIMIT_WINDOW_MS) div 86400000"
  shows
    "checkOTPRateLimit w 0 db addr = Inr \<lparr>allowed = True, remaining = 5\<rparr> \<and>
     reply (handleSendOTP lib w (Some data_email) db) =
       jsonResponse (Success ''OTP sent successfully'') 200 None \<and>
     length (admin_sessions (store (handleSendOTP lib w (Some data_email) db))) =
       Suc (length (admin_sessions db))"
proof -
  have "count_recent db addr (toISOString (now w - RATE_LIMIT_WINDOW_MS)) = 0"
    using assms(7) by (rule count_recent_same_day)
  then have rl: "checkOTPRateLimit w 0 db addr = Inr \<lparr>allowed = True, remaining = 5\<rparr>"
    using assms(5) by (simp add: checkOTPRateLimit_def MAX_OTP_REQUESTS_PER_HOUR_def)
  then show ?thesis
    using assms(1-4,6) by (simp add: handleSendOTP_def Let_def rows_insert_otp)
qed

lemma sql_noon_seconds:
  "sqlite_datetime 1793707200000 = ''2026-11-03 12:00:00''"
  "sqlite_datetime 1793707201000 = ''2026-11-03 12:00:01''"
  "sqlite_datetime 1793707202000 = ''2026-11-03 12:00:02''"
  "sqlite_datetime 1793707203000 = ''2026-11-03 12:00:03''"
  "sqlite_datetime 1793707204000 = ''2026-11-03 12:00:04''"
  by (simp_all add: time_defs)

theorem issuance_limit_misses_same_day_witness:
  "length (admin_sessions (run plain empty_db (five_sends noon))) = 5 \<and>
   list_all (\<lambda>r. email r = ''admin@cloudflare.com'')
     (admin_sessions (run plain empty_db (five_sends noon))) \<and>
   reply (handleSendOTP plain (calm (noon + 5000) 5) (Some ''admin@cloudflare.com'')
      (run plain empty_db (five_sends noon))) =
     jsonResponse (Success ''OTP sent successfully'') 200 None \<and>
   length (admin_sessions (store (handleSendOTP plain (calm (noon + 5000) 5)
      (Some ''admin@cloudflare.com'') (run plain empty_db (five_sends noon))))) = 6"
proof -
  have a: "isEmail plain ''admin@cloudflare.com''" by (simp add: plain_fields simpleEmail_def)
  have b: "endsWith ''admin@cloudflare.com'' ''@cloudflare.com''" by (simp add: endsWith_def)
  have ok: "\<not> d1_rejects (calm (noon + 5000) 5) k" for k by (simp add: calm_fields)
  have day: "(now (calm (noon + 5000) 5) - RATE_LIMIT_WINDOW_MS) div 86400000 = 20760"
    by (simp add: calm_fields noon_def RATE_LIMIT_WINDOW_MS_def)
  have stamps: "\<forall>r \<in> set (admin_sessions (run plain empty_db (five_sends noon))).
      \<exists>t. created_at r = sqlite_datetime t \<and>
          t div 86400000 = (now (calm (noon + 5000) 5) - RATE_LIMIT_WINDOW_MS) div 86400000"
    unfolding day run_five_noon
    using sql_noon_seconds [symmetric]
    by (auto intro: exI [of _ 1793707200000] exI [of _ 1793707201000] exI [of _ 1793707202000]
        exI [of _ 1793707203000] exI [of _ 1793707204000])
  have len: "length (admin_sessions (run plain empty_db (five_sends noon))) = 5"
    "list_all (\<lambda>r. email r = ''admin@cloudflare.com'')
       (admin_sessions (run plain empty_db (five_sends noon)))"
    by (simp_all add: run_five_noon)
  show ?thesis
    using issuance_limit_misses_same_day [of "''admin@cloudflare.com''" plain
        "''admin@cloudflare.com''" "calm (noon + 5000) 5" "run plain empty_db (five_sends noon)",
        OF norm_plain [symmetric] _ a b ok ok stamps] len
    by simp
qed

text \<open>
  C7 against the code. \<open>checkVerifyRateLimit\<close> compares \<open>created_at\<close> (SQLite's form) with
  the ISO text of now - 15 minutes, and \<open>otp_expires_at\<close> (ISO form) with SQLite's
  \<open>datetime('now')\<close>. A row created on the UTC day of now - 15 minutes fails the first
  comparison and a row that expires on the UTC day of now fails the second, whatever the
  times of day are. For a table of such rows the count is 0: the limit allows the call
  and \<open>handleVerifyOTP\<close> goes on to compare the code, however many codes of the address
  have expired unused in the last 15 minutes.
\<close>

theorem verification_limit_misses_same_day:
  assumes "addr = toLowerCase lib (trim lib data_email)" and "code = trim lib data_otp"
    and "addr \<noteq> []" and "validateOTP code"
    and "\<not> d1_rejects w 0" and "\<not> d1_rejects w 1"
    and "\<forall>r \<in> set (admin_sessions db).
           (\<exists>t. created_at r = sqlite_datetime t \<and>
                t div 86400000 = (now w - 15 * 60 * 1000) div 86400000) \<or>
           (\<exists>t. otp_expires_at r = toISOString t \<and> t div 86400000 = now w div 86400000)"
  shows
    "checkVerifyRateLimit w 0 db addr = Inr True \<and>
     status (reply (handleVerifyOTP lib w isSecure (Some (data_email, data_otp)) db)) \<noteq> 429 \<and>
     (select_otp db addr code (toISOString (now w)) = None \<longrightarrow>
        handleVerifyOTP lib w isSecure (Some (data_email, data_otp)) db =
          \<lparr>reply = jsonResponse (Error ''Invalid or expired OTP'') 401 None,
           store = db, console = []\<rparr>)"
proof -
  note a = assms(1) and c = assms(2)
  have n1: "toLowerCase lib (trim lib data_email) \<noteq> []" using assms(3) unfolding a .
  have n2: "validateOTP (trim lib data_otp)" using assms(4) unfolding c .
  have "count_failed db (now w) addr (toISOString (now w - 15 * 60 * 1000)) = 0"
    using assms(7) by (rule count_failed_same_day)
  then have rl: "checkVerifyRateLimit w 0 db (toLowerCase lib (trim lib data_email)) = Inr True"
    using assms(5) unfolding a
    by (simp add: checkVerifyRateLimit_def MAX_OTP_VERIFY_ATTEMPTS_def)
  note out = handleVerifyOTP_checked [OF n1 n2 rl assms(6), of isSecure]
  show ?thesis
    unfolding a c out using rl
    by (simp add: verifyFailed_def jsonResponse_def split: option.splits)
qed

lemma run_five_stale:
  "run plain empty_db (five_sends (noon - 720000)) =
   \<lparr>admin_sessions =
      [\<lparr>row_id = 1, email = ''admin@cloudflare.com'', otp = ''100000'', session_token = None,
        otp_expires_at = ''2026-11-03T11:58:00.000Z'', session_expires_at = None,
        created_at = ''2026-11-03 11:48:00''\<rparr>,
       \<lparr>row_id = 2, email = ''admin@cloudflare.com'', otp = ''100001'', session_token = None,
        otp_expires_at = ''2026-11-03T11:58:01.000Z'', session_expires_at = None,
        created_at = ''2026-11-03 11:48:01''\<rparr>,
       \<lparr>row_id = 3, email = ''admin@cloudflare.com'', otp = ''100002'', session_token = None,
        otp_expires_at = ''2026-11-03T11:58:02.000Z'', session_expires_at = None,
        created_at = ''2026-11-03 11:48:02''\<rparr>,
       \<lparr>row_id = 4, email = ''admin@cloudflare.com'', otp = ''100003'', session_token = None,
        otp_expires_at = ''2026-11-03T11:58:03.000Z'', session_expires_at = None,
        created_at = ''2026-11-03 11:48:03''\<rparr>,
       \<lparr>row_id = 5, email = ''admin@cloudflare.com'', otp = ''100004'', session_token = None,
        otp_expires_at = ''2026-11-03T11:58:04.000Z'', session_expires_at = None,
        created_at = ''2026-11-03 11:48:04''\<rparr>],
    last_id = 5\<rparr>"
  by (simp add: run_def five_sends_list noon_def empty_db_def send_eval time_defs)

lemma sql_stale_seconds:
  "sqlite_datetime 1793706480000 = ''2026-11-03 11:48:00''"
  "sqlite_datetime 1793706481000 = ''2026-11-03 11:48:01''"
  "sqlite_datetime 1793706482000 = ''2026-11-03 11:48:02''"
  "sqlite_datetime 1793706483000 = ''2026-11-03 11:48:03''"
  "sqlite_datetime 1793706484000 = ''2026-11-03 11:48:04''"
  by (simp_all add: time_defs)

theorem verification_limit_misses_same_day_witness:
  "length (filter (\<lambda>r. email r = ''admin@cloudflare.com'' \<and> session_token r = None \<and>
             ''2026-11-03 11:45:00'' < created_at r \<and>
             otp_expires_at r < ''2026-11-03T12:00:00.000Z'')
     (admin_sessions (run plain empty_db (five_sends (noon - 720000))))) = 5 \<and>
   handleVerifyOTP plain (calm noon 0) True (Some (''admin@cloudflare.com'', ''123456''))
      (run plain empty_db (five_sends (noon - 720000))) =
     \<lparr>reply = jsonResponse (Error ''Invalid or expired OTP'') 401 None,
      store = run plain empty_db (five_sends (noon - 720000)), console = []\<rparr>"
proof -
  have ok: "\<not> d1_rejects (calm noon 0) k" for k by (simp add: calm_fields)
  have v: "validateOTP ''123456''" by (simp add: validateOTP_def isNumeric_def)
  have tr: "''123456'' = trim plain ''123456''"
    by (simp add: plain_fields ascii_trim_def ascii_space_def)
  have day: "(now (calm noon 0) - 15 * 60 * 1000) div 86400000 = 20760"
    by (simp add: calm_fields noon_def)
  have stamps: "\<forall>r \<in> set (admin_sessions (run plain empty_db (five_sends (noon - 720000)))).
      (\<exists>t. created_at r = sqlite_datetime t \<and>
           t div 86400000 = (now (calm noon 0) - 15 * 60 * 1000) div 86400000) \<or>
      (\<exists>t. otp_expires_at r = toISOString t \<and> t div 86400000 = now (calm noon 0) div 86400000)"
    unfolding day run_five_stale
    using sql_stale_seconds [symmetric]
    by (auto intro: exI [of _ 1793706480000] exI [of _ 1793706481000] exI [of _ 1793706482000]
        exI [of _ 1793706483000] exI [of _ 1793706484000])
  have none: "select_otp (run plain empty_db (five_sends (noon - 720000)))
      ''admin@cloudflare.com'' ''123456'' (toISOString (now (calm noon 0))) = None"
    by (simp add: run_five_stale select_otp_def otp_matches_def)
  have five: "length (filter (\<lambda>r. email r = ''admin@cloudflare.com'' \<and> session_token r = None \<and>
             ''2026-11-03 11:45:00'' < created_at r \<and>
             otp_expires_at r < ''2026-11-03T12:00:00.000Z'')
     (admin_sessions (run plain empty_db (five_sends (noon - 720000))))) = 5"
    by (simp add: run_five_stale)
  show ?thesis
    using verification_limit_misses_same_day [of "''admin@cloudflare.com''" plain
        "''admin@cloudflare.com''" "''123456''" "''123456''" "calm noon 0"
        "run plain empty_db (five_sends (noon - 720000))" True,
        OF norm_plain [symmetric] tr _ v ok ok stamps] none five
    by simp
qed

section \<open>Two codes within one second\<close>

lemma iso_twin: "toISOString 1793707800400 = ''2026-11-03T12:10:00.400Z''"
  by (simp add: time_defs)

lemma sql_twin: "sqlite_datetime 1793707200400 = ''2026-11-03 12:00:00''"
  by (simp add: time_defs)

lemma iso_twin_window: "toISOString 1793703600400 = ''2026-11-03T11:00:00.400Z''"
  by (simp add: time_defs)

lemma run_twin:
  "run plain empty_db
     [(calm noon 0, SendOTP (Some ''admin@cloudflare.com'')),
      (calm (noon + 400) 0, SendOTP (Some ''admin@cloudflare.com''))] = twin_db"
  by (simp add: run_def noon_def empty_db_def twin_db_def send_eval otp_0 iso_noon_plus10
      sql_noon iso_twin sql_twin iso_twin_window time_defs)

text \<open>
  C4 as stated fails in its choice of record: of two matching codes issued 400 ms apart,
  both stamped 12:00:00 by the database, the verification consumes the one issued first
  and deletes the one issued last.
\<close>

theorem older_record_chosen_counterexample:
  "run plain empty_db
     [(calm noon 0, SendOTP (Some ''admin@cloudflare.com'')),
      (calm (noon + 400) 0, SendOTP (Some ''admin@cloudflare.com''))] = twin_db \<and>
   handleVerifyOTP plain (calm (noon + 60000) 0) True
      (Some (''admin@cloudflare.com'', ''100000'')) twin_db =
     \<lparr>reply = jsonResponse (Success ''Login successful'') 200
        (Some (getSecureCookieString True zero_token 86400)),
      store =
        \<lparr>admin_sessions =
           [\<lparr>row_id = 1, email = ''admin@cloudflare.com'', otp = [],
             session_token = Some zero_token,
             otp_expires_at = ''2026-11-03T12:10:00.000Z'',
             session_expires_at = Some ''2026-11-04T12:01:00.000Z'',
             created_at = ''2026-11-03 12:00:00''\<rparr>],
         last_id = 2\<rparr>,
      console = []\<rparr>"
proof -
  have "handleVerifyOTP plain (calm (noon + 60000) 0) True
      (Some (''admin@cloudflare.com'', ''100000'')) twin_db =
     \<lparr>reply = jsonResponse (Success ''Login successful'') 200
        (Some (getSecureCookieString True zero_token 86400)),
      store =
        \<lparr>admin_sessions =
           [\<lparr>row_id = 1, email = ''admin@cloudflare.com'', otp = [],
             session_token = Some zero_token,
             otp_expires_at = ''2026-11-03T12:10:00.000Z'',
             session_expires_at = Some ''2026-11-04T12:01:00.000Z'',
             created_at = ''2026-11-03 12:00:00''\<rparr>],
         last_id = 2\<rparr>,
      console = []\<rparr>"
    by (simp add: handler_eval calm_def noon_def twin_db_def iso_1146 sql_1201 iso_1201
        iso_next_1201)
  with run_twin show ?thesis by simp
qed

section \<open>Wrong codes in a row\<close>

text \<open>
  Every row without a session token in a table that requests have built carries the two
  stamps of its issue: \<open>handleSendOTP\<close> is the only writer of such rows.
\<close>

lemma stamped_insert_otp:
  assumes "clock_ok clock"
    and "\<forall>r \<in> set (admin_sessions db). session_token r = None \<longrightarrow> stamped r"
    and "r \<in> set (admin_sessions (insert_otp db clock addr code (toISOString (clock + 10 * 60 * 1000))))"
    and "session_token r = None"
  shows "stamped r"
proof (cases "r \<in> set (admin_sessions db)")
  case True
  with assms(2,4) show ?thesis by simp
next
  case False
  with assms(3) have "created_at r = sqlite_datetime clock"
    "otp_expires_at r = toISOString (clock + 10 * 60 * 1000)"
    by (auto simp: rows_insert_otp)
  with assms(1) show ?thesis unfolding stamped_def by blast
qed

lemma stamped_serve:
  assumes c: "clock_ok (now w)"
    and q: "\<forall>r \<in> set (admin_sessions db). session_token r = None \<longrightarrow> stamped r"
  shows "\<forall>r \<in> set (admin_sessions (serve lib db (w, req))). session_token r = None \<longrightarrow> stamped r"
proof (cases req)
  case (SendOTP data)
  with q store_handleSendOTP_cases [of lib w data db] stamped_insert_otp [OF c q]
  show ?thesis by auto
next
  case (VerifyOTP isSecure data)
  have "\<forall>r \<in> set (admin_sessions (store (handleVerifyOTP lib w isSecure data db))).
          r \<in> set (admin_sessions db) \<or> session_token r \<noteq> None"
    using store_handleVerifyOTP_cases [of lib w isSecure data db]
    by (auto dest!: rows_delete_unused rows_update_session_cases)
  with q VerifyOTP show ?thesis by auto
next
  case (CheckAuth cookie)
  with q show ?thesis by simp
next
  case (Logout isSecure cookie)
  show ?thesis
  proof (cases "handleLogout w isSecure cookie db")
    case (Inl e)
    with Logout q show ?thesis by simp
  next
    case (Inr p)
    obtain resp db' where p: "p = (resp, db')" by (cases p)
    from Inr p have "db' = db \<or> (\<exists>token. db' = delete_token db token)"
      by (simp add: store_handleLogout_cases)
    with q have "\<forall>r \<in> set (admin_sessions db'). session_token r = None \<longrightarrow> stamped r"
      by (auto dest: rows_delete_token)
    with Inr p Logout show ?thesis by simp
  qed
next
  case Cleanup
  have "\<forall>r \<in> set (admin_sessions (cleanupExpiredData w db)). r \<in> set (admin_sessions db)"
    using store_cleanup_cases [of w db] by (auto dest: rows_delete_expired)
  with q Cleanup show ?thesis by auto
qed

lemma stamped_run:
  assumes "\<forall>q \<in> set reqs. clock_ok (now (fst q))"
    and "\<forall>r \<in> set (admin_sessions db). session_token r = None \<longrightarrow> stamped r"
  shows "\<forall>r \<in> set (admin_sessions (run lib db reqs)). session_token r = None \<longrightarrow> stamped r"
  using assms unfolding run_def
proof (induction reqs arbitrary: db)
  case Nil
  then show ?case by simp
next
  case (Cons a reqs)
  obtain w req where a: "a = (w, req)" by (cases a)
  from Cons.prems(1) a have c: "clock_ok (now w)" by simp
  from Cons.prems(1) have rest: "\<forall>q \<in> set reqs. clock_ok (now (fst q))" by simp
  from Cons.IH [OF rest stamped_serve [OF c Cons.prems(2), of lib req]] a
  show ?case by simp
qed

lemma stamped_run_empty:
  assumes "\<forall>q \<in> set reqs. clock_ok (now (fst q))"
  shows "\<forall>r \<in> set (admin_sessions (run lib empty_db reqs)). session_token r = None \<longrightarrow> stamped r"
  by (rule stamped_run [OF assms]) (simp add: empty_db_def)

lemma checkVerifyRateLimit_stamped:
  assumes "clock_ok (now w)" and "\<not> d1_rejects w k"
    and "\<forall>r \<in> set (admin_sessions db). session_token r = None \<longrightarrow> stamped r"
  shows "checkVerifyRateLimit w k db addr = Inr True"
  using assms(2) count_failed_stamped [OF assms(1,3), of addr]
  by (simp add: checkVerifyRateLimit_def MAX_OTP_VERIFY_ATTEMPTS_def)

lemma select_otp_wrong_code: "wrong_code db addr code \<Longrightarrow> select_otp db addr code nowText = None"
  by (auto simp: select_otp_None wrong_code_def otp_matches_def list_all_iff)

lemma handleVerifyOTP_wrong:
  assumes "clock_ok (now w)" and "\<not> d1_rejects w 0" and "\<not> d1_rejects w 1"
    and "\<forall>r \<in> set (admin_sessions db). session_token r = None \<longrightarrow> stamped r"
    and "wrong_attempt lib db data"
  shows "handleVerifyOTP lib w isSecure data db =
     \<lparr>reply = jsonResponse (Error ''Invalid or expired OTP'') 401 None, store = db, console = []\<rparr>"
proof (cases data)
  case None
  with assms(5) show ?thesis by simp
next
  case (Some p)
  obtain de dc where p: "p = (de, dc)" by (cases p)
  from assms(5) Some p have a: "toLowerCase lib (trim lib de) \<noteq> []" and v: "validateOTP (trim lib dc)"
    and wc: "wrong_code db (toLowerCase lib (trim lib de)) (trim lib dc)" by simp_all
  note rl = checkVerifyRateLimit_stamped [OF assms(1,2,4), of "toLowerCase lib (trim lib de)"]
  show ?thesis unfolding Some p handleVerifyOTP_checked [OF a v rl assms(3), of isSecure]
    by (simp add: select_otp_wrong_code [OF wc])
qed

lemma attempts_wrong:
  assumes "\<forall>r \<in> set (admin_sessions db). session_token r = None \<longrightarrow> stamped r"
    and "\<forall>(w, isSecure, data) \<in> set tries.
           clock_ok (now w) \<and> \<not> d1_rejects w 0 \<and> \<not> d1_rejects w 1 \<and> wrong_attempt lib db data"
  shows "attempts lib db tries =
     (replicate (length tries) (jsonResponse (Error ''Invalid or expired OTP'') 401 None), db)"
  using assms(2)
proof (induction tries)
  case Nil
  then show ?case by simp
next
  case (Cons a tries)
  obtain w isSecure data where a: "a = (w, isSecure, data)" by (cases a)
  from Cons.prems a have h: "clock_ok (now w)" "\<not> d1_rejects w 0" "\<not> d1_rejects w 1"
    "wrong_attempt lib db data" by simp_all
  from Cons.prems have rest: "\<forall>(w, isSecure, data) \<in> set tries.
           clock_ok (now w) \<and> \<not> d1_rejects w 0 \<and> \<not> d1_rejects w 1 \<and> wrong_attempt lib db data"
    by simp
  note one = handleVerifyOTP_wrong [OF h(1,2,3) assms(1) h(4), of isSecure]
  from Cons.IH [OF rest] show ?case unfolding a by (simp add: one)
qed

text \<open>
  C10. Take a table that requests have built from the empty one, all clocks in the years
  1970 to 9999. A verification that carries a wrong six-digit code and whose two SELECTs
  run answers 401 \<open>Invalid or expired OTP\<close> and leaves the database as it is; so any number
  of them in a row do, and none is answered 429. The count that \<open>checkVerifyRateLimit\<close>
  compares with the limit is 0 on such a table at every instant and for every address, so
  no attempt raises it, whether or not a code of the address is still valid.
\<close>

theorem wrong_codes_are_never_limited:
  assumes "\<forall>q \<in> set reqs. clock_ok (now (fst q))"
    and "db = run lib empty_db reqs"
    and "\<forall>(w, isSecure, data) \<in> set tries.
           clock_ok (now w) \<and> \<not> d1_rejects w 0 \<and> \<not> d1_rejects w 1 \<and>
           wrong_attempt lib db data"
  shows "attempts lib db tries =
     (replicate (length tries) (jsonResponse (Error ''Invalid or expired OTP'') 401 None), db) \<and>
     (clock_ok clock \<longrightarrow>
        count_failed db clock addr (toISOString (clock - 15 * 60 * 1000)) = 0)"
proof -
  have st: "\<forall>r \<in> set (admin_sessions db). session_token r = None \<longrightarrow> stamped r"
    unfolding assms(2) using assms(1) by (rule stamped_run_empty)
  have "attempts lib db tries =
     (replicate (length tries) (jsonResponse (Error ''Invalid or expired OTP'') 401 None), db)"
    using st assms(3) by (rule attempts_wrong)
  moreover have "clock_ok clock \<longrightarrow>
        count_failed db clock addr (toISOString (clock - 15 * 60 * 1000)) = 0"
    by (intro impI) (rule count_failed_stamped [OF _ st])
  ultimately show ?thesis by simp
qed

lemma iso_1209: "toISOString 1793707740000 = ''2026-11-03T12:09:00.000Z''"
  by (simp add: time_defs)

theorem wrong_codes_are_never_limited_witness:
  "attempts plain issued_db
     [(calm (noon + 60000) 0, True, Some (''admin@cloudflare.com'', ''100001'')),
      (calm (noon + 120000) 0, True, Some ('' Admin@Cloudflare.com '', ''999999'')),
      (calm (noon + 540000) 0, False, Some (''admin@cloudflare.com'', ''000000''))] =
     (replicate 3 (jsonResponse (Error ''Invalid or expired OTP'') 401 None), issued_db) \<and>
   count_failed issued_db (noon + 540000) ''admin@cloudflare.com''
     (toISOString (noon + 540000 - 15 * 60 * 1000)) = 0 \<and>
   (\<exists>r \<in> set (admin_sessions issued_db).
      email r = ''admin@cloudflare.com'' \<and> session_token r = None \<and>
      toISOString (noon + 540000) < otp_expires_at r)"
proof -
  have c: "clock_ok noon" "clock_ok (noon + 60000)" "clock_ok (noon + 120000)"
    "clock_ok (noon + 540000)" by (simp_all add: clock_ok_def noon_def)
  have v: "validateOTP ''100001''" "validateOTP ''999999''" "validateOTP ''000000''"
    by (simp_all add: validateOTP_def isNumeric_def)
  have t: "trim plain ''100001'' = ''100001''" "trim plain ''999999'' = ''999999''"
    "trim plain ''000000'' = ''000000''"
    by (simp_all add: plain_fields ascii_trim_def ascii_space_def)
  have w: "wrong_code issued_db ''admin@cloudflare.com'' ''100001''"
    "wrong_code issued_db ''admin@cloudflare.com'' ''999999''"
    "wrong_code issued_db ''admin@cloudflare.com'' ''000000''"
    by (simp_all add: wrong_code_def issued_db_def)
  have e: "\<exists>r \<in> set (admin_sessions issued_db).
      email r = ''admin@cloudflare.com'' \<and> session_token r = None \<and>
      toISOString (noon + 540000) < otp_expires_at r"
    by (simp add: issued_db_def noon_def iso_1209)
  have "attempts plain issued_db
     [(calm (noon + 60000) 0, True, Some (''admin@cloudflare.com'', ''100001'')),
      (calm (noon + 120000) 0, True, Some ('' Admin@Cloudflare.com '', ''999999'')),
      (calm (noon + 540000) 0, False, Some (''admin@cloudflare.com'', ''000000''))] =
     (replicate 3 (jsonResponse (Error ''Invalid or expired OTP'') 401 None), issued_db) \<and>
   count_failed issued_db (noon + 540000) ''admin@cloudflare.com''
     (toISOString (noon + 540000 - 15 * 60 * 1000)) = 0"
    using wrong_codes_are_never_limited [where lib = plain and db = issued_db
      and reqs = "[(calm noon 0, SendOTP (Some '' Admin@Cloudflare.com ''))]"
      and clock = "noon + 540000" and addr = "''admin@cloudflare.com''"
      and tries = "[(calm (noon + 60000) 0, True, Some (''admin@cloudflare.com'', ''100001'')),
        (calm (noon + 120000) 0, True, Some ('' Admin@Cloudflare.com '', ''999999'')),
        (calm (noon + 540000) 0, False, Some (''admin@cloudflare.com'', ''000000''))]"]
    by (simp add: run_issued calm_fields c v t w norm_admin norm_plain replicate_numeral)
  with e show ?thesis by blast
qed

end
